(* ===== verification/Prelude.thy ===== *)
theory Prelude
  imports Complex_Main "HOL-Library.Sublist" "HOL-Library.Multiset"
begin

text \<open>
  Shared vocabulary of the STPPG development (\<^verbatim>\<open>src/stppg.py\<close>): the Python exceptions
  the sampler can raise, as values of \<open>py_error\<close>; the numpy arrays it passes around, as
  lists of reals (a row \<open>[t, x, y]\<close> of a points array is a \<open>real list\<close>, a 2-D array a
  list of rows); the vector arithmetic numpy performs elementwise; and the generic
  lemmas on lists and reals that the component theories share. Python floats are
  modelled as exact reals: rounding is not modelled.
\<close>

section \<open>Errors, intervals and arrays\<close>

text \<open>The exceptions the modelled code can raise (each one ends the whole call).\<close>

datatype py_error =
    IndexError          \<comment> \<open>a list indexed past its end (\<open>w[k]\<close>, \<open>mu_x[k]\<close>)\<close>
  | ZeroDivisionError   \<comment> \<open>Python \<open>i % 0\<close> on ints\<close>
  | ValueError          \<comment> \<open>numpy: negative Poisson mean, array shapes that do not broadcast\<close>
  | NameError           \<comment> \<open>a name that is not defined (\<open>tqdm\<close>, \<open>plot_ts\<close> in \<open>plot_3d_pointprocess_avg_lam\<close>)\<close>

text \<open>A closed interval \<open>[min, max]\<close> of one coordinate, as the lists \<open>T\<close> and \<open>S\<close> hold them.\<close>

type_synonym interval = "real \<times> real"

text \<open>A row of a points array (\<open>[t, x, y]\<close>) and a whole array of rows.\<close>

type_synonym row = "real list"
type_synonym points = "real list list"

text \<open>numpy's elementwise operations on equal-length vectors.\<close>

definition vec_add :: "real list \<Rightarrow> real list \<Rightarrow> real list" where
  "vec_add xs ys = map2 (+) xs ys"

definition vec_scale :: "real \<Rightarrow> real list \<Rightarrow> real list" where
  "vec_scale c xs = map ((*) c) xs"

text \<open>
  A Python loop that appends \<open>f x\<close> for each \<open>x\<close> in order, the first exception ending
  it (\<open>for x in xs: out.append(f(x))\<close>).
\<close>

fun map_sum :: "('a \<Rightarrow> 'e + 'b) \<Rightarrow> 'a list \<Rightarrow> 'e + 'b list" where
  "map_sum f [] = Inr []"
| "map_sum f (x # xs) =
     (case f x of
        Inl e \<Rightarrow> Inl e
      | Inr y \<Rightarrow> (case map_sum f xs of Inl e \<Rightarrow> Inl e | Inr ys \<Rightarrow> Inr (y # ys)))"

named_theorems kernel_defs "definitions of the kernel formulas, unfolded together"
named_theorems nonneg_intros "introduction rules for non-negativity of kernel values"

section \<open>Generic lemmas\<close>

lemma length_vec_add [simp]: "length (vec_add xs ys) = min (length xs) (length ys)"
  by (simp add: vec_add_def)

lemma length_vec_scale [simp]: "length (vec_scale c xs) = length xs"
  by (simp add: vec_scale_def)

lemma sum_list_vec_add:
  "length xs = length ys \<Longrightarrow> sum_list (vec_add xs ys) = sum_list xs + sum_list ys"
proof (induction xs arbitrary: ys)
  case Nil
  then show ?case by (simp add: vec_add_def)
next
  case (Cons x xs)
  then show ?case by (cases ys) (auto simp: vec_add_def)
qed

lemma sum_list_vec_scale: "sum_list (vec_scale c xs) = c * sum_list xs"
  by (induction xs) (simp_all add: vec_scale_def algebra_simps)

lemma vec_add_replicate_zero [simp]:
  "length xs = n \<Longrightarrow> vec_add (replicate n 0) xs = xs"
  by (induction xs arbitrary: n) (auto simp: vec_add_def)

lemma vec_scale_one [simp]: "vec_scale 1 xs = xs"
  by (induction xs) (simp_all add: vec_scale_def)

lemma nonneg_vec_add [nonneg_intros]:
  "\<forall>v\<in>set xs. 0 \<le> v \<Longrightarrow> \<forall>v\<in>set ys. 0 \<le> v \<Longrightarrow> \<forall>v\<in>set (vec_add xs ys). 0 \<le> v"
  by (auto simp: vec_add_def dest!: set_zip_leftD set_zip_rightD elim!: in_set_zipE)

lemma nonneg_vec_scale [nonneg_intros]:
  "0 \<le> c \<Longrightarrow> \<forall>v\<in>set xs. 0 \<le> v \<Longrightarrow> \<forall>v\<in>set (vec_scale c xs). 0 \<le> v"
  by (auto simp: vec_scale_def)

lemma nonneg_replicate_zero [nonneg_intros]: "\<forall>v\<in>set (replicate n (0::real)). 0 \<le> v"
  by simp

lemma sum_list_nonneg_ball: "\<forall>v\<in>set xs. (0::real) \<le> v \<Longrightarrow> 0 \<le> sum_list xs"
  by (auto intro: sum_list_nonneg)

lemma list_all_conj: "list_all (\<lambda>x. P x \<and> Q x) xs \<longleftrightarrow> list_all P xs \<and> list_all Q xs"
  by (induction xs) auto

lemma nth_vec_add:
  "j < length xs \<Longrightarrow> j < length ys \<Longrightarrow> vec_add xs ys ! j = xs ! j + ys ! j"
  by (simp add: vec_add_def)

lemma nth_vec_scale: "j < length xs \<Longrightarrow> vec_scale c xs ! j = c * xs ! j"
  by (simp add: vec_scale_def)

lemma list_all_upt_less_iff: "list_all (\<lambda>k. k < a) [0..<n] \<longleftrightarrow> n \<le> a"
  by (induction n) auto

lemma map2_fst:
  "length ys = length xs \<Longrightarrow> map2 (\<lambda>x y. g x) xs ys = map g xs"
  by (induction xs arbitrary: ys) (auto simp: length_Suc_conv)

lemma sum_list_map2_zero: "sum_list (map2 (\<lambda>x y. (0::real)) xs ys) = 0"
proof (induction xs arbitrary: ys)
  case Nil
  then show ?case by simp
next
  case (Cons x xs)
  then show ?case by (cases ys) auto
qed

lemma set_map2_image:
  "v \<in> set (map2 f xs ys) \<Longrightarrow> \<exists>x y. x \<in> set xs \<and> y \<in> set ys \<and> v = f x y"
  by (auto elim!: in_set_zipE)

lemma map_sum_Inr_iff: "map_sum f xs = Inr ys \<longleftrightarrow> list_all2 (\<lambda>x y. f x = Inr y) xs ys"
proof (induction xs arbitrary: ys)
  case Nil
  then show ?case by auto
next
  case (Cons x xs)
  then show ?case
    by (cases "f x"; cases "map_sum f xs") (auto simp: list_all2_Cons1)
qed

lemma map_sum_total:
  "\<forall>x\<in>set xs. \<exists>y. f x = Inr y \<Longrightarrow> \<exists>ys. map_sum f xs = Inr ys"
  by (induction xs) auto

lemma map_sum_Inr_all:
  "map_sum f xs = Inr ys \<Longrightarrow> \<forall>x\<in>set xs. \<forall>y. f x = Inr y \<longrightarrow> P y \<Longrightarrow> list_all P ys"
  by (induction xs arbitrary: ys) (auto split: sum.splits)

lemma map_sum_values_ge:
  assumes "\<And>x. x \<in> set xs \<Longrightarrow> \<exists>v. f x = Inr v \<and> c \<le> v"
  shows "\<exists>vs. map_sum f xs = Inr vs \<and> list_all (\<lambda>v. (c::'b::linorder) \<le> v) vs"
  using assms by (induction xs) fastforce+

lemma map_sum_const: "\<forall>x\<in>set xs. f x = Inr c \<Longrightarrow> map_sum f xs = Inr (replicate (length xs) c)"
  by (induction xs) auto

lemma list_all2_map_self: "\<forall>x\<in>set xs. P x (f x) \<Longrightarrow> list_all2 P xs (map f xs)"
  by (induction xs) auto

lemma length_product_lists: "length (product_lists xss) = prod_list (map length xss)"
  by (induction xss) (simp_all add: length_concat comp_def sum_list_triv)

lemma filter_less_sorted:
  "sorted (map f xs) \<Longrightarrow> filter (\<lambda>x. f x < (c::real)) xs = takeWhile (\<lambda>x. f x < c) xs"
proof (induction xs)
  case Nil
  then show ?case by simp
next
  case (Cons x xs)
  show ?case
  proof (cases "f x < c")
    case True
    with Cons show ?thesis by simp
  next
    case False
    with Cons.prems have "\<forall>y\<in>set xs. \<not> f y < c" by fastforce
    with False show ?thesis by (simp add: filter_empty_conv)
  qed
qed

lemma sorted_le_last: "sorted xs \<Longrightarrow> x \<in> set xs \<Longrightarrow> x \<le> last xs"
  by (induction xs) (auto simp: last_in_set)

lemma prod_list_nonneg_ball: "\<forall>x\<in>set xs. (0::real) \<le> x \<Longrightarrow> 0 \<le> prod_list xs"
  by (induction xs) auto

lemma length_pairs: "length [(t, s). t \<leftarrow> xs, s \<leftarrow> ys] = length xs * length ys"
  by (induction xs) simp_all

text \<open>Sorting a mapped list sorts the indices: \<open>points[points[:, 0].argsort()]\<close>.\<close>

lemma insort_key_map_comp: "insort_key k (f x) (map f ys) = map f (insort_key (\<lambda>y. k (f y)) x ys)"
  by (induction ys) auto

lemma sort_key_map_comp: "sort_key k (map f xs) = map f (sort_key (\<lambda>y. k (f y)) xs)"
  by (induction xs) (simp_all add: insort_key_map_comp)

lemma map_filter_append: "List.map_filter f (xs @ ys) = List.map_filter f xs @ List.map_filter f ys"
  by (induction xs) (simp_all add: map_filter_simps split: option.split)

text \<open>Filtering a range of indices, one index at a time.\<close>

lemma filter_upt_step:
  "[j\<leftarrow>[i..<Suc (i + k)]. P j] = (if P i then [i] else []) @ [j\<leftarrow>[Suc i..<Suc i + k]. P j]"
  using upt_conv_Cons[of i "Suc (i + k)"] by simp

lemma filter_upt_nonzero:
  "[j\<leftarrow>[0..<n]. j \<noteq> 0 \<and> Q j] = [j\<leftarrow>[1..<n]. Q j]"
proof (cases n)
  case 0
  then show ?thesis by simp
next
  case (Suc m)
  then have "[0..<n] = 0 # [1..<n]" by (simp add: upt_conv_Cons)
  moreover have "[j\<leftarrow>[1..<n]. j \<noteq> 0 \<and> Q j] = [j\<leftarrow>[1..<n]. Q j]"
    by (rule filter_cong) auto
  ultimately show ?thesis by simp
qed

lemma map_sum_length: "map_sum f xs = Inr ys \<Longrightarrow> length ys = length xs"
  by (simp add: map_sum_Inr_iff list_all2_lengthD)

lemma list_all2_map_same:
  "\<forall>x\<in>set xs. P (f x) (g x) \<Longrightarrow> list_all2 P (map f xs) (map g xs)"
  by (induction xs) auto

end
