(* ===== verification/Kernels.thy ===== *)
theory Kernels
  imports Prelude
begin

text \<open>
  The five excitation kernels of \<^verbatim>\<open>src/stppg.py\<close> (lines 24--157). Each Python class is a
  record of its constructor's fields and a function \<open><Class>_nu\<close>, the method \<open>nu\<close>. The
  arithmetic of \<open>nu\<close> is vectorised over the history in numpy; here it is the scalar
  formula \<open><Class>_val\<close> on one history event, mapped over the history by
  \<open>pairwise_nu\<close>, which computes the differences \<open>delta_t\<close>, \<open>delta_x\<close>, \<open>delta_y\<close> the
  way every \<open>nu\<close> does (\<open>delta_s = s - his_s\<close>, \<open>delta_t = t - his_t\<close>). The two mixtures
  share the accumulation loop \<open>mixture_loop\<close>, which raises \<open>IndexError\<close> where Python
  indexes \<open>w\<close> past its end; the mixture constructor raises it where a parameter list is
  shorter than \<open>n_comp\<close>. The datatype \<open>kernel\<close> is the duck-typed interface
  \<open>kernel.nu\<close> that the intensity calls.
\<close>

section \<open>The vectorised evaluation shared by every kernel\<close>

text \<open>
  \<open>f dt dx dy hs\<close> is one history event's contribution; \<open>hs\<close> is the event's location
  (the spatially varying kernels evaluate their parameter functions there).
\<close>

definition pairwise_nu ::
  "(real \<Rightarrow> real \<Rightarrow> real \<Rightarrow> row \<Rightarrow> real) \<Rightarrow> real \<Rightarrow> row \<Rightarrow> real list \<Rightarrow> points \<Rightarrow> real list" where
  "pairwise_nu f t s his_t his_s =
     map2 (\<lambda>ht hs. f (t - ht) (s ! 0 - hs ! 0) (s ! 1 - hs ! 1) hs) his_t his_s"

section \<open>StdDiffusionKernel\<close>

record StdDiffusionKernel =
  sd_C :: real
  sd_beta :: real
  sd_sigma_x :: real
  sd_sigma_y :: real

definition StdDiffusionKernel_init :: "real \<Rightarrow> real \<Rightarrow> real \<Rightarrow> real \<Rightarrow> StdDiffusionKernel" where
  "StdDiffusionKernel_init C beta sigma_x sigma_y =
     \<lparr>sd_C = C, sd_beta = beta, sd_sigma_x = sigma_x, sd_sigma_y = sigma_y\<rparr>"

definition StdDiffusionKernel_val :: "StdDiffusionKernel \<Rightarrow> real \<Rightarrow> real \<Rightarrow> real \<Rightarrow> real" where
  "StdDiffusionKernel_val k delta_t delta_x delta_y =
     exp (- sd_beta k * delta_t) *
     (sd_C k / (2 * pi * sd_sigma_x k * sd_sigma_y k * delta_t)) *
     exp ((- 1 / (2 * delta_t)) *
          (delta_x\<^sup>2 / (sd_sigma_x k)\<^sup>2 + delta_y\<^sup>2 / (sd_sigma_y k)\<^sup>2))"

text \<open>
  \<open>delta_x = delta_s[:, 0]; delta_y = delta_s[:, 1]\<close> raise \<open>IndexError\<close> when the
  location has fewer than two coordinates (the rows of the history have the width of
  \<open>s\<close> in every call of the program).
\<close>

definition StdDiffusionKernel_nu ::
  "StdDiffusionKernel \<Rightarrow> real \<Rightarrow> row \<Rightarrow> real list \<Rightarrow> points \<Rightarrow> py_error + real list" where
  "StdDiffusionKernel_nu k t s his_t his_s =
     (if length s < 2 then Inl IndexError
      else Inr (pairwise_nu (\<lambda>dt dx dy hs. StdDiffusionKernel_val k dt dx dy) t s his_t his_s))"

section \<open>GaussianDiffusionKernel\<close>

record GaussianDiffusionKernel =
  gd_C :: real
  gd_beta :: real
  gd_mu_x :: real
  gd_mu_y :: real
  gd_sigma_x :: real
  gd_sigma_y :: real
  gd_rho :: real

definition GaussianDiffusionKernel_init ::
  "real \<Rightarrow> real \<Rightarrow> real \<Rightarrow> real \<Rightarrow> real \<Rightarrow> real \<Rightarrow> real \<Rightarrow> GaussianDiffusionKernel" where
  "GaussianDiffusionKernel_init mu_x mu_y sigma_x sigma_y rho beta C =
     \<lparr>gd_C = C, gd_beta = beta, gd_mu_x = mu_x, gd_mu_y = mu_y,
      gd_sigma_x = sigma_x, gd_sigma_y = sigma_y, gd_rho = rho\<rparr>"

definition GaussianDiffusionKernel_val :: "GaussianDiffusionKernel \<Rightarrow> real \<Rightarrow> real \<Rightarrow> real \<Rightarrow> real" where
  "GaussianDiffusionKernel_val k delta_t delta_x delta_y =
     exp (- gd_beta k * delta_t) *
     (gd_C k / (2 * pi * gd_sigma_x k * gd_sigma_y k * delta_t * sqrt (1 - (gd_rho k)\<^sup>2))) *
     exp ((- 1 / (2 * delta_t * (1 - (gd_rho k)\<^sup>2))) *
          ((delta_x - gd_mu_x k)\<^sup>2 / (gd_sigma_x k)\<^sup>2 +
           (delta_y - gd_mu_y k)\<^sup>2 / (gd_sigma_y k)\<^sup>2 -
           2 * gd_rho k * (delta_x - gd_mu_x k) * (delta_y - gd_mu_y k) /
             (gd_sigma_x k * gd_sigma_y k)))"

definition GaussianDiffusionKernel_nu ::
  "GaussianDiffusionKernel \<Rightarrow> real \<Rightarrow> row \<Rightarrow> real list \<Rightarrow> points \<Rightarrow> py_error + real list" where
  "GaussianDiffusionKernel_nu k t s his_t his_s =
     (if length s < 2 then Inl IndexError
      else Inr (pairwise_nu (\<lambda>dt dx dy hs. GaussianDiffusionKernel_val k dt dx dy) t s his_t his_s))"

section \<open>The accumulation loop of the two mixtures\<close>

text \<open>
  \<^verbatim>\<open>nu = 0; for k in range(self.n_comp): nu += self.w[k] * self.gdks[k].nu(...)\<close>.
  \<open>nu_k c\<close> is component \<open>c\<close>'s \<open>nu\<close> at the current arguments; \<open>w[k]\<close> is read first,
  so an index past either list raises \<open>IndexError\<close>, and an exception of the component's
  \<open>nu\<close> ends the loop. The scalar \<open>0\<close> that starts the sum is the zero vector here: only
  its sum is ever used.
\<close>

fun mixture_loop ::
  "('c \<Rightarrow> py_error + real list) \<Rightarrow> real list \<Rightarrow> 'c list \<Rightarrow> nat list \<Rightarrow> real list \<Rightarrow> py_error + real list" where
  "mixture_loop nu_k w gdks [] acc = Inr acc"
| "mixture_loop nu_k w gdks (k # ks) acc =
     (if k < length w \<and> k < length gdks
      then (case nu_k (gdks ! k) of
              Inl e \<Rightarrow> Inl e
            | Inr v \<Rightarrow> mixture_loop nu_k w gdks ks (vec_add acc (vec_scale (w ! k) v)))
      else Inl IndexError)"

section \<open>GaussianMixtureDiffusionKernel\<close>

record GaussianMixtureDiffusionKernel =
  gm_gdks :: "GaussianDiffusionKernel list"
  gm_n_comp :: int
  gm_w :: "real list"

text \<open>
  The constructor reads \<open>mu_x[k]\<close>, \dots, \<open>rho[k]\<close> for \<open>k < n_comp\<close>: a list shorter than
  \<open>n_comp\<close> raises \<open>IndexError\<close>. Neither \<open>w\<close> nor any parameter value is checked.
\<close>

definition GaussianMixtureDiffusionKernel_init ::
  "int \<Rightarrow> real list \<Rightarrow> real list \<Rightarrow> real list \<Rightarrow> real list \<Rightarrow> real list \<Rightarrow> real list \<Rightarrow>
   real \<Rightarrow> real \<Rightarrow> py_error + GaussianMixtureDiffusionKernel" where
  "GaussianMixtureDiffusionKernel_init n_comp w mu_x mu_y sigma_x sigma_y rho beta C =
     (if list_all (\<lambda>k. k < length mu_x \<and> k < length mu_y \<and> k < length sigma_x \<and>
                       k < length sigma_y \<and> k < length rho) [0..<nat n_comp]
      then Inr \<lparr>gm_gdks = map (\<lambda>k. GaussianDiffusionKernel_init (mu_x ! k) (mu_y ! k)
                                   (sigma_x ! k) (sigma_y ! k) (rho ! k) beta C) [0..<nat n_comp],
                gm_n_comp = n_comp, gm_w = w\<rparr>
      else Inl IndexError)"

definition GaussianMixtureDiffusionKernel_nu ::
  "GaussianMixtureDiffusionKernel \<Rightarrow> real \<Rightarrow> row \<Rightarrow> real list \<Rightarrow> points \<Rightarrow> py_error + real list" where
  "GaussianMixtureDiffusionKernel_nu m t s his_t his_s =
     mixture_loop (\<lambda>g. GaussianDiffusionKernel_nu g t s his_t his_s) (gm_w m) (gm_gdks m)
       [0..<nat (gm_n_comp m)] (replicate (length his_t) 0)"

section \<open>SpatialVariantGaussianDiffusionKernel\<close>

text \<open>
  The same formula as \<open>GaussianDiffusionKernel_val\<close>, with \<open>mu_x\<close>, \dots, \<open>rho\<close> the
  values of the constructor's functions at the history event's own location
  \<open>(his_s[:,0], his_s[:,1])\<close>.
\<close>

record SpatialVariantGaussianDiffusionKernel =
  sv_C :: real
  sv_beta :: real
  sv_mu_x :: "real \<Rightarrow> real \<Rightarrow> real"
  sv_mu_y :: "real \<Rightarrow> real \<Rightarrow> real"
  sv_sigma_x :: "real \<Rightarrow> real \<Rightarrow> real"
  sv_sigma_y :: "real \<Rightarrow> real \<Rightarrow> real"
  sv_rho :: "real \<Rightarrow> real \<Rightarrow> real"

definition SpatialVariantGaussianDiffusionKernel_init ::
  "(real \<Rightarrow> real \<Rightarrow> real) \<Rightarrow> (real \<Rightarrow> real \<Rightarrow> real) \<Rightarrow> (real \<Rightarrow> real \<Rightarrow> real) \<Rightarrow>
   (real \<Rightarrow> real \<Rightarrow> real) \<Rightarrow> (real \<Rightarrow> real \<Rightarrow> real) \<Rightarrow> real \<Rightarrow> real \<Rightarrow>
   SpatialVariantGaussianDiffusionKernel" where
  "SpatialVariantGaussianDiffusionKernel_init f_mu_x f_mu_y f_sigma_x f_sigma_y f_rho beta C =
     \<lparr>sv_C = C, sv_beta = beta, sv_mu_x = f_mu_x, sv_mu_y = f_mu_y,
      sv_sigma_x = f_sigma_x, sv_sigma_y = f_sigma_y, sv_rho = f_rho\<rparr>"

definition SpatialVariantGaussianDiffusionKernel_val ::
  "SpatialVariantGaussianDiffusionKernel \<Rightarrow> real \<Rightarrow> real \<Rightarrow> real \<Rightarrow> real \<Rightarrow> real \<Rightarrow> real" where
  "SpatialVariantGaussianDiffusionKernel_val k hx hy delta_t delta_x delta_y =
     (let mu_xs = sv_mu_x k hx hy; mu_ys = sv_mu_y k hx hy;
          sigma_xs = sv_sigma_x k hx hy; sigma_ys = sv_sigma_y k hx hy; rhos = sv_rho k hx hy
      in exp (- sv_beta k * delta_t) *
         (sv_C k / (2 * pi * sigma_xs * sigma_ys * delta_t * sqrt (1 - rhos\<^sup>2))) *
         exp ((- 1 / (2 * delta_t * (1 - rhos\<^sup>2))) *
              ((delta_x - mu_xs)\<^sup>2 / sigma_xs\<^sup>2 +
               (delta_y - mu_ys)\<^sup>2 / sigma_ys\<^sup>2 -
               2 * rhos * (delta_x - mu_xs) * (delta_y - mu_ys) / (sigma_xs * sigma_ys))))"

definition SpatialVariantGaussianDiffusionKernel_nu ::
  "SpatialVariantGaussianDiffusionKernel \<Rightarrow> real \<Rightarrow> row \<Rightarrow> real list \<Rightarrow> points \<Rightarrow> py_error + real list" where
  "SpatialVariantGaussianDiffusionKernel_nu k t s his_t his_s =
     (if length s < 2 then Inl IndexError
      else Inr (pairwise_nu (\<lambda>dt dx dy hs. SpatialVariantGaussianDiffusionKernel_val k (hs ! 0) (hs ! 1) dt dx dy)
                  t s his_t his_s))"

section \<open>SpatialVariantGaussianMixtureDiffusionKernel\<close>

record SpatialVariantGaussianMixtureDiffusionKernel =
  svm_gdks :: "SpatialVariantGaussianDiffusionKernel list"
  svm_n_comp :: int
  svm_w :: "real list"

definition SpatialVariantGaussianMixtureDiffusionKernel_init ::
  "int \<Rightarrow> real list \<Rightarrow> (real \<Rightarrow> real \<Rightarrow> real) list \<Rightarrow> (real \<Rightarrow> real \<Rightarrow> real) list \<Rightarrow>
   (real \<Rightarrow> real \<Rightarrow> real) list \<Rightarrow> (real \<Rightarrow> real \<Rightarrow> real) list \<Rightarrow> (real \<Rightarrow> real \<Rightarrow> real) list \<Rightarrow>
   real \<Rightarrow> real \<Rightarrow> py_error + SpatialVariantGaussianMixtureDiffusionKernel" where
  "SpatialVariantGaussianMixtureDiffusionKernel_init n_comp w f_mu_x f_mu_y f_sigma_x f_sigma_y f_rho beta C =
     (if list_all (\<lambda>k. k < length f_mu_x \<and> k < length f_mu_y \<and> k < length f_sigma_x \<and>
                       k < length f_sigma_y \<and> k < length f_rho) [0..<nat n_comp]
      then Inr \<lparr>svm_gdks = map (\<lambda>k. SpatialVariantGaussianDiffusionKernel_init (f_mu_x ! k) (f_mu_y ! k)
                                   (f_sigma_x ! k) (f_sigma_y ! k) (f_rho ! k) beta C) [0..<nat n_comp],
                svm_n_comp = n_comp, svm_w = w\<rparr>
      else Inl IndexError)"

definition SpatialVariantGaussianMixtureDiffusionKernel_nu ::
  "SpatialVariantGaussianMixtureDiffusionKernel \<Rightarrow> real \<Rightarrow> row \<Rightarrow> real list \<Rightarrow> points \<Rightarrow>
   py_error + real list" where
  "SpatialVariantGaussianMixtureDiffusionKernel_nu m t s his_t his_s =
     mixture_loop (\<lambda>g. SpatialVariantGaussianDiffusionKernel_nu g t s his_t his_s) (svm_w m) (svm_gdks m)
       [0..<nat (svm_n_comp m)] (replicate (length his_t) 0)"

section \<open>The kernel interface\<close>

text \<open>
  \<open>HawkesLam\<close> calls \<open>self.kernel.nu(t, s, his_t, his_s)\<close> on whichever kernel object it
  was given; the datatype enumerates the five classes and \<open>kernel_nu\<close> dispatches.
\<close>

datatype kernel =
    StdDiffusion StdDiffusionKernel
  | GaussianDiffusion GaussianDiffusionKernel
  | GaussianMixture GaussianMixtureDiffusionKernel
  | SpatialVariant SpatialVariantGaussianDiffusionKernel
  | SpatialVariantMixture SpatialVariantGaussianMixtureDiffusionKernel

fun kernel_nu :: "kernel \<Rightarrow> real \<Rightarrow> row \<Rightarrow> real list \<Rightarrow> points \<Rightarrow> py_error + real list" where
  "kernel_nu (StdDiffusion k) t s his_t his_s = StdDiffusionKernel_nu k t s his_t his_s"
| "kernel_nu (GaussianDiffusion k) t s his_t his_s = GaussianDiffusionKernel_nu k t s his_t his_s"
| "kernel_nu (GaussianMixture m) t s his_t his_s = GaussianMixtureDiffusionKernel_nu m t s his_t his_s"
| "kernel_nu (SpatialVariant k) t s his_t his_s = SpatialVariantGaussianDiffusionKernel_nu k t s his_t his_s"
| "kernel_nu (SpatialVariantMixture m) t s his_t his_s =
     SpatialVariantGaussianMixtureDiffusionKernel_nu m t s his_t his_s"

text \<open>
  The number of Gaussian components a kernel evaluates: one for the plain kernels,
  \<open>n_comp\<close> for the mixtures (whose loop runs \<open>range(self.n_comp)\<close>).
\<close>

fun kernel_components :: "kernel \<Rightarrow> nat" where
  "kernel_components (GaussianMixture m) = nat (gm_n_comp m)"
| "kernel_components (SpatialVariantMixture m) = nat (svm_n_comp m)"
| "kernel_components k = 1"

section \<open>Valid parameters\<close>

text \<open>
  What the spec asks of a kernel's parameters (amplitude \<open>C \<ge> 0\<close>, spreads \<open>> 0\<close>,
  \<open>|rho| < 1\<close>, mixture weights \<open>\<ge> 0\<close> and one per component). None of it is checked by
  the constructors of \<^verbatim>\<open>src/stppg.py\<close>.
\<close>

definition std_ok :: "StdDiffusionKernel \<Rightarrow> bool" where
  "std_ok k \<longleftrightarrow> 0 \<le> sd_C k \<and> 0 < sd_sigma_x k \<and> 0 < sd_sigma_y k"

definition gauss_ok :: "GaussianDiffusionKernel \<Rightarrow> bool" where
  "gauss_ok k \<longleftrightarrow> 0 \<le> gd_C k \<and> 0 < gd_sigma_x k \<and> 0 < gd_sigma_y k \<and> \<bar>gd_rho k\<bar> < 1"

definition sv_ok :: "SpatialVariantGaussianDiffusionKernel \<Rightarrow> bool" where
  "sv_ok k \<longleftrightarrow> 0 \<le> sv_C k \<and>
     (\<forall>x y. 0 < sv_sigma_x k x y \<and> 0 < sv_sigma_y k x y \<and> \<bar>sv_rho k x y\<bar> < 1)"

definition weights_ok :: "real list \<Rightarrow> int \<Rightarrow> nat \<Rightarrow> bool" where
  "weights_ok w n_comp n_gdks \<longleftrightarrow>
     nat n_comp \<le> length w \<and> n_gdks = nat n_comp \<and> list_all (\<lambda>v. 0 \<le> v) w"

fun kernel_valid :: "kernel \<Rightarrow> bool" where
  "kernel_valid (StdDiffusion k) = std_ok k"
| "kernel_valid (GaussianDiffusion k) = gauss_ok k"
| "kernel_valid (GaussianMixture m) =
     (weights_ok (gm_w m) (gm_n_comp m) (length (gm_gdks m)) \<and> list_all gauss_ok (gm_gdks m))"
| "kernel_valid (SpatialVariant k) = sv_ok k"
| "kernel_valid (SpatialVariantMixture m) =
     (weights_ok (svm_w m) (svm_n_comp m) (length (svm_gdks m)) \<and> list_all sv_ok (svm_gdks m))"

declare StdDiffusionKernel_val_def [kernel_defs] GaussianDiffusionKernel_val_def [kernel_defs]
  SpatialVariantGaussianDiffusionKernel_val_def [kernel_defs]


section \<open>Properties of the kernels\<close>

subsection \<open>The bivariate diffusion formula\<close>

lemma quad_form_nonneg:
  fixes a b rho :: real
  assumes "\<bar>rho\<bar> \<le> 1"
  shows "0 \<le> a\<^sup>2 + b\<^sup>2 - 2 * rho * a * b"
proof -
  have "2 * rho * a * b \<le> 2 * \<bar>a\<bar> * \<bar>b\<bar>"
  proof -
    have "rho * (a * b) \<le> \<bar>rho\<bar> * \<bar>a * b\<bar>" by (metis abs_ge_self abs_mult)
    also have "\<dots> \<le> \<bar>a * b\<bar>" using assms by (simp add: mult_left_le_one_le)
    finally show ?thesis by (simp add: abs_mult algebra_simps)
  qed
  moreover have "2 * \<bar>a\<bar> * \<bar>b\<bar> \<le> a\<^sup>2 + b\<^sup>2"
    using sum_squares_bound[of "\<bar>a\<bar>" "\<bar>b\<bar>"] by (simp add: power2_abs)
  ultimately show ?thesis by linarith
qed

lemma sqrt_one_minus_sq_pos: "\<bar>rho::real\<bar> < 1 \<Longrightarrow> 0 < sqrt (1 - rho\<^sup>2)"
  by (simp add: abs_square_less_1)

lemma gauss_prefactor_nonneg:
  assumes "gauss_ok k" "0 < dt"
  shows "0 \<le> gd_C k / (2 * pi * gd_sigma_x k * gd_sigma_y k * dt * sqrt (1 - (gd_rho k)\<^sup>2))"
  using assms sqrt_one_minus_sq_pos[of "gd_rho k"] by (simp add: gauss_ok_def)

lemma GaussianDiffusionKernel_val_nonneg:
  assumes "gauss_ok k" "0 < dt"
  shows "0 \<le> GaussianDiffusionKernel_val k dt dx dy"
  unfolding GaussianDiffusionKernel_val_def
  by (intro mult_nonneg_nonneg gauss_prefactor_nonneg[OF assms] exp_ge_zero)

text \<open>
  The anisotropic Gaussian kernel never exceeds its peak
  \<open>C e^{-beta dt} / (2 pi sigma_x sigma_y dt sqrt(1 - rho^2))\<close>: the quadratic form in its
  exponent is non-negative whenever \<open>|rho| < 1\<close>.
\<close>

lemma GaussianDiffusionKernel_val_le_peak:
  assumes "gauss_ok k" "0 < dt"
  shows "GaussianDiffusionKernel_val k dt dx dy \<le>
    exp (- gd_beta k * dt) * (gd_C k / (2 * pi * gd_sigma_x k * gd_sigma_y k * dt * sqrt (1 - (gd_rho k)\<^sup>2)))"
proof -
  let ?a = "(dx - gd_mu_x k) / gd_sigma_x k" and ?b = "(dy - gd_mu_y k) / gd_sigma_y k"
  let ?Q = "(dx - gd_mu_x k)\<^sup>2 / (gd_sigma_x k)\<^sup>2 + (dy - gd_mu_y k)\<^sup>2 / (gd_sigma_y k)\<^sup>2 -
           2 * gd_rho k * (dx - gd_mu_x k) * (dy - gd_mu_y k) / (gd_sigma_x k * gd_sigma_y k)"
  have "?Q = ?a\<^sup>2 + ?b\<^sup>2 - 2 * gd_rho k * ?a * ?b"
    by (simp add: power_divide)
  moreover have "0 \<le> ?a\<^sup>2 + ?b\<^sup>2 - 2 * gd_rho k * ?a * ?b"
    using assms(1) by (intro quad_form_nonneg) (simp add: gauss_ok_def)
  ultimately have Q: "0 \<le> ?Q" by (simp only:)
  have "0 < 1 - (gd_rho k)\<^sup>2" using assms(1) by (simp add: gauss_ok_def abs_square_less_1)
  then have "(- 1 / (2 * dt * (1 - (gd_rho k)\<^sup>2))) * ?Q \<le> 0"
    using Q assms(2) by (simp add: mult_nonpos_nonneg)
  then have e: "exp ((- 1 / (2 * dt * (1 - (gd_rho k)\<^sup>2))) * ?Q) \<le> 1" by simp
  have P: "0 \<le> exp (- gd_beta k * dt) *
     (gd_C k / (2 * pi * gd_sigma_x k * gd_sigma_y k * dt * sqrt (1 - (gd_rho k)\<^sup>2)))"
    by (intro mult_nonneg_nonneg exp_ge_zero gauss_prefactor_nonneg[OF assms])
  show ?thesis
    unfolding GaussianDiffusionKernel_val_def by (rule mult_left_le[OF e P])
qed

text \<open>
  Near its triggering event the kernel has no bound: with \<open>C > 0\<close>, at the mean offset
  \<open>(mu_x, mu_y)\<close>, its value grows like \<open>1 / dt\<close> as \<open>dt \<rightarrow> 0\<^sup>+\<close>, and exceeds every \<open>M\<close>.
\<close>

lemma GaussianDiffusionKernel_val_unbounded:
  assumes "gauss_ok k" and "0 < gd_C k"
  shows "\<exists>dt. 0 < dt \<and> M < GaussianDiffusionKernel_val k dt (gd_mu_x k) (gd_mu_y k)"
proof -
  define A where "A = gd_C k / (2 * pi * gd_sigma_x k * gd_sigma_y k * sqrt (1 - (gd_rho k)\<^sup>2))"
  define E where "E = exp (- \<bar>gd_beta k\<bar>)"
  define c where "c = \<bar>M\<bar> + 1"
  have A: "0 < A" unfolding A_def using assms sqrt_one_minus_sq_pos[of "gd_rho k"] by (simp add: gauss_ok_def)
  have c: "0 < c" by (simp add: c_def)
  have EA: "0 < E * A" unfolding E_def by (rule mult_pos_pos[OF exp_gt_zero A])
  define dt where "dt = min 1 (E * A / c)"
  have dt0: "0 < dt" using EA c by (simp add: dt_def)
  have dt1: "dt \<le> 1" by (simp add: dt_def)
  have val: "GaussianDiffusionKernel_val k dt (gd_mu_x k) (gd_mu_y k) = exp (- gd_beta k * dt) * (A / dt)"
    by (simp add: GaussianDiffusionKernel_val_def A_def)
  have "- \<bar>gd_beta k\<bar> \<le> - gd_beta k * dt"
  proof -
    have "gd_beta k * dt \<le> \<bar>gd_beta k\<bar> * dt" using dt0 by (simp add: mult_right_mono)
    also have "\<dots> \<le> \<bar>gd_beta k\<bar>" using dt1 by (simp add: mult_left_le)
    finally show ?thesis by simp
  qed
  then have E: "E \<le> exp (- gd_beta k * dt)" by (simp add: E_def)
  have "dt \<le> E * A / c" unfolding dt_def by (rule min.cobounded2)
  then have "c * dt \<le> E * A" using c by (simp add: pos_le_divide_eq mult.commute)
  then have big: "c \<le> E * (A / dt)" using dt0 by (simp add: pos_le_divide_eq)
  have "E * (A / dt) \<le> exp (- gd_beta k * dt) * (A / dt)"
    using E A dt0 by (intro mult_right_mono) simp_all
  with big val have "c \<le> GaussianDiffusionKernel_val k dt (gd_mu_x k) (gd_mu_y k)" by simp
  with dt0 show ?thesis by (intro exI[of _ dt]) (simp add: c_def)
qed

lemma Std_as_Gaussian:
  "StdDiffusionKernel_val k dt dx dy =
   GaussianDiffusionKernel_val (GaussianDiffusionKernel_init 0 0 (sd_sigma_x k) (sd_sigma_y k) 0 (sd_beta k) (sd_C k)) dt dx dy"
  by (simp add: StdDiffusionKernel_val_def GaussianDiffusionKernel_val_def GaussianDiffusionKernel_init_def)

lemma SpatialVariant_as_Gaussian:
  "SpatialVariantGaussianDiffusionKernel_val k hx hy dt dx dy =
   GaussianDiffusionKernel_val (GaussianDiffusionKernel_init (sv_mu_x k hx hy) (sv_mu_y k hx hy)
     (sv_sigma_x k hx hy) (sv_sigma_y k hx hy) (sv_rho k hx hy) (sv_beta k) (sv_C k)) dt dx dy"
  by (simp add: SpatialVariantGaussianDiffusionKernel_val_def GaussianDiffusionKernel_val_def
                GaussianDiffusionKernel_init_def Let_def)


subsection \<open>Vectorised evaluation and the mixture loop\<close>

lemma length_pairwise_nu [simp]:
  "length (pairwise_nu f t s his_t his_s) = min (length his_t) (length his_s)"
  by (simp add: pairwise_nu_def)

lemma nth_pairwise_nu:
  "j < length his_t \<Longrightarrow> j < length his_s \<Longrightarrow>
   pairwise_nu f t s his_t his_s ! j =
     f (t - his_t ! j) (s ! 0 - his_s ! j ! 0) (s ! 1 - his_s ! j ! 1) (his_s ! j)"
  by (simp add: pairwise_nu_def)

lemma pairwise_nu_nonneg [nonneg_intros]:
  assumes "\<forall>ht\<in>set his_t. ht < t"
    and "\<And>dt dx dy hs. 0 < dt \<Longrightarrow> 0 \<le> f dt dx dy hs"
  shows "\<forall>v\<in>set (pairwise_nu f t s his_t his_s). 0 \<le> v"
  using assms by (auto simp: pairwise_nu_def elim!: in_set_zipE)

lemma pairwise_nu_sum_le:
  assumes "length his_s = length his_t"
    and "\<And>ht hs. ht \<in> set his_t \<Longrightarrow> f (t - ht) (s ! 0 - hs ! 0) (s ! 1 - hs ! 1) hs \<le> g ht"
  shows "sum_list (pairwise_nu f t s his_t his_s) \<le> (\<Sum>ht\<leftarrow>his_t. g ht)"
proof -
  have "sum_list (pairwise_nu f t s his_t his_s) \<le> (\<Sum>(ht, hs)\<leftarrow>zip his_t his_s. g ht)"
    unfolding pairwise_nu_def
  proof (rule sum_list_mono)
    fix x assume x_in: "x \<in> set (zip his_t his_s)"
    obtain ht hs where x: "x = (ht, hs)" by (cases x)
    with x_in have "ht \<in> set his_t" by (auto dest: set_zip_leftD)
    with x assms(2)[of ht hs] show "(case x of (ht, hs) \<Rightarrow> f (t - ht) (s ! 0 - hs ! 0) (s ! 1 - hs ! 1) hs) \<le>
      (case x of (ht, hs) \<Rightarrow> g ht)" by simp
  qed
  also have "\<dots> = (\<Sum>ht\<leftarrow>his_t. g ht)"
    using assms(1) by (simp add: map2_fst)
  finally show ?thesis .
qed

lemma mixture_loop_Inr_iff:
  "(\<exists>v. mixture_loop nu_k w gdks ks acc = Inr v) \<longleftrightarrow>
   list_all (\<lambda>k. k < length w \<and> k < length gdks \<and> (\<exists>u. nu_k (gdks ! k) = Inr u)) ks"
proof (induction ks arbitrary: acc)
  case Nil
  then show ?case by simp
next
  case (Cons k ks)
  then show ?case by (cases "nu_k (gdks ! k)") auto
qed

lemma mixture_loop_error:
  "mixture_loop nu_k w gdks ks acc = Inl e \<Longrightarrow> \<forall>c e'. nu_k c = Inl e' \<longrightarrow> e' = IndexError \<Longrightarrow>
   e = IndexError"
  by (induction ks arbitrary: acc) (auto split: if_splits sum.splits)

lemma mixture_loop_Inl_first:
  "\<forall>c. nu_k c = Inl e \<Longrightarrow> \<exists>e'. mixture_loop nu_k w gdks (k # ks) acc = Inl e'"
  by simp

lemma mixture_loop_sum:
  assumes "mixture_loop (\<lambda>c. Inr (F c)) w gdks ks acc = Inr v"
    and "\<forall>k\<in>set ks. length (F (gdks ! k)) = length acc"
  shows "length v = length acc \<and>
         (\<forall>j<length acc. v ! j = acc ! j + (\<Sum>k\<leftarrow>ks. w ! k * F (gdks ! k) ! j))"
  using assms
proof (induction ks arbitrary: acc)
  case Nil
  then show ?case by simp
next
  case (Cons k ks)
  let ?acc' = "vec_add acc (vec_scale (w ! k) (F (gdks ! k)))"
  from Cons.prems have step: "mixture_loop (\<lambda>c. Inr (F c)) w gdks ks ?acc' = Inr v"
    by (simp split: if_splits)
  from Cons.prems have len: "length ?acc' = length acc" by simp
  with Cons.prems have "\<forall>k\<in>set ks. length (F (gdks ! k)) = length ?acc'" by simp
  from Cons.IH[OF step this] len Cons.prems(2) show ?case
    by (simp add: nth_vec_add nth_vec_scale algebra_simps)
qed

lemma mixture_loop_nonneg:
  assumes "mixture_loop nu_k w gdks ks acc = Inr v"
    and "\<forall>x\<in>set acc. 0 \<le> x" and "list_all (\<lambda>x. 0 \<le> x) w"
    and "\<forall>c\<in>set gdks. \<forall>u. nu_k c = Inr u \<longrightarrow> (\<forall>x\<in>set u. 0 \<le> x)"
  shows "\<forall>x\<in>set v. 0 \<le> x"
  using assms
proof (induction ks arbitrary: acc)
  case Nil
  then show ?case by simp
next
  case (Cons k ks)
  from Cons.prems(1) have k: "k < length w" "k < length gdks" by (auto split: if_splits)
  from Cons.prems(1) k obtain u where u: "nu_k (gdks ! k) = Inr u" by (cases "nu_k (gdks ! k)") auto
  from k Cons.prems(3) have "0 \<le> w ! k" by (auto simp: list_all_length)
  from k have "gdks ! k \<in> set gdks" by simp
  with u Cons.prems(4) have "\<forall>x\<in>set u. 0 \<le> x" by blast
  let ?acc' = "vec_add acc (vec_scale (w ! k) u)"
  from Cons.prems(2) \<open>0 \<le> w ! k\<close> \<open>\<forall>x\<in>set u. 0 \<le> x\<close>
  have acc': "\<forall>x\<in>set ?acc'. 0 \<le> x" by (intro nonneg_intros)
  from Cons.prems(1) k u have "mixture_loop nu_k w gdks ks ?acc' = Inr v" by simp
  from Cons.IH[OF this acc' Cons.prems(3,4)] show ?case .
qed


subsection \<open>Valid kernels: totality and non-negativity\<close>

lemma std_ok_gauss_ok:
  "std_ok k \<Longrightarrow> gauss_ok (GaussianDiffusionKernel_init 0 0 (sd_sigma_x k) (sd_sigma_y k) 0 (sd_beta k) (sd_C k))"
  by (simp add: std_ok_def gauss_ok_def GaussianDiffusionKernel_init_def)

lemma sv_ok_gauss_ok:
  "sv_ok k \<Longrightarrow> gauss_ok (GaussianDiffusionKernel_init (sv_mu_x k hx hy) (sv_mu_y k hx hy)
     (sv_sigma_x k hx hy) (sv_sigma_y k hx hy) (sv_rho k hx hy) (sv_beta k) (sv_C k))"
  by (simp add: sv_ok_def gauss_ok_def GaussianDiffusionKernel_init_def)

lemma pairwise_nu_Inr_nonneg:
  assumes "(if length s < 2 then Inl IndexError else Inr (pairwise_nu f t s his_t his_s)) = Inr v"
    and "\<forall>ht\<in>set his_t. ht < t" and "\<And>dt dx dy hs. 0 < dt \<Longrightarrow> 0 \<le> f dt dx dy hs"
  shows "\<forall>x\<in>set v. 0 \<le> x"
proof -
  from assms(1) have "v = pairwise_nu f t s his_t his_s" by (simp split: if_splits)
  with pairwise_nu_nonneg[OF assms(2,3)] show ?thesis by simp
qed

lemma StdDiffusionKernel_nu_nonneg:
  "std_ok k \<Longrightarrow> \<forall>ht\<in>set his_t. ht < t \<Longrightarrow> StdDiffusionKernel_nu k t s his_t his_s = Inr v \<Longrightarrow>
   \<forall>x\<in>set v. 0 \<le> x"
  unfolding StdDiffusionKernel_nu_def Std_as_Gaussian
  by (erule pairwise_nu_Inr_nonneg, assumption, rule GaussianDiffusionKernel_val_nonneg[OF std_ok_gauss_ok])

lemma GaussianDiffusionKernel_nu_nonneg:
  "gauss_ok k \<Longrightarrow> \<forall>ht\<in>set his_t. ht < t \<Longrightarrow> GaussianDiffusionKernel_nu k t s his_t his_s = Inr v \<Longrightarrow>
   \<forall>x\<in>set v. 0 \<le> x"
  unfolding GaussianDiffusionKernel_nu_def
  by (erule pairwise_nu_Inr_nonneg, assumption, rule GaussianDiffusionKernel_val_nonneg)

lemma SpatialVariantGaussianDiffusionKernel_nu_nonneg:
  "sv_ok k \<Longrightarrow> \<forall>ht\<in>set his_t. ht < t \<Longrightarrow> SpatialVariantGaussianDiffusionKernel_nu k t s his_t his_s = Inr v \<Longrightarrow>
   \<forall>x\<in>set v. 0 \<le> x"
  unfolding SpatialVariantGaussianDiffusionKernel_nu_def SpatialVariant_as_Gaussian
  by (erule pairwise_nu_Inr_nonneg, assumption, rule GaussianDiffusionKernel_val_nonneg[OF sv_ok_gauss_ok])

lemma weights_ok_indices:
  "weights_ok w n_comp (length gdks) \<Longrightarrow>
   list_all (\<lambda>k. k < length w \<and> k < length gdks) [0..<nat n_comp]"
  by (auto simp: weights_ok_def list_all_iff)

lemma kernel_nu_total: "kernel_valid k \<Longrightarrow> 2 \<le> length s \<Longrightarrow> \<exists>v. kernel_nu k t s his_t his_s = Inr v"
  by (cases k) (auto simp: GaussianMixtureDiffusionKernel_nu_def SpatialVariantGaussianMixtureDiffusionKernel_nu_def
      StdDiffusionKernel_nu_def GaussianDiffusionKernel_nu_def SpatialVariantGaussianDiffusionKernel_nu_def
      mixture_loop_Inr_iff weights_ok_def list_all_iff)

lemma kernel_nu_error: "kernel_nu k t s his_t his_s = Inl e \<Longrightarrow> e = IndexError"
  by (cases k) (auto simp: GaussianMixtureDiffusionKernel_nu_def SpatialVariantGaussianMixtureDiffusionKernel_nu_def
      StdDiffusionKernel_nu_def GaussianDiffusionKernel_nu_def SpatialVariantGaussianDiffusionKernel_nu_def
      split: if_splits elim!: mixture_loop_error)

lemma kernel_nu_nonneg:
  assumes "kernel_valid k" and "\<forall>ht\<in>set his_t. ht < t" and "kernel_nu k t s his_t his_s = Inr v"
  shows "\<forall>x\<in>set v. 0 \<le> x"
proof (cases k)
  case (StdDiffusion k')
  with assms show ?thesis using StdDiffusionKernel_nu_nonneg by auto
next
  case (GaussianDiffusion k')
  with assms show ?thesis using GaussianDiffusionKernel_nu_nonneg by auto
next
  case (GaussianMixture m)
  from assms(3) GaussianMixture have loop:
    "mixture_loop (\<lambda>g. GaussianDiffusionKernel_nu g t s his_t his_s) (gm_w m) (gm_gdks m)
       [0..<nat (gm_n_comp m)] (replicate (length his_t) 0) = Inr v"
    by (simp add: GaussianMixtureDiffusionKernel_nu_def)
  from assms(1,2) GaussianMixture
  have w_ok: "list_all (\<lambda>x. 0 \<le> x) (gm_w m)" and comps: "list_all gauss_ok (gm_gdks m)"
    by (auto simp: weights_ok_def)
  have comps_nonneg: "\<forall>c\<in>set (gm_gdks m). \<forall>u. GaussianDiffusionKernel_nu c t s his_t his_s = Inr u \<longrightarrow> (\<forall>x\<in>set u. 0 \<le> x)"
    using comps GaussianDiffusionKernel_nu_nonneg[OF _ assms(2)] by (auto simp: list_all_iff)
  show ?thesis by (rule mixture_loop_nonneg[OF loop nonneg_replicate_zero w_ok comps_nonneg])
next
  case (SpatialVariant k')
  with assms show ?thesis using SpatialVariantGaussianDiffusionKernel_nu_nonneg by auto
next
  case (SpatialVariantMixture m)
  from assms(3) SpatialVariantMixture have loop:
    "mixture_loop (\<lambda>g. SpatialVariantGaussianDiffusionKernel_nu g t s his_t his_s) (svm_w m) (svm_gdks m)
       [0..<nat (svm_n_comp m)] (replicate (length his_t) 0) = Inr v"
    by (simp add: SpatialVariantGaussianMixtureDiffusionKernel_nu_def)
  from assms(1,2) SpatialVariantMixture
  have w_ok: "list_all (\<lambda>x. 0 \<le> x) (svm_w m)" and comps: "list_all sv_ok (svm_gdks m)"
    by (auto simp: weights_ok_def)
  have comps_nonneg: "\<forall>c\<in>set (svm_gdks m). \<forall>u. SpatialVariantGaussianDiffusionKernel_nu c t s his_t his_s = Inr u \<longrightarrow>
      (\<forall>x\<in>set u. 0 \<le> x)"
    using comps SpatialVariantGaussianDiffusionKernel_nu_nonneg[OF _ assms(2)] by (auto simp: list_all_iff)
  show ?thesis by (rule mixture_loop_nonneg[OF loop nonneg_replicate_zero w_ok comps_nonneg])
qed

lemma Gaussian_components_Inr:
  "\<not> length s < 2 \<Longrightarrow>
   (\<lambda>g. GaussianDiffusionKernel_nu g t s his_t his_s) =
   (\<lambda>g. Inr (pairwise_nu (\<lambda>dt dx dy hs. GaussianDiffusionKernel_val g dt dx dy) t s his_t his_s))"
  by (simp add: GaussianDiffusionKernel_nu_def)

text \<open>
  C25: additivity of the mixture: each entry of \<open>GaussianMixtureDiffusionKernel.nu\<close> is
  \<open>\<Sum>k < n_comp. w[k] * gdks[k].nu(...)\<close>, the components' Gaussian formula weighted.
\<close>

theorem GaussianMixtureDiffusionKernel_nu_additive:
  assumes "GaussianMixtureDiffusionKernel_nu m t s his_t his_s = Inr v" and "length his_s = length his_t"
  shows "length v = length his_t \<and>
    (\<forall>j<length his_t. v ! j =
       (\<Sum>k\<leftarrow>[0..<nat (gm_n_comp m)]. gm_w m ! k *
          GaussianDiffusionKernel_val (gm_gdks m ! k) (t - his_t ! j) (s ! 0 - his_s ! j ! 0) (s ! 1 - his_s ! j ! 1)))"
proof (cases "length s < 2")
  case True
  have "nat (gm_n_comp m) = 0"
  proof (rule ccontr)
    assume "nat (gm_n_comp m) \<noteq> 0"
    then have "[0..<nat (gm_n_comp m)] = 0 # [1..<nat (gm_n_comp m)]" by (simp add: upt_rec)
    with assms(1) True show False
      by (simp add: GaussianMixtureDiffusionKernel_nu_def GaussianDiffusionKernel_nu_def split: if_splits)
  qed
  with assms(1) have "v = replicate (length his_t) 0" by (simp add: GaussianMixtureDiffusionKernel_nu_def)
  with \<open>nat (gm_n_comp m) = 0\<close> show ?thesis by simp
next
  case False
  from assms(1) False have "mixture_loop (\<lambda>g. Inr (pairwise_nu (\<lambda>dt dx dy hs. GaussianDiffusionKernel_val g dt dx dy) t s his_t his_s))
      (gm_w m) (gm_gdks m) [0..<nat (gm_n_comp m)] (replicate (length his_t) 0) = Inr v"
    by (simp add: GaussianMixtureDiffusionKernel_nu_def Gaussian_components_Inr)
  from mixture_loop_sum[OF this] assms(2) show ?thesis by (simp add: nth_pairwise_nu)
qed

text \<open>
  A mixture of one component with weight 1 is that component's Gaussian kernel.
\<close>

lemma GaussianMixture_single:
  "length his_s = length his_t \<Longrightarrow>
   GaussianMixtureDiffusionKernel_nu \<lparr>gm_gdks = [g], gm_n_comp = 1, gm_w = [1]\<rparr> t s his_t his_s =
   GaussianDiffusionKernel_nu g t s his_t his_s"
  by (simp add: GaussianMixtureDiffusionKernel_nu_def GaussianDiffusionKernel_nu_def)

text \<open>
  C26: with constant parameter functions, the spatially varying kernel is the plain
  Gaussian diffusion kernel with those constants (the spec's degeneracy law).
\<close>

theorem SpatialVariant_constant:
  "SpatialVariantGaussianDiffusionKernel_nu
     (SpatialVariantGaussianDiffusionKernel_init (\<lambda>_ _. mu_x) (\<lambda>_ _. mu_y) (\<lambda>_ _. sigma_x) (\<lambda>_ _. sigma_y)
        (\<lambda>_ _. rho) beta C) =
   GaussianDiffusionKernel_nu (GaussianDiffusionKernel_init mu_x mu_y sigma_x sigma_y rho beta C)"
  by (intro ext) (simp add: SpatialVariantGaussianDiffusionKernel_nu_def GaussianDiffusionKernel_nu_def
      SpatialVariant_as_Gaussian SpatialVariantGaussianDiffusionKernel_init_def)

text \<open>
  C27: given valid per-component parameters and enough non-negative weights, the mixture
  constructor establishes the kernel invariant \<open>kernel_valid\<close>.
\<close>

theorem GaussianMixtureDiffusionKernel_init_valid:
  assumes "GaussianMixtureDiffusionKernel_init n_comp w mu_x mu_y sigma_x sigma_y rho beta C = Inr m"
    and "0 \<le> C" and "\<forall>v\<in>set sigma_x. 0 < v" and "\<forall>v\<in>set sigma_y. 0 < v" and "\<forall>r\<in>set rho. \<bar>r\<bar> < 1"
    and "nat n_comp \<le> length w" and "\<forall>v\<in>set w. 0 \<le> v"
  shows "kernel_valid (GaussianMixture m)"
  using assms
  by (auto simp: GaussianMixtureDiffusionKernel_init_def weights_ok_def gauss_ok_def
      GaussianDiffusionKernel_init_def list_all_iff split: if_splits)

text \<open>
  The constructor does not validate: a correlation \<open>rho = 2\<close> (outside \<open>(-1, 1)\<close>) is
  accepted and yields an invalid kernel instead of a configuration error.
\<close>

lemma GaussianMixture_init_unchecked:
  "\<exists>m. GaussianMixtureDiffusionKernel_init 1 [1] [0] [0] [1] [1] [2] 1 1 = Inr m \<and>
       \<not> kernel_valid (GaussianMixture m)"
  by (simp add: GaussianMixtureDiffusionKernel_init_def gauss_ok_def GaussianDiffusionKernel_init_def)

text \<open>
  C22: every kernel variant with valid parameters evaluates without error, to
  non-negative contributions, at a location with two coordinates when every history
  event is strictly earlier than \<open>t\<close>.
\<close>

theorem kernel_nu_valid_nonneg:
  assumes "kernel_valid k" and "\<forall>ht\<in>set his_t. ht < t" and "2 \<le> length s"
  shows "\<exists>v. kernel_nu k t s his_t his_s = Inr v \<and> (\<forall>x\<in>set v. 0 \<le> x)"
proof -
  obtain v where v: "kernel_nu k t s his_t his_s = Inr v"
    using kernel_nu_total[OF assms(1,3)] by blast
  with kernel_nu_nonneg[OF assms(1,2) v] show ?thesis by blast
qed

text \<open>
  C24: \<open>StdDiffusionKernel.nu\<close> is \<open>GaussianDiffusionKernel.nu\<close> with zero mean offsets and
  zero correlation, on every input.
\<close>

theorem StdDiffusionKernel_nu_as_Gaussian:
  "StdDiffusionKernel_nu k =
   GaussianDiffusionKernel_nu (GaussianDiffusionKernel_init 0 0 (sd_sigma_x k) (sd_sigma_y k) 0 (sd_beta k) (sd_C k))"
  by (intro ext) (simp add: StdDiffusionKernel_nu_def GaussianDiffusionKernel_nu_def Std_as_Gaussian)

text \<open>
  C28: the mixture's weights are not checked against \<open>n_comp\<close> at construction: a weight
  list shorter than \<open>n_comp\<close> makes every later call of \<open>nu\<close> raise \<open>IndexError\<close>.
\<close>

theorem GaussianMixtureDiffusionKernel_nu_IndexError:
  assumes "length (gm_w m) < nat (gm_n_comp m)"
  shows "GaussianMixtureDiffusionKernel_nu m t s his_t his_s = Inl IndexError"
proof -
  have "\<not> list_all (\<lambda>k. k < length (gm_w m) \<and> k < length (gm_gdks m) \<and>
      (\<exists>u. GaussianDiffusionKernel_nu (gm_gdks m ! k) t s his_t his_s = Inr u)) [0..<nat (gm_n_comp m)]"
  proof
    assume all: "list_all (\<lambda>k. k < length (gm_w m) \<and> k < length (gm_gdks m) \<and>
      (\<exists>u. GaussianDiffusionKernel_nu (gm_gdks m ! k) t s his_t his_s = Inr u)) [0..<nat (gm_n_comp m)]"
    from assms have "length (gm_w m) \<in> set [0..<nat (gm_n_comp m)]" by simp
    with all have "length (gm_w m) < length (gm_w m)" unfolding list_all_iff by blast
    then show False by simp
  qed
  then obtain e where e: "GaussianMixtureDiffusionKernel_nu m t s his_t his_s = Inl e"
  proof (cases "GaussianMixtureDiffusionKernel_nu m t s his_t his_s")
    case (Inr v)
    then have "\<exists>v. mixture_loop (\<lambda>g. GaussianDiffusionKernel_nu g t s his_t his_s) (gm_w m) (gm_gdks m)
        [0..<nat (gm_n_comp m)] (replicate (length his_t) 0) = Inr v"
      by (simp add: GaussianMixtureDiffusionKernel_nu_def)
    with \<open>\<not> list_all _ _\<close> show ?thesis by (simp only: mixture_loop_Inr_iff)
  qed
  have "\<forall>c e'. GaussianDiffusionKernel_nu c t s his_t his_s = Inl e' \<longrightarrow> e' = IndexError"
    by (simp add: GaussianDiffusionKernel_nu_def)
  with e mixture_loop_error show ?thesis
    unfolding GaussianMixtureDiffusionKernel_nu_def by blast
qed

text \<open>
  A location with fewer than two coordinates (a region of dimension 0 or 1) makes
  every kernel that evaluates a Gaussian component raise \<open>IndexError\<close> at
  \<open>delta_s[:, 1]\<close>, valid parameters or not; only a mixture with no component returns.
\<close>

lemma kernel_nu_short_location:
  assumes "length s < 2" and "0 < kernel_components k"
  shows "kernel_nu k t s his_t his_s = Inl IndexError"
proof (cases k)
  case (GaussianMixture m)
  with assms(2) have "[0..<nat (gm_n_comp m)] = 0 # [1..<nat (gm_n_comp m)]" by (simp add: upt_rec)
  with GaussianMixture assms(1) show ?thesis
    by (simp add: GaussianMixtureDiffusionKernel_nu_def GaussianDiffusionKernel_nu_def)
next
  case (SpatialVariantMixture m)
  with assms(2) have "[0..<nat (svm_n_comp m)] = 0 # [1..<nat (svm_n_comp m)]" by (simp add: upt_rec)
  with SpatialVariantMixture assms(1) show ?thesis
    by (simp add: SpatialVariantGaussianMixtureDiffusionKernel_nu_def SpatialVariantGaussianDiffusionKernel_nu_def)
qed (use assms(1) in \<open>simp_all add: StdDiffusionKernel_nu_def GaussianDiffusionKernel_nu_def
      SpatialVariantGaussianDiffusionKernel_nu_def\<close>)

subsection \<open>Witnesses at concrete kernels\<close>

lemma gd_unit_ok: "gauss_ok (GaussianDiffusionKernel_init 0 0 1 1 0 1 1)"
  by (simp add: gauss_ok_def GaussianDiffusionKernel_init_def)

theorem kernel_nu_valid_nonneg_witness:
  "kernel_valid (GaussianDiffusion (GaussianDiffusionKernel_init 0 0 1 1 0 1 1)) \<and> (0::real) < 1 \<and>
   2 \<le> length [1/2::real, 1/2] \<and>
   (\<exists>v. kernel_nu (GaussianDiffusion (GaussianDiffusionKernel_init 0 0 1 1 0 1 1)) 1 [1/2, 1/2] [0] [[0, 0]] = Inr v \<and>
        (\<forall>x\<in>set v. 0 \<le> x))"
proof -
  have h1: "kernel_valid (GaussianDiffusion (GaussianDiffusionKernel_init 0 0 1 1 0 1 1))"
    by (simp add: gd_unit_ok)
  have h2: "\<forall>ht\<in>set [0::real]. ht < 1" and h3: "2 \<le> length [1/2::real, 1/2]" by simp_all
  show ?thesis using h1 h3 kernel_nu_valid_nonneg[OF h1 h2 h3] by simp
qed

theorem GaussianMixtureDiffusionKernel_nu_additive_witness:
  "\<exists>v. GaussianMixtureDiffusionKernel_nu \<lparr>gm_gdks = [GaussianDiffusionKernel_init 0 0 1 1 0 1 1], gm_n_comp = 1, gm_w = [2]\<rparr>
        1 [0, 0] [0] [[0, 0]] = Inr v \<and> length [[0::real, 0]] = length [0::real] \<and>
      length v = 1 \<and>
      v ! 0 = 2 * GaussianDiffusionKernel_val (GaussianDiffusionKernel_init 0 0 1 1 0 1 1) 1 0 0"
proof -
  let ?m = "\<lparr>gm_gdks = [GaussianDiffusionKernel_init 0 0 1 1 0 1 1], gm_n_comp = 1, gm_w = [2::real]\<rparr>"
  obtain v where v: "GaussianMixtureDiffusionKernel_nu ?m 1 [0, 0] [0] [[0, 0]] = Inr v"
    by (simp add: GaussianMixtureDiffusionKernel_nu_def GaussianDiffusionKernel_nu_def)
  have l: "length [[0::real, 0]] = length [0::real]" by simp
  from GaussianMixtureDiffusionKernel_nu_additive[OF v l] v l show ?thesis by auto
qed

theorem GaussianMixtureDiffusionKernel_init_valid_witness:
  "GaussianMixtureDiffusionKernel_init 1 [1] [0] [0] [1] [1] [0] 1 1 =
     Inr \<lparr>gm_gdks = [GaussianDiffusionKernel_init 0 0 1 1 0 1 1], gm_n_comp = 1, gm_w = [1]\<rparr> \<and>
   kernel_valid (GaussianMixture \<lparr>gm_gdks = [GaussianDiffusionKernel_init 0 0 1 1 0 1 1], gm_n_comp = 1, gm_w = [1]\<rparr>)"
proof -
  have i: "GaussianMixtureDiffusionKernel_init 1 [1] [0] [0] [1] [1] [0] 1 1 =
     Inr \<lparr>gm_gdks = [GaussianDiffusionKernel_init 0 0 1 1 0 1 1], gm_n_comp = 1, gm_w = [1]\<rparr>"
    by (simp add: GaussianMixtureDiffusionKernel_init_def)
  show ?thesis using i GaussianMixtureDiffusionKernel_init_valid[OF i] by simp
qed

theorem GaussianMixtureDiffusionKernel_nu_IndexError_witness:
  "length (gm_w \<lparr>gm_gdks = [GaussianDiffusionKernel_init 0 0 1 1 0 1 1], gm_n_comp = 1, gm_w = []\<rparr>) <
     nat (gm_n_comp \<lparr>gm_gdks = [GaussianDiffusionKernel_init 0 0 1 1 0 1 1], gm_n_comp = 1, gm_w = []\<rparr>) \<and>
   GaussianMixtureDiffusionKernel_nu \<lparr>gm_gdks = [GaussianDiffusionKernel_init 0 0 1 1 0 1 1], gm_n_comp = 1, gm_w = []\<rparr>
     1 [0, 0] [0] [[0, 0]] = Inl IndexError"
  using GaussianMixtureDiffusionKernel_nu_IndexError[of "\<lparr>gm_gdks = [GaussianDiffusionKernel_init 0 0 1 1 0 1 1], gm_n_comp = 1, gm_w = []\<rparr>"]
  by simp

end
