(* ===== verification/Intensity.thy ===== *)
theory Intensity
  imports Kernels
begin

text \<open>
  The intensity of the Hawkes process, class \<open>HawkesLam\<close> of \<^verbatim>\<open>src/stppg.py\<close>
  (lines 161--186): a background rate \<open>mu\<close>, a kernel and a declared upper bound
  \<open>maximum\<close>. \<open>HawkesLam_value\<close> is the method \<open>value\<close>: the background rate when the
  history is empty, otherwise \<open>mu\<close> plus the sum of the kernel's contributions, with
  the kernel's \<open>IndexError\<close> passed on. \<open>HawkesLam_upper_bound\<close> returns \<open>maximum\<close>
  unchanged; nothing in the class relates it to \<open>value\<close>. The method \<open>__str__\<close> is
  used for logging only and is not modelled.
\<close>

section \<open>Definitions\<close>

record HawkesLam =
  lam_mu :: real
  lam_kernel :: kernel
  lam_maximum :: real

definition HawkesLam_init :: "real \<Rightarrow> kernel \<Rightarrow> real \<Rightarrow> HawkesLam" where
  "HawkesLam_init mu kern maximum = \<lparr>lam_mu = mu, lam_kernel = kern, lam_maximum = maximum\<rparr>"

definition HawkesLam_value :: "HawkesLam \<Rightarrow> real \<Rightarrow> real list \<Rightarrow> row \<Rightarrow> points \<Rightarrow> py_error + real" where
  "HawkesLam_value lam t his_t s his_s =
     (if 0 < length his_t
      then (case kernel_nu (lam_kernel lam) t s his_t his_s of
              Inl e \<Rightarrow> Inl e
            | Inr nu \<Rightarrow> Inr (lam_mu lam + sum_list nu))
      else Inr (lam_mu lam))"

definition HawkesLam_upper_bound :: "HawkesLam \<Rightarrow> real" where
  "HawkesLam_upper_bound lam = lam_maximum lam"

text \<open>\<open>__str__\<close>: the label the thinning loop prints for the intensity.\<close>

definition HawkesLam_str :: "HawkesLam \<Rightarrow> string" where
  "HawkesLam_str lam = ''Hawkes processes''"

section \<open>Properties\<close>

lemma mixture_loop_Nil_acc: "mixture_loop nu_k w gdks ks [] = Inr v \<Longrightarrow> v = []"
  by (induction ks) (auto simp: vec_add_def split: if_splits sum.splits)

lemma kernel_nu_Nil: "kernel_nu k t s [] his_s = Inr v \<Longrightarrow> v = []"
  by (cases k) (auto simp: StdDiffusionKernel_nu_def GaussianDiffusionKernel_nu_def pairwise_nu_def
      SpatialVariantGaussianDiffusionKernel_nu_def GaussianMixtureDiffusionKernel_nu_def
      SpatialVariantGaussianMixtureDiffusionKernel_nu_def split: if_splits dest: mixture_loop_Nil_acc)

lemma HawkesLam_value_Nil [simp]: "HawkesLam_value lam t [] s his_s = Inr (lam_mu lam)"
  by (simp add: HawkesLam_value_def)

lemma HawkesLam_value_Inl:
  "HawkesLam_value lam t his_t s his_s = Inl e \<longleftrightarrow>
   his_t \<noteq> [] \<and> kernel_nu (lam_kernel lam) t s his_t his_s = Inl e"
  by (auto simp: HawkesLam_value_def split: sum.splits)

lemma HawkesLam_value_valid:
  assumes "kernel_valid (lam_kernel lam)" and "\<forall>ht\<in>set his_t. ht < t" and "2 \<le> length s"
  shows "\<exists>v nu. HawkesLam_value lam t his_t s his_s = Inr v \<and> v = lam_mu lam + sum_list nu \<and>
           (\<forall>x\<in>set nu. 0 \<le> x)"
proof -
  obtain nu where nu: "kernel_nu (lam_kernel lam) t s his_t his_s = Inr nu"
    using kernel_nu_total[OF assms(1,3)] by blast
  have nn: "\<forall>x\<in>set nu. 0 \<le> x" by (rule kernel_nu_nonneg[OF assms(1,2) nu])
  show ?thesis
  proof (cases "his_t = []")
    case True
    then show ?thesis by (intro exI[of _ "lam_mu lam"] exI[of _ "[]"]) simp
  next
    case False
    with nu nn show ?thesis by (auto simp: HawkesLam_value_def)
  qed
qed

text \<open>
  The intensity has no upper bound for an exciting Gaussian kernel: one event of the
  history shortly before \<open>t\<close>, at the kernel's mean offset from \<open>s\<close>, lifts \<open>value\<close>
  above any given \<open>M\<close>.
\<close>

lemma HawkesLam_value_unbounded:
  assumes "lam_kernel lam = GaussianDiffusion k" and "gauss_ok k" and "0 < gd_C k" and "2 \<le> length s"
  shows "\<exists>ht hs v. ht < t \<and> length hs = length s \<and> HawkesLam_value lam t [ht] s [hs] = Inr v \<and> M < v"
proof -
  obtain dt where dt: "0 < dt" "M - lam_mu lam < GaussianDiffusionKernel_val k dt (gd_mu_x k) (gd_mu_y k)"
    using GaussianDiffusionKernel_val_unbounded[OF assms(2,3)] by blast
  define hs where "hs = s[0 := s ! 0 - gd_mu_x k, 1 := s ! 1 - gd_mu_y k]"
  have l: "0 < length s" "1 < length s" using assms(4) by linarith+
  have hs: "s ! 0 - hs ! 0 = gd_mu_x k" "s ! 1 - hs ! 1 = gd_mu_y k" "length hs = length s"
    using l by (simp_all add: hs_def nth_list_update)
  have "HawkesLam_value lam t [t - dt] s [hs] = Inr (lam_mu lam + GaussianDiffusionKernel_val k dt (gd_mu_x k) (gd_mu_y k))"
    using assms(1,4) hs by (simp add: HawkesLam_value_def GaussianDiffusionKernel_nu_def pairwise_nu_def)
  moreover have "t - dt < t" "M < lam_mu lam + GaussianDiffusionKernel_val k dt (gd_mu_x k) (gd_mu_y k)"
    using dt by simp_all
  ultimately show ?thesis using hs(3) by blast
qed

text \<open>
  C19: the test \<open>len(his_t) > 0\<close> of \<open>value\<close> only skips work: whenever the kernel
  evaluates, \<open>value\<close> is \<open>mu\<close> plus the sum of its contributions, for an empty history
  (an empty sum) as for any other.
\<close>

theorem HawkesLam_value_sum:
  assumes "kernel_nu (lam_kernel lam) t s his_t his_s = Inr nu"
  shows "HawkesLam_value lam t his_t s his_s = Inr (lam_mu lam + sum_list nu)"
proof (cases "his_t = []")
  case True
  with assms have "nu = []" using kernel_nu_Nil by blast
  with True show ?thesis by simp
next
  case False
  with assms show ?thesis by (simp add: HawkesLam_value_def)
qed

text \<open>
  C20: with a valid kernel, a location with two coordinates and a history strictly
  before \<open>t\<close>, \<open>value\<close> succeeds and is at least the background rate \<open>mu\<close>.
\<close>

theorem HawkesLam_value_ge_mu:
  assumes "kernel_valid (lam_kernel lam)" and "\<forall>ht\<in>set his_t. ht < t" and "2 \<le> length s"
  shows "\<exists>v. HawkesLam_value lam t his_t s his_s = Inr v \<and> lam_mu lam \<le> v"
  using HawkesLam_value_valid[OF assms, of his_s] by (auto intro: sum_list_nonneg_ball)

text \<open>
  C21: for a valid Gaussian diffusion kernel, \<open>value\<close> is at most \<open>mu\<close> plus the sum of
  the kernel's peaks at the history's time lags: a declared \<open>maximum\<close> at least this large
  is never exceeded at that point.
\<close>

theorem HawkesLam_value_le_peaks:
  assumes "lam_kernel lam = GaussianDiffusion k" and "gauss_ok k"
    and "\<forall>ht\<in>set his_t. ht < t" and "length his_s = length his_t" and "2 \<le> length s"
  shows "\<exists>v. HawkesLam_value lam t his_t s his_s = Inr v \<and>
    v \<le> lam_mu lam + (\<Sum>ht\<leftarrow>his_t. exp (- gd_beta k * (t - ht)) *
          (gd_C k / (2 * pi * gd_sigma_x k * gd_sigma_y k * (t - ht) * sqrt (1 - (gd_rho k)\<^sup>2))))"
proof -
  let ?nu = "pairwise_nu (\<lambda>dt dx dy hs. GaussianDiffusionKernel_val k dt dx dy) t s his_t his_s"
  have v: "HawkesLam_value lam t his_t s his_s = Inr (lam_mu lam + sum_list ?nu)"
    using assms(5)
    by (cases his_t) (simp_all add: HawkesLam_value_def assms(1) GaussianDiffusionKernel_nu_def pairwise_nu_def)
  have "sum_list ?nu \<le> (\<Sum>ht\<leftarrow>his_t. exp (- gd_beta k * (t - ht)) *
          (gd_C k / (2 * pi * gd_sigma_x k * gd_sigma_y k * (t - ht) * sqrt (1 - (gd_rho k)\<^sup>2))))"
    using assms(3,4) by (intro pairwise_nu_sum_le GaussianDiffusionKernel_val_le_peak[OF assms(2)]) auto
  with v show ?thesis by auto
qed

text \<open>
  C23: at a location with fewer than two coordinates (a region of dimension 0 or 1),
  \<open>value\<close> returns \<open>mu\<close> while the history is empty and raises \<open>IndexError\<close> as soon
  as it is not, for every kernel with a Gaussian component: the \<open>len(his_t) > 0\<close>
  test is the only thing that lets a one-dimensional process start.
\<close>

theorem HawkesLam_value_short_location:
  assumes "length s < 2" and "0 < kernel_components (lam_kernel lam)"
  shows "HawkesLam_value lam t his_t s his_s = (if his_t = [] then Inr (lam_mu lam) else Inl IndexError)"
  using kernel_nu_short_location[OF assms, of t his_t his_s]
  by (simp add: HawkesLam_value_def)

subsection \<open>Witnesses\<close>

lemma HawkesLam_unit_kernel:
  "lam_kernel (HawkesLam_init 1 (GaussianDiffusion (GaussianDiffusionKernel_init 0 0 1 1 0 1 1)) 10) = GaussianDiffusion (GaussianDiffusionKernel_init 0 0 1 1 0 1 1)" "lam_mu (HawkesLam_init 1 (GaussianDiffusion (GaussianDiffusionKernel_init 0 0 1 1 0 1 1)) 10) = 1"
  by (simp_all add: HawkesLam_init_def)

theorem HawkesLam_value_sum_witness:
  "kernel_nu (lam_kernel (HawkesLam_init 1 (GaussianDiffusion (GaussianDiffusionKernel_init 0 0 1 1 0 1 1)) 10)) 1 [0, 0] [0] [[0, 0]] = Inr (pairwise_nu (\<lambda>dt dx dy hs. GaussianDiffusionKernel_val (GaussianDiffusionKernel_init 0 0 1 1 0 1 1) dt dx dy) 1 [0, 0] [0] [[0, 0]]) \<and>
   HawkesLam_value (HawkesLam_init 1 (GaussianDiffusion (GaussianDiffusionKernel_init 0 0 1 1 0 1 1)) 10) 1 [0] [0, 0] [[0, 0]] = Inr (1 + sum_list (pairwise_nu (\<lambda>dt dx dy hs. GaussianDiffusionKernel_val (GaussianDiffusionKernel_init 0 0 1 1 0 1 1) dt dx dy) 1 [0, 0] [0] [[0, 0]]))"
proof -
  have h: "kernel_nu (lam_kernel (HawkesLam_init 1 (GaussianDiffusion (GaussianDiffusionKernel_init 0 0 1 1 0 1 1)) 10)) 1 [0, 0] [0] [[0, 0]] = Inr (pairwise_nu (\<lambda>dt dx dy hs. GaussianDiffusionKernel_val (GaussianDiffusionKernel_init 0 0 1 1 0 1 1) dt dx dy) 1 [0, 0] [0] [[0, 0]])"
    by (simp add: HawkesLam_unit_kernel GaussianDiffusionKernel_nu_def)
  from h HawkesLam_value_sum[OF h] show ?thesis by (simp add: HawkesLam_unit_kernel)
qed

theorem HawkesLam_value_ge_mu_witness:
  "kernel_valid (lam_kernel (HawkesLam_init 1 (GaussianDiffusion (GaussianDiffusionKernel_init 0 0 1 1 0 1 1)) 10)) \<and> (0::real) < 1 \<and>
   2 \<le> length [0::real, 0] \<and>
   (\<exists>v. HawkesLam_value (HawkesLam_init 1 (GaussianDiffusion (GaussianDiffusionKernel_init 0 0 1 1 0 1 1)) 10) 1 [0] [0, 0] [[0, 0]] = Inr v \<and> 1 \<le> v)"
proof -
  have h1: "kernel_valid (lam_kernel (HawkesLam_init 1 (GaussianDiffusion (GaussianDiffusionKernel_init 0 0 1 1 0 1 1)) 10))" by (simp add: HawkesLam_unit_kernel gd_unit_ok)
  have h2: "\<forall>ht\<in>set [0::real]. ht < 1" and h3: "2 \<le> length [0::real, 0]" by simp_all
  from h1 HawkesLam_value_ge_mu[OF h1 h2 h3, of "[[0, 0]]"] show ?thesis
    by (simp add: HawkesLam_unit_kernel)
qed

theorem HawkesLam_value_le_peaks_witness:
  "lam_kernel (HawkesLam_init 1 (GaussianDiffusion (GaussianDiffusionKernel_init 0 0 1 1 0 1 1)) 10) = GaussianDiffusion (GaussianDiffusionKernel_init 0 0 1 1 0 1 1) \<and> gauss_ok (GaussianDiffusionKernel_init 0 0 1 1 0 1 1) \<and> (0::real) < 1 \<and> length [[0::real, 0]] = length [0::real] \<and>
   2 \<le> length [0::real, 0] \<and>
   (\<exists>v. HawkesLam_value (HawkesLam_init 1 (GaussianDiffusion (GaussianDiffusionKernel_init 0 0 1 1 0 1 1)) 10) 1 [0] [0, 0] [[0, 0]] = Inr v \<and> v \<le> 1 + exp (- 1) * (1 / (2 * pi)))"
proof -
  have h1: "lam_kernel (HawkesLam_init 1 (GaussianDiffusion (GaussianDiffusionKernel_init 0 0 1 1 0 1 1)) 10) = GaussianDiffusion (GaussianDiffusionKernel_init 0 0 1 1 0 1 1)" by (simp add: HawkesLam_unit_kernel)
  have h3: "\<forall>ht\<in>set [0::real]. ht < 1" by simp
  have h4: "length [[0::real, 0]] = length [0::real]" and h5: "2 \<le> length [0::real, 0]" by simp_all
  from HawkesLam_value_le_peaks[OF h1 gd_unit_ok h3 h4 h5] h1 gd_unit_ok show ?thesis
    by (simp add: HawkesLam_init_def GaussianDiffusionKernel_init_def)
qed


theorem HawkesLam_value_short_location_witness:
  "length [1/2::real] < 2 \<and>
   0 < kernel_components (lam_kernel (HawkesLam_init 1 (GaussianDiffusion (GaussianDiffusionKernel_init 0 0 1 1 0 1 1)) 10)) \<and>
   HawkesLam_value (HawkesLam_init 1 (GaussianDiffusion (GaussianDiffusionKernel_init 0 0 1 1 0 1 1)) 10) 1 [0] [1/2] [[0]] = Inl IndexError"
proof -
  have h: "length [1/2::real] < 2"
    "0 < kernel_components (lam_kernel (HawkesLam_init 1 (GaussianDiffusion (GaussianDiffusionKernel_init 0 0 1 1 0 1 1)) 10))"
    by (simp_all add: HawkesLam_unit_kernel)
  from HawkesLam_value_short_location[OF h, of 1 "[0]" "[[0]]"] h show ?thesis by simp
qed

end
