(* ===== verification/Sampler.thy ===== *)
theory Sampler
  imports Intensity
begin

text \<open>
  The two sampling stages of \<open>SpatialTemporalPointProcess\<close> (\<^verbatim>\<open>src/stppg.py\<close>, lines
  188--275): \<open>_homogeneous_poisson_sampling\<close> and \<open>_inhomogeneous_poisson_thinning\<close>.

  numpy's global random state is made explicit. A random source \<open>'g rng\<close> is a generator
  state \<open>'g\<close> with two draws, each returning the advanced state: \<open>rng_random\<close>, the
  standard uniform double behind \<open>np.random.uniform\<close>, and \<open>rng_poisson\<close>, one draw of
  \<open>np.random.poisson\<close> of a given non-negative mean. \<open>np_uniform\<close> is numpy's
  \<open>low + (high - low) * u\<close>, \<open>np_uniform_n\<close> the \<open>size=N\<close> form (N draws in order),
  \<open>np_poisson\<close> numpy's checks on the mean (\<open>ValueError\<close> for a negative mean and for one
  above \<open>poisson_lam_max\<close>, numpy's limit \<open>np.iinfo('l').max - np.sqrt(np.iinfo('l').max) * 10\<close>
  for a 64-bit \<open>long\<close>) before the draw. The
  contract \<open>rng_ok\<close> asks only that the uniform draw lie in \<open>[0, 1)\<close>; no theorem here
  depends on the distribution of the draws.

  \<open>lebesgue_measure\<close> is \<open>utils.lebesgue_measure\<close>, which is not among the sources: it is
  modelled from the spec (the product of the interval widths).
\<close>

section \<open>The random source\<close>

record 'g rng =
  rng_random :: "'g \<Rightarrow> real \<times> 'g"
  rng_poisson :: "'g \<Rightarrow> real \<Rightarrow> nat \<times> 'g"

definition rng_ok :: "'g rng \<Rightarrow> bool" where
  "rng_ok rng \<longleftrightarrow> (\<forall>g. 0 \<le> fst (rng_random rng g) \<and> fst (rng_random rng g) < 1)"

definition np_uniform :: "'g rng \<Rightarrow> real \<Rightarrow> real \<Rightarrow> 'g \<Rightarrow> real \<times> 'g" where
  "np_uniform rng low high g = (let (u, g') = rng_random rng g in (low + (high - low) * u, g'))"

fun np_uniform_n :: "'g rng \<Rightarrow> real \<Rightarrow> real \<Rightarrow> nat \<Rightarrow> 'g \<Rightarrow> real list \<times> 'g" where
  "np_uniform_n rng low high 0 g = ([], g)"
| "np_uniform_n rng low high (Suc n) g =
     (let (x, g1) = np_uniform rng low high g;
          (xs, g2) = np_uniform_n rng low high n g1
      in (x # xs, g2))"

definition poisson_lam_max :: real where
  "poisson_lam_max = real (2 ^ 63 - 1 :: nat) - sqrt (real (2 ^ 63 - 1 :: nat)) * 10"

definition np_poisson :: "'g rng \<Rightarrow> real \<Rightarrow> 'g \<Rightarrow> (py_error + nat) \<times> 'g" where
  "np_poisson rng lam g =
     (if lam < 0 then (Inl ValueError, g)
      else if poisson_lam_max < lam then (Inl ValueError, g)
      else (let (n, g') = rng_poisson rng g lam in (Inr n, g')))"

text \<open>A Poisson mean that numpy accepts.\<close>

definition poisson_mean_ok :: "real \<Rightarrow> bool" where
  "poisson_mean_ok lam \<longleftrightarrow> 0 \<le> lam \<and> lam \<le> poisson_lam_max"

section \<open>The region's measure\<close>

definition lebesgue_measure :: "interval list \<Rightarrow> real" where
  "lebesgue_measure S = prod_list (map (\<lambda>(lo, hi). hi - lo) S)"

section \<open>The point process and the homogeneous proposals\<close>

record SpatialTemporalPointProcess =
  pp_lam :: HawkesLam

text \<open>
  \<^verbatim>\<open>points = [np.random.uniform(_S[i][0], _S[i][1], N) for i in range(len(_S))]\<close>:
  one column of \<open>N\<close> draws per dimension, the time column first.
\<close>

fun draw_columns :: "'g rng \<Rightarrow> interval list \<Rightarrow> nat \<Rightarrow> 'g \<Rightarrow> real list list \<times> 'g" where
  "draw_columns rng [] N g = ([], g)"
| "draw_columns rng ((lo, hi) # S) N g =
     (let (col, g1) = np_uniform_n rng lo hi N g;
          (cols, g2) = draw_columns rng S N g1
      in (col # cols, g2))"

text \<open>
  The columns are transposed into rows \<open>[t, x, y]\<close> and the rows sorted by time
  (\<open>points[points[:, 0].argsort()]\<close>); \<open>sort_key\<close> is a stable sort.
\<close>

definition homogeneous_poisson_sampling ::
  "'g rng \<Rightarrow> SpatialTemporalPointProcess \<Rightarrow> interval \<Rightarrow> interval list \<Rightarrow> 'g \<Rightarrow> (py_error + points) \<times> 'g" where
  "homogeneous_poisson_sampling rng pp T S g =
     (let S' = T # S;
          n = lebesgue_measure S'
      in (case np_poisson rng (HawkesLam_upper_bound (pp_lam pp) * n) g of
            (Inl e, g1) \<Rightarrow> (Inl e, g1)
          | (Inr N, g1) \<Rightarrow>
              (let (cols, g2) = draw_columns rng S' N g1;
                   points = transpose cols
               in (Inr (sort_key hd points), g2))))"

section \<open>Thinning\<close>

text \<open>
  The loop of \<open>_inhomogeneous_poisson_thinning\<close>: \<open>n\<close> is \<open>homo_points.shape[0]\<close>,
  \<open>i\<close> the loop index, the list the candidates not yet examined and \<open>retained\<close> the rows
  kept so far. Each step evaluates the intensity with the retained rows as history,
  draws \<open>D\<close>, returns \<open>None\<close> when the intensity exceeds the bound, appends the row when
  \<open>lam_value >= D * lam_bar\<close>, and then, when \<open>verbose\<close>, computes
  \<open>i % int(n / 10)\<close> (for \<open>i \<noteq> 0\<close>), which raises \<open>ZeroDivisionError\<close> when
  \<open>n < 10\<close>. The printing itself has no effect on the result and is not modelled.
\<close>

fun thinning_loop ::
  "SpatialTemporalPointProcess \<Rightarrow> 'g rng \<Rightarrow> bool \<Rightarrow> nat \<Rightarrow> nat \<Rightarrow> points \<Rightarrow> points \<Rightarrow> 'g \<Rightarrow>
   (py_error + points option) \<times> 'g" where
  "thinning_loop pp rng verbose n i [] retained g = (Inr (Some retained), g)"
| "thinning_loop pp rng verbose n i (p # ps) retained g =
     (let t = hd p; s = tl p; his_t = map hd retained; his_s = map tl retained
      in (case HawkesLam_value (pp_lam pp) t his_t s his_s of
            Inl e \<Rightarrow> (Inl e, g)
          | Inr lam_value \<Rightarrow>
              (let lam_bar = HawkesLam_upper_bound (pp_lam pp);
                   (D, g1) = np_uniform rng 0 1 g
               in if lam_bar < lam_value then (Inr None, g1)
                  else
                    (let retained' = (if D * lam_bar \<le> lam_value then retained @ [p] else retained)
                     in if verbose \<and> i \<noteq> 0 \<and> n div 10 = 0 then (Inl ZeroDivisionError, g1)
                        else thinning_loop pp rng verbose n (Suc i) ps retained' g1))))"

definition inhomogeneous_poisson_thinning ::
  "SpatialTemporalPointProcess \<Rightarrow> 'g rng \<Rightarrow> points \<Rightarrow> bool \<Rightarrow> 'g \<Rightarrow> (py_error + points option) \<times> 'g" where
  "inhomogeneous_poisson_thinning pp rng homo_points verbose g =
     thinning_loop pp rng verbose (length homo_points) 0 homo_points [] g"

section \<open>The thinning contract\<close>

text \<open>
  What Ogata's thinning promises, as a relation on runs: \<open>thin_run lam ps ds retained r\<close>
  holds when the candidates \<open>ps\<close>, examined in order from the history \<open>retained\<close> with
  one uniform draw of \<open>ds\<close> each, end with the retained rows \<open>r\<close>. Each step evaluates
  the intensity \<open>v\<close> at its candidate, with the rows retained so far as history, without
  error and within the declared bound \<open>lam_bar\<close>; it keeps the candidate exactly when
  \<open>D * lam_bar \<le> v\<close> for its draw \<open>D\<close> (the acceptance probability \<open>v / lam_bar\<close>).
\<close>

inductive thin_run :: "HawkesLam \<Rightarrow> points \<Rightarrow> real list \<Rightarrow> points \<Rightarrow> points \<Rightarrow> bool" where
  thin_done: "thin_run lam [] [] retained retained"
| thin_keep: "HawkesLam_value lam (hd p) (map hd retained) (tl p) (map tl retained) = Inr v \<Longrightarrow>
    v \<le> HawkesLam_upper_bound lam \<Longrightarrow> D * HawkesLam_upper_bound lam \<le> v \<Longrightarrow>
    thin_run lam ps ds (retained @ [p]) r \<Longrightarrow> thin_run lam (p # ps) (D # ds) retained r"
| thin_drop: "HawkesLam_value lam (hd p) (map hd retained) (tl p) (map tl retained) = Inr v \<Longrightarrow>
    v \<le> HawkesLam_upper_bound lam \<Longrightarrow> v < D * HawkesLam_upper_bound lam \<Longrightarrow>
    thin_run lam ps ds retained r \<Longrightarrow> thin_run lam (p # ps) (D # ds) retained r"

text \<open>
  The spec's contract between the intensity and its declared bound: every evaluation at
  a location with the two coordinates the kernels read succeeds and stays within
  \<open>upper_bound()\<close>. Nothing in the code checks it.
\<close>

definition bounded_intensity :: "HawkesLam \<Rightarrow> bool" where
  "bounded_intensity lam \<longleftrightarrow>
     (\<forall>t his_t s his_s. 2 \<le> length s \<longrightarrow>
        (\<exists>v. HawkesLam_value lam t his_t s his_s = Inr v \<and> v \<le> HawkesLam_upper_bound lam))"

text \<open>Candidate rows \<open>[t, x, y, ...]\<close> that carry the two spatial coordinates the kernels read.\<close>

definition rows_xy :: "points \<Rightarrow> bool" where
  "rows_xy ps \<longleftrightarrow> list_all (\<lambda>p. 2 \<le> length (tl p)) ps"

text \<open>A region: closed intervals \<open>[lo, hi]\<close> with \<open>lo \<le> hi\<close>, a row lies in it coordinate-wise.\<close>

definition region_ok :: "interval list \<Rightarrow> bool" where
  "region_ok S \<longleftrightarrow> list_all (\<lambda>(lo, hi). lo \<le> hi) S"

definition in_region :: "row \<Rightarrow> interval list \<Rightarrow> bool" where
  "in_region r S \<longleftrightarrow> list_all2 (\<lambda>x (lo, hi). lo \<le> x \<and> x \<le> hi) r S"

section \<open>Concrete instances\<close>

text \<open>
  A deterministic random source (every uniform draw is \<open>1/2\<close>, every Poisson draw \<open>3\<close>)
  and a process whose kernel has amplitude \<open>C = 0\<close> and bound \<open>maximum = 10\<close>: the
  inputs at which the theorems below are instantiated.
\<close>

definition demo_rng :: "nat rng" where
  "demo_rng = \<lparr>rng_random = (\<lambda>g. (1 / 2, Suc g)), rng_poisson = (\<lambda>g lam. (3, Suc g))\<rparr>"

definition demo_pp :: "real \<Rightarrow> SpatialTemporalPointProcess" where
  "demo_pp mu = \<lparr>pp_lam = HawkesLam_init mu (StdDiffusion (StdDiffusionKernel_init 0 1 1 1)) 10\<rparr>"


section \<open>Properties of the sampling stages\<close>

lemma poisson_lam_max_ge: "2 ^ 62 \<le> poisson_lam_max"
proof -
  have "sqrt (real (2 ^ 63 - 1 :: nat)) \<le> sqrt ((2 ^ 32)\<^sup>2)"
    by (rule real_sqrt_le_mono) simp
  also have "\<dots> = 2 ^ 32" by simp
  finally have "sqrt (real (2 ^ 63 - 1 :: nat)) * 10 \<le> 2 ^ 32 * 10" by simp
  then show ?thesis unfolding poisson_lam_max_def by simp
qed

lemma not_poisson_lam_max_less [simp]: "x \<le> 2 ^ 62 \<Longrightarrow> \<not> poisson_lam_max < x"
  using poisson_lam_max_ge by simp

lemma poisson_mean_ok_small: "0 \<le> x \<Longrightarrow> x \<le> 2 ^ 62 \<Longrightarrow> poisson_mean_ok x"
  using poisson_lam_max_ge by (simp add: poisson_mean_ok_def)

text \<open>The proposal stage raises only numpy's \<open>ValueError\<close> for a Poisson mean it rejects.\<close>

lemma homogeneous_poisson_sampling_Inl:
  "fst (homogeneous_poisson_sampling rng pp T S g) = Inl e \<longleftrightarrow>
   e = ValueError \<and> \<not> poisson_mean_ok (HawkesLam_upper_bound (pp_lam pp) * lebesgue_measure (T # S))"
  by (auto simp: homogeneous_poisson_sampling_def np_poisson_def poisson_mean_ok_def Let_def split: prod.splits)

inductive_cases thin_run_ConsE: "thin_run lam (p # ps) ds retained r"

lemma np_uniform_n_Suc:
  "np_uniform_n rng lo hi (Suc n) g =
     (fst (np_uniform rng lo hi g) # fst (np_uniform_n rng lo hi n (snd (np_uniform rng lo hi g))),
      snd (np_uniform_n rng lo hi n (snd (np_uniform rng lo hi g))))"
  by (simp add: split_def Let_def)

text \<open>
  The loop consumes exactly one uniform draw per candidate, and a sequence it returns is
  the run of the contract on those draws.
\<close>

lemma thinning_loop_sound:
  "thinning_loop pp rng verbose n i ps retained g = (Inr (Some r), g') \<Longrightarrow>
   thin_run (pp_lam pp) ps (fst (np_uniform_n rng 0 1 (length ps) g)) retained r \<and>
   g' = snd (np_uniform_n rng 0 1 (length ps) g)"
proof (induction ps arbitrary: i retained g)
  case Nil
  then show ?case by (simp add: thin_done)
next
  case (Cons p ps)
  obtain v where v: "HawkesLam_value (pp_lam pp) (hd p) (map hd retained) (tl p) (map tl retained) = Inr v"
    using Cons.prems by (auto simp: Let_def split: sum.splits)
  obtain D g1 where D: "np_uniform rng 0 1 g = (D, g1)" by fastforce
  from Cons.prems v D have le: "v \<le> HawkesLam_upper_bound (pp_lam pp)"
    by (auto simp: Let_def split: if_splits)
  have draws: "np_uniform_n rng 0 1 (length (p # ps)) g =
      (D # fst (np_uniform_n rng 0 1 (length ps) g1), snd (np_uniform_n rng 0 1 (length ps) g1))"
    using D by (simp only: length_Cons np_uniform_n_Suc) simp
  show ?case
  proof (cases "D * HawkesLam_upper_bound (pp_lam pp) \<le> v")
    case True
    with Cons.prems v D le have "thinning_loop pp rng verbose n (Suc i) ps (retained @ [p]) g1 = (Inr (Some r), g')"
      by (auto simp: Let_def split: if_splits)
    from thin_keep[OF v le True conjunct1[OF Cons.IH[OF this]]] conjunct2[OF Cons.IH[OF this]] draws
    show ?thesis by simp
  next
    case False
    then have lt: "v < D * HawkesLam_upper_bound (pp_lam pp)" by simp
    with Cons.prems v D le have "thinning_loop pp rng verbose n (Suc i) ps retained g1 = (Inr (Some r), g')"
      by (auto simp: Let_def split: if_splits)
    from thin_drop[OF v le lt conjunct1[OF Cons.IH[OF this]]] conjunct2[OF Cons.IH[OF this]] draws
    show ?thesis by simp
  qed
qed

lemma thin_run_subseq: "thin_run lam ps ds retained r \<Longrightarrow> \<exists>kept. subseq kept ps \<and> r = retained @ kept"
proof (induction rule: thin_run.induct)
  case (thin_done lam retained)
  then show ?case by auto
next
  case (thin_keep lam p retained v D ps ds r)
  then obtain kept where "subseq kept ps" "r = (retained @ [p]) @ kept" by blast
  then show ?case by (intro exI[of _ "p # kept"]) auto
next
  case (thin_drop lam p retained v D ps ds r)
  then show ?case by (auto intro: subseq_Cons')
qed

lemma subseq_sorted_wrt: "subseq xs ys \<Longrightarrow> sorted_wrt R ys \<Longrightarrow> sorted_wrt R xs"
  by (induction rule: list_emb.induct) (auto dest: list_emb_set)

lemma sorted_subseq_map: "subseq xs ys \<Longrightarrow> sorted (map f ys) \<Longrightarrow> sorted (map f xs)"
  by (metis subseq_map subseq_sorted_wrt sorted_wrt_map)

lemma np_uniform_in:
  "rng_ok rng \<Longrightarrow> lo \<le> hi \<Longrightarrow> np_uniform rng lo hi g = (x, g') \<Longrightarrow> lo \<le> x \<and> x \<le> hi"
proof -
  assume ok: "rng_ok rng" and le: "lo \<le> hi" and eq: "np_uniform rng lo hi g = (x, g')"
  obtain u g1 where u: "rng_random rng g = (u, g1)" by fastforce
  with ok have "0 \<le> u" "u < 1" unfolding rng_ok_def by (metis fst_conv)+
  moreover from eq u have "x = lo + (hi - lo) * u" by (simp add: np_uniform_def)
  moreover have "(hi - lo) * u \<le> hi - lo" and "0 \<le> (hi - lo) * u"
    using le \<open>0 \<le> u\<close> \<open>u < 1\<close> by (simp_all add: mult_left_le)
  ultimately show ?thesis by linarith
qed

lemma np_uniform_n_length: "np_uniform_n rng lo hi n g = (xs, g') \<Longrightarrow> length xs = n"
  by (induction n arbitrary: g xs) (auto simp: Let_def split: prod.splits)

lemma np_uniform_n_in:
  "rng_ok rng \<Longrightarrow> lo \<le> hi \<Longrightarrow> np_uniform_n rng lo hi n g = (xs, g') \<Longrightarrow> \<forall>x\<in>set xs. lo \<le> x \<and> x \<le> hi"
proof (induction n arbitrary: g xs g')
  case 0
  then show ?case by simp
next
  case (Suc n)
  obtain x g1 where x: "np_uniform rng lo hi g = (x, g1)" by fastforce
  obtain xs' g2 where xs': "np_uniform_n rng lo hi n g1 = (xs', g2)" by fastforce
  from Suc.prems x xs' have "xs = x # xs'" by simp
  with np_uniform_in[OF Suc.prems(1,2) x] Suc.IH[OF Suc.prems(1,2) xs'] show ?case by simp
qed

lemma draw_columns_shape:
  "draw_columns rng S N g = (cols, g') \<Longrightarrow> length cols = length S \<and> (\<forall>c\<in>set cols. length c = N)"
proof (induction rng S N g arbitrary: cols rule: draw_columns.induct)
  case (1 rng N g)
  then show ?case by simp
next
  case (2 rng lo hi S N g)
  then show ?case by (auto simp: Let_def split: prod.splits dest: np_uniform_n_length)
qed

lemma draw_columns_in:
  "rng_ok rng \<Longrightarrow> region_ok S \<Longrightarrow> draw_columns rng S N g = (cols, g') \<Longrightarrow>
   list_all2 (\<lambda>c (lo, hi). \<forall>x\<in>set c. lo \<le> x \<and> x \<le> hi) cols S"
proof (induction rng S N g arbitrary: cols g' rule: draw_columns.induct)
  case (1 rng N g)
  then show ?case by simp
next
  case (2 rng lo hi S N g)
  obtain col g1 where col: "np_uniform_n rng lo hi N g = (col, g1)" by fastforce
  obtain cols' g2 where cols': "draw_columns rng S N g1 = (cols', g2)" by fastforce
  from "2.prems" col cols' have "cols = col # cols'" by simp
  moreover from "2.prems"(2) have "lo \<le> hi" "region_ok S" by (auto simp: region_ok_def)
  ultimately show ?case
    using np_uniform_n_in[OF "2.prems"(1) \<open>lo \<le> hi\<close> col] "2.IH"[OF col[symmetric] refl "2.prems"(1) \<open>region_ok S\<close> cols']
    by simp
qed

lemma transpose_rows:
  assumes "cols \<noteq> []" and "\<forall>c\<in>set cols. length c = N"
  shows "length (transpose cols) = N \<and> (\<forall>j<N. transpose cols ! j = map (\<lambda>c. c ! j) cols)"
proof -
  have "foldr (\<lambda>xs. max (length xs)) cols 0 = (if cols = [] then 0 else N)"
    using assms(2) by (induction cols) auto
  then have len: "length (transpose cols) = N"
    using assms(1) by (simp add: length_transpose)
  moreover have "\<forall>j<N. transpose cols ! j = map (\<lambda>c. c ! j) cols"
    using assms len by (auto simp: nth_transpose intro!: filter_True)
  ultimately show ?thesis by blast
qed

lemma sorted_sort_key_hd: "sorted (map hd (sort_key hd xs))"
  by (rule sorted_sort_key)

lemma homogeneous_poisson_sampling_Inr:
  assumes "homogeneous_poisson_sampling rng pp T S g = (Inr pts, g')"
  shows "\<exists>N g1 cols. draw_columns rng (T # S) N g1 = (cols, g') \<and> pts = sort_key hd (transpose cols)"
  using assms
  by (auto simp: homogeneous_poisson_sampling_def np_poisson_def Let_def split: if_splits prod.splits sum.splits)

lemma homogeneous_rows:
  assumes "homogeneous_poisson_sampling rng pp T S g = (Inr pts, g')" and "r \<in> set pts"
  shows "\<exists>N g1 cols j. draw_columns rng (T # S) N g1 = (cols, g') \<and> j < N \<and> r = map (\<lambda>c. c ! j) cols"
proof -
  obtain N g1 cols where dc: "draw_columns rng (T # S) N g1 = (cols, g')"
    and pts: "pts = sort_key hd (transpose cols)"
    using homogeneous_poisson_sampling_Inr[OF assms(1)] by blast
  from draw_columns_shape[OF dc] have "cols \<noteq> []" "\<forall>c\<in>set cols. length c = N" by auto
  from transpose_rows[OF this] have tr: "length (transpose cols) = N"
    "\<forall>j<N. transpose cols ! j = map (\<lambda>c. c ! j) cols" by blast+
  from assms(2) pts have "r \<in> set (transpose cols)" by simp
  then obtain j where "j < N" "r = transpose cols ! j" using tr(1) by (auto simp: in_set_conv_nth)
  with tr(2) dc show ?thesis by blast
qed

text \<open>
  The proposals are rows \<open>[t, x_1, ..., x_d]\<close> of width \<open>1 + len(S)\<close>, in ascending
  order of time.
\<close>

lemma homogeneous_poisson_sampling_sorted:
  assumes "homogeneous_poisson_sampling rng pp T S g = (Inr pts, g')"
  shows "sorted (map hd pts) \<and> (\<forall>r\<in>set pts. length r = Suc (length S))"
proof
  obtain N g1 cols where "pts = sort_key hd (transpose cols)"
    using homogeneous_poisson_sampling_Inr[OF assms] by blast
  then show "sorted (map hd pts)" by (simp add: sorted_sort_key)
next
  show "\<forall>r\<in>set pts. length r = Suc (length S)"
  proof
    fix r assume "r \<in> set pts"
    from homogeneous_rows[OF assms this] obtain N g1 cols j
      where "draw_columns rng (T # S) N g1 = (cols, g')" "r = map (\<lambda>c. c ! j) cols" by blast
    with draw_columns_shape show "length r = Suc (length S)" by fastforce
  qed
qed

lemma homogeneous_poisson_sampling_rows_xy:
  assumes "homogeneous_poisson_sampling rng pp T S g = (Inr pts, g')" and "2 \<le> length S"
  shows "rows_xy pts"
  using homogeneous_poisson_sampling_sorted[OF assms(1)] assms(2)
  by (simp add: rows_xy_def list_all_iff)

lemma transpose_columns:
  assumes "cols \<noteq> []" and "\<forall>c\<in>set cols. length c = N"
  shows "transpose cols = map (\<lambda>j. map (\<lambda>c. c ! j) cols) [0..<N]"
  using transpose_rows[OF assms] by (intro nth_equalityI) auto

text \<open>
  C18: \<open>np.array(points).transpose()\<close> turns the drawn columns into rows and the
  sort by time moves whole rows: the proposals are the rows \<open>j\<close> of the drawn columns
  (every coordinate of a proposal comes from the same draw index) in the order of a
  permutation \<open>js\<close> of the indices, and transposing the proposals back gives the drawn
  columns, each reordered by the same \<open>js\<close>.
\<close>

theorem homogeneous_poisson_sampling_transpose_roundtrip:
  assumes "homogeneous_poisson_sampling rng pp T S g = (Inr pts, g')"
  shows "\<exists>N g1 cols js. draw_columns rng (T # S) N g1 = (cols, g') \<and> mset js = mset [0..<N] \<and>
           pts = map (\<lambda>j. map (\<lambda>c. c ! j) cols) js \<and>
           (0 < N \<longrightarrow> transpose pts = map (\<lambda>c. map (\<lambda>j. c ! j) js) cols)"
proof -
  obtain N g1 cols where dc: "draw_columns rng (T # S) N g1 = (cols, g')"
    and pts: "pts = sort_key hd (transpose cols)"
    using homogeneous_poisson_sampling_Inr[OF assms] by blast
  from draw_columns_shape[OF dc] have ne: "cols \<noteq> []" and w: "\<forall>c\<in>set cols. length c = N" by auto
  let ?row = "\<lambda>j. map (\<lambda>c. c ! j) cols"
  let ?js = "sort_key (\<lambda>j. hd (?row j)) [0..<N]"
  have rows: "pts = map ?row ?js"
    by (simp only: pts transpose_columns[OF ne w] sort_key_map_comp)
  have perm: "mset ?js = mset [0..<N]" by simp
  have "transpose pts = map (\<lambda>c. map (\<lambda>j. c ! j) ?js) cols" if "0 < N"
  proof -
    have l: "length ?js = N" by simp
    from l that have "?js \<noteq> []" by (metis gr_implies_not0 list.size(3))
    with rows have "pts \<noteq> []" by simp
    moreover have "\<forall>r\<in>set pts. length r = length cols" using rows by auto
    ultimately have tr: "length (transpose pts) = length cols"
      "\<forall>i<length cols. transpose pts ! i = map (\<lambda>r. r ! i) pts"
      using transpose_rows[of pts "length cols"] by blast+
    show ?thesis using tr rows by (intro nth_equalityI) auto
  qed
  with dc perm rows show ?thesis by blast
qed

text \<open>
  With a random source whose uniform draws lie in \<open>[0, 1)\<close>, every proposal lies
  in the region \<open>T \<times> S\<close>, coordinate by coordinate.
\<close>

lemma homogeneous_poisson_sampling_in_region:
  assumes "rng_ok rng" and "region_ok (T # S)"
    and "homogeneous_poisson_sampling rng pp T S g = (Inr pts, g')"
  shows "\<forall>r\<in>set pts. in_region r (T # S)"
proof
  fix r assume "r \<in> set pts"
  from homogeneous_rows[OF assms(3) this] obtain N g1 cols j
    where dc: "draw_columns rng (T # S) N g1 = (cols, g')" and j: "j < N"
      and r: "r = map (\<lambda>c. c ! j) cols" by blast
  from draw_columns_in[OF assms(1,2) dc] have in_cols: "list_all2 (\<lambda>c (lo, hi). \<forall>x\<in>set c. lo \<le> x \<and> x \<le> hi) cols (T # S)" .
  from draw_columns_shape[OF dc] j have "\<forall>c\<in>set cols. j < length c" by simp
  with in_cols show "in_region r (T # S)"
    unfolding r in_region_def list_all2_conv_all_nth
    by (auto split: prod.splits)
qed

lemma bounded_intensity_at:
  assumes "bounded_intensity (pp_lam pp)" and "2 \<le> length (tl p)"
  obtains v where "HawkesLam_value (pp_lam pp) (hd p) (map hd retained) (tl p) (map tl retained) = Inr v"
    and "v \<le> HawkesLam_upper_bound (pp_lam pp)"
  using assms unfolding bounded_intensity_def by blast

lemma thinning_loop_step:
  assumes "bounded_intensity (pp_lam pp)" and "2 \<le> length (tl p)" and "\<not> (verbose \<and> i \<noteq> 0 \<and> n div 10 = 0)"
  shows "\<exists>retained' g1. thinning_loop pp rng verbose n i (p # ps) retained g =
           thinning_loop pp rng verbose n (Suc i) ps retained' g1"
proof -
  obtain v where v: "HawkesLam_value (pp_lam pp) (hd p) (map hd retained) (tl p) (map tl retained) = Inr v"
    and le: "v \<le> HawkesLam_upper_bound (pp_lam pp)"
    using bounded_intensity_at[OF assms(1,2)] by blast
  obtain D g1 where D: "np_uniform rng 0 1 g = (D, g1)" by fastforce
  from v le D assms(3) show ?thesis by (auto simp: Let_def)
qed

lemma thinning_loop_zero_division:
  assumes "bounded_intensity (pp_lam pp)" and "2 \<le> length (tl p)" and "n div 10 = 0" and "i \<noteq> 0"
  shows "fst (thinning_loop pp rng True n i (p # ps) retained g) = Inl ZeroDivisionError"
proof -
  obtain v where v: "HawkesLam_value (pp_lam pp) (hd p) (map hd retained) (tl p) (map tl retained) = Inr v"
    and le: "v \<le> HawkesLam_upper_bound (pp_lam pp)"
    using bounded_intensity_at[OF assms(1,2)] by blast
  obtain D g1 where D: "np_uniform rng 0 1 g = (D, g1)" by fastforce
  from v le D assms(3,4) show ?thesis by (auto simp: Let_def)
qed

text \<open>
  C2: soundness of thinning against its contract. A sequence that
  \<open>_inhomogeneous_poisson_thinning\<close> returns is Ogata's thinning of the candidates on
  the uniform draws it consumed, one per candidate: every candidate's intensity,
  evaluated with the rows retained before it as history, was computed without error and
  did not exceed \<open>upper_bound()\<close>, and the candidate was kept exactly when
  \<open>lam_value >= D * lam_bar\<close>. The returned generator state is the one after those draws.
\<close>

theorem inhomogeneous_poisson_thinning_sound:
  assumes "inhomogeneous_poisson_thinning pp rng homo_points verbose g = (Inr (Some r), g')"
  shows "thin_run (pp_lam pp) homo_points (fst (np_uniform_n rng 0 1 (length homo_points) g)) [] r \<and>
         g' = snd (np_uniform_n rng 0 1 (length homo_points) g)"
  using thinning_loop_sound[of pp rng verbose "length homo_points" 0 homo_points "[]" g r g'] assms
  by (simp add: inhomogeneous_poisson_thinning_def)

text \<open>
  The retained rows are a subsequence of the candidates, so a time-sorted candidate
  list gives a time-sorted event sequence.
\<close>

lemma inhomogeneous_poisson_thinning_sorted:
  assumes "inhomogeneous_poisson_thinning pp rng homo_points verbose g = (Inr (Some r), g')"
    and "sorted (map hd homo_points)"
  shows "subseq r homo_points \<and> sorted (map hd r)"
proof -
  have "thin_run (pp_lam pp) homo_points (fst (np_uniform_n rng 0 1 (length homo_points) g)) [] r"
    using thinning_loop_sound[of pp rng verbose "length homo_points" 0 homo_points "[]" g r g'] assms(1)
    by (simp add: inhomogeneous_poisson_thinning_def)
  from thin_run_subseq[OF this] have "subseq r homo_points" by simp
  with assms(2) show ?thesis by (simp add: sorted_subseq_map)
qed

lemma thinning_loop_first_violation:
  "HawkesLam_upper_bound (pp_lam pp) < lam_mu (pp_lam pp) \<Longrightarrow>
   fst (thinning_loop pp rng verbose n i (p # ps) [] g) = Inr None"
  by (auto simp: Let_def split: prod.splits)

lemma homogeneous_poisson_sampling_length:
  assumes "homogeneous_poisson_sampling rng pp T S g = (Inr pts, g')"
  shows "\<exists>N g1. np_poisson rng (HawkesLam_upper_bound (pp_lam pp) * lebesgue_measure (T # S)) g = (Inr N, g1) \<and>
           length pts = N"
proof -
  obtain N g1 where N: "np_poisson rng (HawkesLam_upper_bound (pp_lam pp) * lebesgue_measure (T # S)) g = (Inr N, g1)"
    using assms by (auto simp: homogeneous_poisson_sampling_def Let_def split: prod.splits sum.splits)
  obtain cols g2 where dc: "draw_columns rng (T # S) N g1 = (cols, g2)" by fastforce
  from assms N dc have "pts = sort_key hd (transpose cols)"
    by (simp add: homogeneous_poisson_sampling_def Let_def)
  moreover from draw_columns_shape[OF dc] have "cols \<noteq> []" and "\<forall>c\<in>set cols. length c = N" by auto
  then have "length (transpose cols) = N" using transpose_rows by blast
  ultimately show ?thesis using N by simp
qed

lemma homogeneous_poisson_sampling_Inr_exists:
  "poisson_mean_ok (HawkesLam_upper_bound (pp_lam pp) * lebesgue_measure (T # S)) \<Longrightarrow>
   \<exists>pts g'. homogeneous_poisson_sampling rng pp T S g = (Inr pts, g')"
  by (auto simp: homogeneous_poisson_sampling_def np_poisson_def poisson_mean_ok_def Let_def split: prod.splits)

text \<open>
  C7: a background rate above the declared bound is a bound violation at the very first
  candidate (whose history is empty): thinning discards the whole sequence (\<open>None\<close>).
\<close>

theorem inhomogeneous_poisson_thinning_mu_violation:
  assumes "HawkesLam_upper_bound (pp_lam pp) < lam_mu (pp_lam pp)" and "homo_points \<noteq> []"
  shows "fst (inhomogeneous_poisson_thinning pp rng homo_points verbose g) = Inr None"
proof -
  obtain p ps where homo: "homo_points = p # ps" using assms(2) by (cases homo_points) auto
  from thinning_loop_first_violation[OF assms(1), of rng verbose "length homo_points" 0 p ps g]
  show ?thesis by (simp only: inhomogeneous_poisson_thinning_def homo)
qed

lemma thinning_loop_zero_division_start:
  assumes "bounded_intensity (pp_lam pp)" and "rows_xy (p0 # p1 # ps)" and "n div 10 = 0"
  shows "fst (thinning_loop pp rng True n 0 (p0 # p1 # ps) [] g) = Inl ZeroDivisionError"
proof -
  from assms(2) have w0: "2 \<le> length (tl p0)" and w1: "2 \<le> length (tl p1)" by (simp_all add: rows_xy_def)
  obtain retained' g1 where "thinning_loop pp rng True n 0 (p0 # p1 # ps) [] g =
      thinning_loop pp rng True n (Suc 0) (p1 # ps) retained' g1"
    using thinning_loop_step[OF assms(1) w0, of True 0 n rng "p1 # ps" "[]" g] by auto
  with thinning_loop_zero_division[OF assms(1) w1 assms(3), of "Suc 0" rng ps retained' g1] show ?thesis by simp
qed

text \<open>
  C12: with \<open>verbose\<close> set, thinning between 2 and 9 candidates raises
  \<open>ZeroDivisionError\<close> at the second candidate: the progress test \<open>i % int(n / 10)\<close>
  divides by \<open>int(n / 10) = 0\<close>. It suffices that neither of the first two candidates
  violates the bound (the first is evaluated against the empty history, the second
  against the first or against nothing), for any kernel, exciting or not.
\<close>

theorem inhomogeneous_poisson_thinning_zero_division:
  assumes "homo_points = p0 # p1 # ps" and "length homo_points < 10"
    and "lam_mu (pp_lam pp) \<le> HawkesLam_upper_bound (pp_lam pp)"
    and "HawkesLam_value (pp_lam pp) (hd p1) [hd p0] (tl p1) [tl p0] = Inr v"
    and "v \<le> HawkesLam_upper_bound (pp_lam pp)"
  shows "fst (inhomogeneous_poisson_thinning pp rng homo_points True g) = Inl ZeroDivisionError"
proof -
  obtain D g1 where D: "np_uniform rng 0 1 g = (D, g1)" by fastforce
  obtain D' g2 where D': "np_uniform rng 0 1 g1 = (D', g2)" by fastforce
  from assms(2) have n: "length homo_points div 10 = 0" by simp
  show ?thesis
    using assms(3-5) D D' n unfolding assms(1) inhomogeneous_poisson_thinning_def
    by (cases "D * HawkesLam_upper_bound (pp_lam pp) \<le> lam_mu (pp_lam pp)") (simp_all add: Let_def)
qed

text \<open>
  C13: on a region of dimension 0 or 1 (rows \<open>[t]\<close> or \<open>[t, x]\<close>), thinning raises
  \<open>IndexError\<close> at the second candidate once the first has been retained: the first
  candidate is evaluated against an empty history (the value is \<open>mu\<close>), the second
  against a non-empty one, which every kernel with a Gaussian component indexes at
  \<open>delta_s[:, 1]\<close>.
\<close>

theorem inhomogeneous_poisson_thinning_short_rows:
  assumes "0 < kernel_components (lam_kernel (pp_lam pp))"
    and "lam_mu (pp_lam pp) \<le> HawkesLam_upper_bound (pp_lam pp)"
    and "fst (np_uniform rng 0 1 g) * HawkesLam_upper_bound (pp_lam pp) \<le> lam_mu (pp_lam pp)"
    and "length (tl p1) < 2"
  shows "fst (inhomogeneous_poisson_thinning pp rng (p0 # p1 # ps) False g) = Inl IndexError"
proof -
  obtain D g1 where D: "np_uniform rng 0 1 g = (D, g1)" by fastforce
  have "HawkesLam_value (pp_lam pp) (hd p1) [hd p0] (tl p1) [tl p0] = Inl IndexError"
    using kernel_nu_short_location[OF assms(4,1)] by (simp add: HawkesLam_value_def)
  with D assms(2,3) show ?thesis by (simp add: inhomogeneous_poisson_thinning_def Let_def)
qed

subsection \<open>The concrete instances evaluated\<close>

lemma StdDiffusionKernel_nu_zero_amplitude:
  "sd_C k = 0 \<Longrightarrow> 2 \<le> length s \<Longrightarrow> \<exists>v. StdDiffusionKernel_nu k t s his_t his_s = Inr v \<and> sum_list v = 0"
  by (simp add: StdDiffusionKernel_nu_def pairwise_nu_def StdDiffusionKernel_val_def sum_list_map2_zero)

lemma bounded_intensity_zero_amplitude:
  assumes "lam_kernel lam = StdDiffusion k" and "sd_C k = 0" and "lam_mu lam \<le> lam_maximum lam"
  shows "bounded_intensity lam"
  unfolding bounded_intensity_def
proof (intro allI impI)
  fix t :: real and his_t :: "real list" and s :: row and his_s :: points
  assume "2 \<le> length s"
  from StdDiffusionKernel_nu_zero_amplitude[OF assms(2) this] obtain v
    where "StdDiffusionKernel_nu k t s his_t his_s = Inr v" "sum_list v = 0" by blast
  with assms show "\<exists>v. HawkesLam_value lam t his_t s his_s = Inr v \<and> v \<le> HawkesLam_upper_bound lam"
    by (simp add: HawkesLam_value_def HawkesLam_upper_bound_def)
qed

text \<open>
  The contract \<open>bounded_intensity\<close> holds only for kernels that do not excite: for a
  valid Gaussian kernel it forces the amplitude \<open>C\<close> to 0.
\<close>

lemma bounded_intensity_Gaussian_amplitude:
  assumes "bounded_intensity lam" and "lam_kernel lam = GaussianDiffusion k" and "gauss_ok k"
  shows "gd_C k = 0"
proof (rule ccontr)
  assume "gd_C k \<noteq> 0"
  with assms(3) have C: "0 < gd_C k" by (simp add: gauss_ok_def)
  have s: "2 \<le> length [0::real, 0]" by simp
  from HawkesLam_value_unbounded[OF assms(2,3) C s, of 0 "HawkesLam_upper_bound lam"]
  obtain ht hs v where "HawkesLam_value lam 0 [ht] [0, 0] [hs] = Inr v" "HawkesLam_upper_bound lam < v"
    by auto
  with assms(1) show False unfolding bounded_intensity_def
    by (metis Inr_inject le_less_trans less_irrefl s)
qed

lemma demo_rng_ok: "rng_ok demo_rng"
  by (simp add: rng_ok_def demo_rng_def)

lemma demo_pp_bounded: "mu \<le> 10 \<Longrightarrow> bounded_intensity (pp_lam (demo_pp mu))"
  by (rule bounded_intensity_zero_amplitude[where k = "StdDiffusionKernel_init 0 1 1 1"])
     (simp_all add: demo_pp_def HawkesLam_init_def StdDiffusionKernel_init_def)

lemma demo_homogeneous_Inr:
  "\<exists>pts g'. homogeneous_poisson_sampling demo_rng (demo_pp mu) (0, 1) [(0, 1), (0, 1)] 0 = (Inr pts, g')"
  by (simp add: homogeneous_poisson_sampling_def np_poisson_def lebesgue_measure_def demo_pp_def
      HawkesLam_upper_bound_def HawkesLam_init_def Let_def split: prod.splits)

lemma demo_homogeneous_value:
  "homogeneous_poisson_sampling demo_rng (demo_pp 1) (0, 1) [(0, 1), (0, 1)] 0 =
     (Inr [[1/2, 1/2, 1/2], [1/2, 1/2, 1/2], [1/2, 1/2, 1/2]], 10)"
  by (simp add: homogeneous_poisson_sampling_def np_poisson_def lebesgue_measure_def demo_pp_def
      HawkesLam_upper_bound_def HawkesLam_init_def demo_rng_def np_uniform_def numeral_3_eq_3 Let_def)

lemma demo_thinning_loop_keep:
  "rows_xy ps \<Longrightarrow> \<not> verbose \<or> 0 < n div 10 \<Longrightarrow>
   thinning_loop (demo_pp 10) demo_rng verbose n i ps retained g = (Inr (Some (retained @ ps)), g + length ps)"
proof (induction ps arbitrary: i retained g)
  case Nil
  then show ?case by simp
next
  case (Cons p ps)
  from Cons.prems have w: "2 \<le> length (tl p)" by (simp add: rows_xy_def)
  obtain u where u: "StdDiffusionKernel_nu (StdDiffusionKernel_init 0 1 1 1) (hd p) (tl p) (map hd retained) (map tl retained) = Inr u"
    and u0: "sum_list u = 0"
    using StdDiffusionKernel_nu_zero_amplitude[where k = "StdDiffusionKernel_init 0 1 1 1" and s = "tl p"
        and t = "hd p" and his_t = "map hd retained" and his_s = "map tl retained"] w
    by (auto simp: StdDiffusionKernel_init_def)
  have v: "HawkesLam_value (pp_lam (demo_pp 10)) (hd p) (map hd retained) (tl p) (map tl retained) = Inr 10"
    using u u0 by (simp add: HawkesLam_value_def demo_pp_def HawkesLam_init_def)
  have D: "np_uniform demo_rng 0 1 g = (1 / 2, Suc g)" by (simp add: np_uniform_def demo_rng_def)
  have b: "HawkesLam_upper_bound (pp_lam (demo_pp 10)) = 10"
    by (simp add: HawkesLam_upper_bound_def demo_pp_def HawkesLam_init_def)
  from Cons.prems(1) have "rows_xy ps" by (simp add: rows_xy_def)
  from Cons.IH[OF this Cons.prems(2), of "Suc i" "retained @ [p]" "Suc g"] Cons.prems(2) v D b
  show ?case by (auto simp: Let_def)
qed

lemma demo_thinning_all:
  "inhomogeneous_poisson_thinning (demo_pp 10) demo_rng [[1/2::real, 1/2, 1/2], [1/2, 1/2, 1/2], [1/2, 1/2, 1/2]] False g =
     (Inr (Some [[1/2::real, 1/2, 1/2], [1/2, 1/2, 1/2], [1/2, 1/2, 1/2]]), g + 3)"
  by (simp add: inhomogeneous_poisson_thinning_def demo_pp_def HawkesLam_init_def HawkesLam_value_def
      HawkesLam_upper_bound_def StdDiffusionKernel_init_def StdDiffusionKernel_nu_def pairwise_nu_def
      StdDiffusionKernel_val_def demo_rng_def np_uniform_def Let_def)

subsection \<open>Witnesses\<close>

theorem inhomogeneous_poisson_thinning_sound_witness:
  "inhomogeneous_poisson_thinning (demo_pp 10) demo_rng [[1/2::real, 1/2, 1/2], [1/2, 1/2, 1/2], [1/2, 1/2, 1/2]] False 0 = (Inr (Some [[1/2::real, 1/2, 1/2], [1/2, 1/2, 1/2], [1/2, 1/2, 1/2]]), 3) \<and>
   thin_run (pp_lam (demo_pp 10)) [[1/2::real, 1/2, 1/2], [1/2, 1/2, 1/2], [1/2, 1/2, 1/2]] (fst (np_uniform_n demo_rng 0 1 3 0)) [] [[1/2::real, 1/2, 1/2], [1/2, 1/2, 1/2], [1/2, 1/2, 1/2]] \<and>
   (3::nat) = snd (np_uniform_n demo_rng 0 1 3 0)"
  using demo_thinning_all[of 0] inhomogeneous_poisson_thinning_sound[OF demo_thinning_all[of 0]]
  by (simp add: numeral_3_eq_3 del: np_uniform_n.simps)

theorem inhomogeneous_poisson_thinning_mu_violation_witness:
  "HawkesLam_upper_bound (pp_lam (demo_pp 11)) < lam_mu (pp_lam (demo_pp 11)) \<and> [[1/2::real, 1/2, 1/2], [1/2, 1/2, 1/2], [1/2, 1/2, 1/2]] \<noteq> [] \<and>
   fst (inhomogeneous_poisson_thinning (demo_pp 11) demo_rng [[1/2::real, 1/2, 1/2], [1/2, 1/2, 1/2], [1/2, 1/2, 1/2]] True 0) = Inr None"
proof -
  have h: "HawkesLam_upper_bound (pp_lam (demo_pp 11)) < lam_mu (pp_lam (demo_pp 11))"
    by (simp add: demo_pp_def HawkesLam_upper_bound_def HawkesLam_init_def)
  have n: "[[1/2::real, 1/2, 1/2], [1/2, 1/2, 1/2], [1/2, 1/2, 1/2]] \<noteq> []" by simp
  from inhomogeneous_poisson_thinning_mu_violation[OF h n] h n show ?thesis by simp
qed

theorem inhomogeneous_poisson_thinning_zero_division_witness:
  "[[1/2::real, 1/2, 1/2], [1/2, 1/2, 1/2], [1/2, 1/2, 1/2]] = [1/2, 1/2, 1/2] # [1/2, 1/2, 1/2] # [[1/2, 1/2, 1/2]] \<and> length [[1/2::real, 1/2, 1/2], [1/2, 1/2, 1/2], [1/2, 1/2, 1/2]] < 10 \<and>
   lam_mu (pp_lam (demo_pp 1)) \<le> HawkesLam_upper_bound (pp_lam (demo_pp 1)) \<and>
   HawkesLam_value (pp_lam (demo_pp 1)) (hd [1/2::real, 1/2, 1/2]) [hd [1/2::real, 1/2, 1/2]] (tl [1/2::real, 1/2, 1/2]) [tl [1/2::real, 1/2, 1/2]] = Inr 1 \<and>
   1 \<le> HawkesLam_upper_bound (pp_lam (demo_pp 1)) \<and>
   fst (inhomogeneous_poisson_thinning (demo_pp 1) demo_rng [[1/2::real, 1/2, 1/2], [1/2, 1/2, 1/2], [1/2, 1/2, 1/2]] True 0) = Inl ZeroDivisionError"
proof -
  have h: "[[1/2::real, 1/2, 1/2], [1/2, 1/2, 1/2], [1/2, 1/2, 1/2]] = [1/2, 1/2, 1/2] # [1/2, 1/2, 1/2] # [[1/2, 1/2, 1/2]]" "length [[1/2::real, 1/2, 1/2], [1/2, 1/2, 1/2], [1/2, 1/2, 1/2]] < 10"
    "lam_mu (pp_lam (demo_pp 1)) \<le> HawkesLam_upper_bound (pp_lam (demo_pp 1))"
    "HawkesLam_value (pp_lam (demo_pp 1)) (hd [1/2::real, 1/2, 1/2]) [hd [1/2::real, 1/2, 1/2]] (tl [1/2::real, 1/2, 1/2]) [tl [1/2::real, 1/2, 1/2]] = Inr 1"
    "1 \<le> HawkesLam_upper_bound (pp_lam (demo_pp 1))"
    by (simp_all add: demo_pp_def HawkesLam_init_def HawkesLam_upper_bound_def HawkesLam_value_def
        StdDiffusionKernel_init_def StdDiffusionKernel_nu_def pairwise_nu_def StdDiffusionKernel_val_def)
  from inhomogeneous_poisson_thinning_zero_division[OF h, of demo_rng 0] h show ?thesis by simp
qed

theorem inhomogeneous_poisson_thinning_short_rows_witness:
  "0 < kernel_components (lam_kernel (pp_lam (demo_pp 10))) \<and>
   lam_mu (pp_lam (demo_pp 10)) \<le> HawkesLam_upper_bound (pp_lam (demo_pp 10)) \<and>
   fst (np_uniform demo_rng 0 1 0) * HawkesLam_upper_bound (pp_lam (demo_pp 10)) \<le> lam_mu (pp_lam (demo_pp 10)) \<and>
   length (tl [1/2::real]) < 2 \<and>
   fst (inhomogeneous_poisson_thinning (demo_pp 10) demo_rng [[1/4], [1/2], [3/4]] False 0) = Inl IndexError"
proof -
  have h: "0 < kernel_components (lam_kernel (pp_lam (demo_pp 10)))"
    "lam_mu (pp_lam (demo_pp 10)) \<le> HawkesLam_upper_bound (pp_lam (demo_pp 10))"
    "fst (np_uniform demo_rng 0 1 0) * HawkesLam_upper_bound (pp_lam (demo_pp 10)) \<le> lam_mu (pp_lam (demo_pp 10))"
    "length (tl [1/2::real]) < 2"
    by (simp_all add: demo_pp_def HawkesLam_init_def HawkesLam_upper_bound_def demo_rng_def np_uniform_def)
  from inhomogeneous_poisson_thinning_short_rows[OF h, of "[1/4]" "[[3/4]]"] h show ?thesis by simp
qed


theorem homogeneous_poisson_sampling_transpose_roundtrip_witness:
  "homogeneous_poisson_sampling demo_rng (demo_pp 1) (0, 1) [(0, 1), (0, 1)] 0 =
     (Inr [[1/2, 1/2, 1/2], [1/2, 1/2, 1/2], [1/2, 1/2, 1/2]], 10) \<and>
   (\<exists>N g1 cols js. draw_columns demo_rng [(0, 1), (0, 1), (0, 1)] N g1 = (cols, 10) \<and> mset js = mset [0..<N] \<and>
      [[1/2, 1/2, 1/2], [1/2, 1/2, 1/2], [1/2, 1/2, 1/2]] = map (\<lambda>j. map (\<lambda>c. c ! j) cols) js \<and>
      (0 < N \<longrightarrow> transpose [[1/2::real, 1/2, 1/2], [1/2, 1/2, 1/2], [1/2, 1/2, 1/2]] = map (\<lambda>c. map (\<lambda>j. c ! j) js) cols))"
  using homogeneous_poisson_sampling_transpose_roundtrip[OF demo_homogeneous_value] demo_homogeneous_value
  by simp

end
