(* ===== verification/Ogata.thy ===== *)
theory Ogata
  imports Sampler
begin

text \<open>
  Ogata's thinning as a specification of \<open>_inhomogeneous_poisson_thinning\<close>
  (\<^verbatim>\<open>src/stppg.py\<close>, lines 230--275), for every outcome of the code. The relation
  \<open>thin_run\<close> of \<open>Sampler\<close> is a function of the candidates and the draws
  (\<open>thin_run_det\<close>); the code follows it candidate by candidate on the draws it takes
  (\<open>thinning_loop_prefix\<close>). The theorems: the code discards a sequence (\<open>None\<close>)
  exactly when the contract's run reaches a candidate whose intensity exceeds the bound;
  the only exceptions it raises are \<open>ZeroDivisionError\<close> of the verbose progress test and
  \<open>IndexError\<close> of an invalid kernel or a short row; for every exciting Gaussian kernel,
  whatever the declared bound, two time-ordered candidates make it discard the
  sequence; the first retained event is the first candidate whose acceptance test
  against the background rate passed (spec property 7); with background rate 0 no event
  is ever retained. None of them assumes that the intensity respects its bound.
\<close>

section \<open>Definitions\<close>

text \<open>A random source whose uniform draws are never exactly 0.\<close>

definition rng_pos :: "'g rng \<Rightarrow> bool" where
  "rng_pos rng \<longleftrightarrow> (\<forall>g. 0 < fst (rng_random rng g))"

text \<open>
  A process with an exciting kernel (\<open>C = 1\<close>), background rate 1 and declared bound 2,
  at which the bound-violation theorem is instantiated.
\<close>

definition demo_pp_excite :: SpatialTemporalPointProcess where
  "demo_pp_excite = \<lparr>pp_lam = HawkesLam_init 1 (GaussianDiffusion (GaussianDiffusionKernel_init 0 0 1 1 0 1 1)) 2\<rparr>"

section \<open>The contract is a total function of the draws\<close>

inductive_cases thin_run_NilE: "thin_run lam [] ds retained r"
inductive_cases thin_run_ConsConsE: "thin_run lam (p # ps) (D # ds) retained r"

lemma thin_run_length: "thin_run lam ps ds retained r \<Longrightarrow> length ds = length ps"
  by (induction rule: thin_run.induct) simp_all

lemma thin_run_det:
  "thin_run lam ps ds retained r \<Longrightarrow> thin_run lam ps ds retained r' \<Longrightarrow> r' = r"
proof (induction arbitrary: r' rule: thin_run.induct)
  case (thin_done lam retained)
  then show ?case by (auto elim: thin_run_NilE)
next
  case (thin_keep lam p retained v D ps ds r)
  from thin_keep.prems show ?case
  proof (rule thin_run_ConsConsE)
    assume "thin_run lam ps ds (retained @ [p]) r'"
    then show "r' = r" by (rule thin_keep.IH)
  next
    fix v' assume "HawkesLam_value lam (hd p) (map hd retained) (tl p) (map tl retained) = Inr v'"
      and "v' < D * HawkesLam_upper_bound lam"
    with thin_keep.hyps(1,3) show "r' = r" by simp
  qed
next
  case (thin_drop lam p retained v D ps ds r)
  from thin_drop.prems show ?case
  proof (rule thin_run_ConsConsE)
    fix v' assume "HawkesLam_value lam (hd p) (map hd retained) (tl p) (map tl retained) = Inr v'"
      and "D * HawkesLam_upper_bound lam \<le> v'"
    with thin_drop.hyps(1,3) show "r' = r" by simp
  next
    assume "thin_run lam ps ds retained r'"
    then show "r' = r" by (rule thin_drop.IH)
  qed
qed

lemma thin_run_first:
  "thin_run lam ps ds [] (r0 # rs) \<Longrightarrow>
   \<exists>k. k < length ps \<and> ps ! k = r0 \<and> ds ! k * HawkesLam_upper_bound lam \<le> lam_mu lam \<and>
       list_all (\<lambda>D. lam_mu lam < D * HawkesLam_upper_bound lam) (take k ds)"
proof (induction ps arbitrary: ds)
  case Nil
  then show ?case by (auto elim: thin_run_NilE)
next
  case (Cons p ps)
  from Cons.prems obtain D ds' where ds: "ds = D # ds'"
    using thin_run_length by (cases ds) fastforce+
  from Cons.prems[unfolded ds] show ?case
  proof (rule thin_run_ConsConsE)
    fix v assume "HawkesLam_value lam (hd p) (map hd []) (tl p) (map tl []) = Inr v"
      and acc: "D * HawkesLam_upper_bound lam \<le> v" and run: "thin_run lam ps ds' ([] @ [p]) (r0 # rs)"
    then have "v = lam_mu lam" by simp
    moreover from thin_run_subseq[OF run] have "r0 = p" by auto
    ultimately show ?thesis using acc ds by (intro exI[of _ 0]) simp
  next
    fix v assume "HawkesLam_value lam (hd p) (map hd []) (tl p) (map tl []) = Inr v"
      and rej: "v < D * HawkesLam_upper_bound lam" and run: "thin_run lam ps ds' [] (r0 # rs)"
    then have rejD: "lam_mu lam < D * HawkesLam_upper_bound lam" by simp
    from Cons.IH[OF run] obtain k where "k < length ps" "ps ! k = r0"
      "ds' ! k * HawkesLam_upper_bound lam \<le> lam_mu lam"
      "list_all (\<lambda>D. lam_mu lam < D * HawkesLam_upper_bound lam) (take k ds')" by blast
    with rejD ds show ?thesis by (intro exI[of _ "Suc k"]) simp
  qed
qed

lemma np_uniform_n_pos:
  "rng_pos rng \<Longrightarrow> np_uniform_n rng 0 1 n g = (ds, g') \<Longrightarrow> list_all (\<lambda>D. 0 < D) ds"
proof (induction n arbitrary: g ds)
  case 0
  then show ?case by simp
next
  case (Suc n)
  then show ?case
    by (auto simp: np_uniform_def rng_pos_def Let_def split: prod.splits)
       (metis fst_conv)
qed

lemma thinning_loop_zero_background:
  assumes "lam_mu (pp_lam pp) = 0" and "0 < HawkesLam_upper_bound (pp_lam pp)" and "rng_pos rng"
  shows "fst (thinning_loop pp rng False n i ps [] g) = Inr (Some [])"
proof (induction ps arbitrary: i g)
  case Nil
  then show ?case by simp
next
  case (Cons p ps)
  obtain D g1 where D: "np_uniform rng 0 1 g = (D, g1)" by fastforce
  with assms(3) have "0 < D" unfolding rng_pos_def np_uniform_def
    by (auto split: prod.splits) (metis fst_conv)
  with assms(1,2) have "\<not> D * HawkesLam_upper_bound (pp_lam pp) \<le> 0" by (simp add: not_le)
  with assms(1,2) D Cons.IH[of "Suc i" g1] show ?case by (simp add: Let_def)
qed

lemma inhomogeneous_poisson_thinning_zero_background:
  assumes "lam_mu (pp_lam pp) = 0" and "0 < HawkesLam_upper_bound (pp_lam pp)" and "rng_pos rng"
  shows "fst (inhomogeneous_poisson_thinning pp rng homo_points False g) = Inr (Some [])"
  using thinning_loop_zero_background[OF assms] by (simp add: inhomogeneous_poisson_thinning_def)

lemma demo_rng_pos: "rng_pos demo_rng"
  by (simp add: rng_pos_def demo_rng_def)

section \<open>The code on each outcome\<close>

text \<open>
  On a prefix of the candidates that the contract runs through, the loop does what the
  contract does: it arrives at the rest with the contract's retained rows and the
  generator state after one draw per candidate.
\<close>

lemma thinning_loop_prefix:
  "thin_run lam pre ds retained r \<Longrightarrow> lam = pp_lam pp \<Longrightarrow> ds = fst (np_uniform_n rng 0 1 (length pre) g) \<Longrightarrow>
   \<not> verbose \<or> n div 10 \<noteq> 0 \<Longrightarrow>
   thinning_loop pp rng verbose n i (pre @ rest) retained g =
   thinning_loop pp rng verbose n (i + length pre) rest r (snd (np_uniform_n rng 0 1 (length pre) g))"
proof (induction arbitrary: i g rule: thin_run.induct)
  case (thin_done lam retained)
  then show ?case by simp
next
  case (thin_keep lam p retained v D ps ds r)
  obtain D' g1 where D': "np_uniform rng 0 1 g = (D', g1)" by fastforce
  from thin_keep.prems(2) D' have D: "D = D'" and ds: "ds = fst (np_uniform_n rng 0 1 (length ps) g1)"
    by (simp_all add: split_def Let_def)
  have "thinning_loop pp rng verbose n i ((p # ps) @ rest) retained g =
        thinning_loop pp rng verbose n (Suc i) (ps @ rest) (retained @ [p]) g1"
    using thin_keep.hyps(1-3) thin_keep.prems(1,3) D D' by (auto simp: Let_def)
  with thin_keep.IH[OF thin_keep.prems(1) ds thin_keep.prems(3), of "Suc i"] D'
  show ?case by (simp add: split_def Let_def)
next
  case (thin_drop lam p retained v D ps ds r)
  obtain D' g1 where D': "np_uniform rng 0 1 g = (D', g1)" by fastforce
  from thin_drop.prems(2) D' have D: "D = D'" and ds: "ds = fst (np_uniform_n rng 0 1 (length ps) g1)"
    by (simp_all add: split_def Let_def)
  have "thinning_loop pp rng verbose n i ((p # ps) @ rest) retained g =
        thinning_loop pp rng verbose n (Suc i) (ps @ rest) retained g1"
    using thin_drop.hyps(1-3) thin_drop.prems(1,3) D D' by (auto simp: Let_def)
  with thin_drop.IH[OF thin_drop.prems(1) ds thin_drop.prems(3), of "Suc i"] D'
  show ?case by (simp add: split_def Let_def)
qed

lemma thinning_loop_None:
  "fst (thinning_loop pp rng verbose n i ps retained g) = Inr None \<Longrightarrow>
   \<exists>pre p post r v. ps = pre @ p # post \<and>
     thin_run (pp_lam pp) pre (fst (np_uniform_n rng 0 1 (length pre) g)) retained r \<and>
     HawkesLam_value (pp_lam pp) (hd p) (map hd r) (tl p) (map tl r) = Inr v \<and> HawkesLam_upper_bound (pp_lam pp) < v"
proof (induction ps arbitrary: i retained g)
  case Nil
  then show ?case by simp
next
  case (Cons p ps)
  obtain v where v: "HawkesLam_value (pp_lam pp) (hd p) (map hd retained) (tl p) (map tl retained) = Inr v"
    using Cons.prems by (auto simp: Let_def split: sum.splits)
  obtain D g1 where D: "np_uniform rng 0 1 g = (D, g1)" by fastforce
  show ?case
  proof (cases "HawkesLam_upper_bound (pp_lam pp) < v")
    case True
    have "thin_run (pp_lam pp) [] (fst (np_uniform_n rng 0 1 (length ([]::points)) g)) retained retained"
      by (simp add: thin_done)
    moreover have "p # ps = [] @ p # ps" by simp
    ultimately show ?thesis using v True by blast
  next
    case False
    then have le: "v \<le> HawkesLam_upper_bound (pp_lam pp)" by simp
    let ?r' = "if D * HawkesLam_upper_bound (pp_lam pp) \<le> v then retained @ [p] else retained"
    from Cons.prems v D False have rec: "fst (thinning_loop pp rng verbose n (Suc i) ps ?r' g1) = Inr None"
      by (auto simp: Let_def split: if_splits)
    from Cons.IH[OF rec] obtain pre q post r w where ps: "ps = pre @ q # post"
      and run: "thin_run (pp_lam pp) pre (fst (np_uniform_n rng 0 1 (length pre) g1)) ?r' r"
      and w: "HawkesLam_value (pp_lam pp) (hd q) (map hd r) (tl q) (map tl r) = Inr w"
      and viol: "HawkesLam_upper_bound (pp_lam pp) < w" by blast
    have draws: "fst (np_uniform_n rng 0 1 (length (p # pre)) g) = D # fst (np_uniform_n rng 0 1 (length pre) g1)"
      using D by (simp add: split_def Let_def)
    have "thin_run (pp_lam pp) (p # pre) (D # fst (np_uniform_n rng 0 1 (length pre) g1)) retained r"
    proof (cases "D * HawkesLam_upper_bound (pp_lam pp) \<le> v")
      case True
      with run show ?thesis by (simp add: thin_keep[OF v le True])
    next
      case False
      then have "v < D * HawkesLam_upper_bound (pp_lam pp)" by simp
      with run False show ?thesis by (simp add: thin_drop[OF v le])
    qed
    moreover have "p # ps = (p # pre) @ q # post" using ps by simp
    ultimately show ?thesis using draws w viol by (metis (no_types))
  qed
qed

lemma thinning_loop_Inl:
  "fst (thinning_loop pp rng verbose n i ps retained g) = Inl e \<Longrightarrow>
   (e = ZeroDivisionError \<and> verbose \<and> n div 10 = 0) \<or>
   (e = IndexError \<and> \<not> (kernel_valid (lam_kernel (pp_lam pp)) \<and> rows_xy ps))"
proof (induction ps arbitrary: i retained g)
  case Nil
  then show ?case by simp
next
  case (Cons p ps)
  show ?case
  proof (cases "HawkesLam_value (pp_lam pp) (hd p) (map hd retained) (tl p) (map tl retained)")
    case (Inl e')
    with Cons.prems have "e = e'" by simp
    with Inl have nu: "kernel_nu (lam_kernel (pp_lam pp)) (hd p) (tl p) (map hd retained) (map tl retained) = Inl e"
      by (simp add: HawkesLam_value_Inl)
    then have "e = IndexError" by (rule kernel_nu_error)
    moreover have "\<not> (kernel_valid (lam_kernel (pp_lam pp)) \<and> 2 \<le> length (tl p))"
    proof
      assume "kernel_valid (lam_kernel (pp_lam pp)) \<and> 2 \<le> length (tl p)"
      then obtain u where "kernel_nu (lam_kernel (pp_lam pp)) (hd p) (tl p) (map hd retained) (map tl retained) = Inr u"
        using kernel_nu_total by blast
      with nu show False by simp
    qed
    ultimately show ?thesis by (auto simp: rows_xy_def)
  next
    case (Inr v)
    obtain D g1 where D: "np_uniform rng 0 1 g = (D, g1)" by fastforce
    let ?r' = "if D * HawkesLam_upper_bound (pp_lam pp) \<le> v then retained @ [p] else retained"
    show ?thesis
    proof (cases "verbose \<and> i \<noteq> 0 \<and> n div 10 = 0")
      case True
      with Cons.prems Inr D show ?thesis by (auto simp: Let_def split: if_splits)
    next
      case False
      with Cons.prems Inr D have "fst (thinning_loop pp rng verbose n (Suc i) ps ?r' g1) = Inl e"
        by (auto simp: Let_def split: if_splits)
      from Cons.IH[OF this] show ?thesis by (auto simp: rows_xy_def)
    qed
  qed
qed

text \<open>
  C3: thinning discards a sequence (returns \<open>None\<close>) exactly when the contract's run
  over some prefix of the candidates, on the draws the code takes, reaches a candidate
  whose intensity against the rows retained so far exceeds \<open>upper_bound()\<close>: the bound
  check of line 260 fires on a genuine violation and on nothing else (when the progress
  test cannot divide by zero first).
\<close>

theorem inhomogeneous_poisson_thinning_None_iff:
  assumes "\<not> verbose \<or> 10 \<le> length homo_points"
  shows "fst (inhomogeneous_poisson_thinning pp rng homo_points verbose g) = Inr None \<longleftrightarrow>
    (\<exists>pre p post r v. homo_points = pre @ p # post \<and>
       thin_run (pp_lam pp) pre (fst (np_uniform_n rng 0 1 (length pre) g)) [] r \<and>
       HawkesLam_value (pp_lam pp) (hd p) (map hd r) (tl p) (map tl r) = Inr v \<and>
       HawkesLam_upper_bound (pp_lam pp) < v)"
proof
  assume "fst (inhomogeneous_poisson_thinning pp rng homo_points verbose g) = Inr None"
  then show "\<exists>pre p post r v. homo_points = pre @ p # post \<and>
       thin_run (pp_lam pp) pre (fst (np_uniform_n rng 0 1 (length pre) g)) [] r \<and>
       HawkesLam_value (pp_lam pp) (hd p) (map hd r) (tl p) (map tl r) = Inr v \<and>
       HawkesLam_upper_bound (pp_lam pp) < v"
    using thinning_loop_None[of pp rng verbose "length homo_points" 0 homo_points "[]" g]
    by (simp add: inhomogeneous_poisson_thinning_def)
next
  assume "\<exists>pre p post r v. homo_points = pre @ p # post \<and>
       thin_run (pp_lam pp) pre (fst (np_uniform_n rng 0 1 (length pre) g)) [] r \<and>
       HawkesLam_value (pp_lam pp) (hd p) (map hd r) (tl p) (map tl r) = Inr v \<and>
       HawkesLam_upper_bound (pp_lam pp) < v"
  then obtain pre p post r v where hp: "homo_points = pre @ p # post"
    and run: "thin_run (pp_lam pp) pre (fst (np_uniform_n rng 0 1 (length pre) g)) [] r"
    and v: "HawkesLam_value (pp_lam pp) (hd p) (map hd r) (tl p) (map tl r) = Inr v"
    and viol: "HawkesLam_upper_bound (pp_lam pp) < v" by blast
  have nv: "\<not> verbose \<or> length homo_points div 10 \<noteq> 0" using assms by auto
  have "thinning_loop pp rng verbose (length homo_points) 0 homo_points [] g =
      thinning_loop pp rng verbose (length homo_points) (length pre) (p # post) r
        (snd (np_uniform_n rng 0 1 (length pre) g))"
    using thinning_loop_prefix[OF run refl refl nv, where i = 0 and rest = "p # post"] hp by simp
  moreover have "fst (thinning_loop pp rng verbose n' k (p # post) r g0) = Inr None" for n' k g0
    using v viol by (auto simp: Let_def split: prod.splits)
  ultimately show "fst (inhomogeneous_poisson_thinning pp rng homo_points verbose g) = Inr None"
    by (simp add: inhomogeneous_poisson_thinning_def)
qed

text \<open>
  C10: the exceptions of thinning: \<open>ZeroDivisionError\<close> only from the verbose progress
  test with fewer than 10 candidates, \<open>IndexError\<close> only from an invalid kernel (a short
  weight list) or a candidate without two spatial coordinates. With a valid kernel, rows
  \<open>[t, x, y, ...]\<close> and no progress printing, thinning never raises.
\<close>

theorem inhomogeneous_poisson_thinning_exceptions:
  assumes "fst (inhomogeneous_poisson_thinning pp rng homo_points verbose g) = Inl e"
  shows "(e = ZeroDivisionError \<and> verbose \<and> length homo_points < 10) \<or>
         (e = IndexError \<and> (\<not> kernel_valid (lam_kernel (pp_lam pp)) \<or> \<not> rows_xy homo_points))"
  using thinning_loop_Inl[of pp rng verbose "length homo_points" 0 homo_points "[]" g e] assms
  by (auto simp: inhomogeneous_poisson_thinning_def)

text \<open>
  C9: no declared bound is safe for an exciting Gaussian kernel (\<open>C > 0\<close>): whatever
  \<open>upper_bound()\<close> returns, for every location \<open>s\<close> and time \<open>t\<close> there is an earlier
  candidate such that thinning of the two discards the sequence whenever the first
  draw accepts the first candidate; the spec's requirement that the bound dominate the
  intensity everywhere cannot be met, since the kernel grows like \<open>1 / dt\<close>.
\<close>

theorem inhomogeneous_poisson_thinning_bound_violated:
  assumes "lam_kernel (pp_lam pp) = GaussianDiffusion k" and "gauss_ok k" and "0 < gd_C k" and "2 \<le> length s"
    and "fst (np_uniform rng 0 1 g) * HawkesLam_upper_bound (pp_lam pp) \<le> lam_mu (pp_lam pp)"
  shows "\<exists>t0 s0. t0 < t \<and> length s0 = length s \<and>
           fst (inhomogeneous_poisson_thinning pp rng [t0 # s0, t # s] verbose g) = Inr None"
proof -
  obtain ht hs v where ht: "ht < t" and hs: "length hs = length s"
    and v: "HawkesLam_value (pp_lam pp) t [ht] s [hs] = Inr v" and big: "HawkesLam_upper_bound (pp_lam pp) < v"
    using HawkesLam_value_unbounded[OF assms(1-4), of t "HawkesLam_upper_bound (pp_lam pp)"] by blast
  obtain D g1 where D: "np_uniform rng 0 1 g = (D, g1)" by fastforce
  have "fst (thinning_loop pp rng verbose (length [ht # hs, t # s]) 0 [ht # hs, t # s] [] g) = Inr None"
  proof (cases "HawkesLam_upper_bound (pp_lam pp) < lam_mu (pp_lam pp)")
    case True
    then show ?thesis by (rule thinning_loop_first_violation)
  next
    case False
    with assms(5) D have "D * HawkesLam_upper_bound (pp_lam pp) \<le> lam_mu (pp_lam pp)" by simp
    with False D v big show ?thesis by (simp add: Let_def split_def)
  qed
  with ht hs show ?thesis unfolding inhomogeneous_poisson_thinning_def by blast
qed


text \<open>
  C16: the first event of a returned sequence (spec property 7) is the first candidate,
  in the order of the time-sorted proposals, whose acceptance test against the empty
  history passed, \<open>D * lam_bar \<le> mu\<close>; every earlier candidate failed it.
\<close>

theorem inhomogeneous_poisson_thinning_first_event:
  assumes "inhomogeneous_poisson_thinning pp rng homo_points verbose g = (Inr (Some (r0 # rs)), g')"
  shows "\<exists>k. k < length homo_points \<and> homo_points ! k = r0 \<and>
           fst (np_uniform_n rng 0 1 (length homo_points) g) ! k * HawkesLam_upper_bound (pp_lam pp) \<le> lam_mu (pp_lam pp) \<and>
           list_all (\<lambda>D. lam_mu (pp_lam pp) < D * HawkesLam_upper_bound (pp_lam pp))
             (take k (fst (np_uniform_n rng 0 1 (length homo_points) g)))"
proof -
  have "thin_run (pp_lam pp) homo_points (fst (np_uniform_n rng 0 1 (length homo_points) g)) [] (r0 # rs)"
    using thinning_loop_sound[of pp rng verbose "length homo_points" 0 homo_points "[]" g "r0 # rs" g'] assms
    by (simp add: inhomogeneous_poisson_thinning_def)
  then show ?thesis by (rule thin_run_first)
qed

subsection \<open>Witnesses\<close>

theorem inhomogeneous_poisson_thinning_first_event_witness:
  "inhomogeneous_poisson_thinning (demo_pp 10) demo_rng [[1/2::real, 1/2, 1/2], [1/2, 1/2, 1/2], [1/2, 1/2, 1/2]] False 0 =
     (Inr (Some ([1/2::real, 1/2, 1/2] # [[1/2, 1/2, 1/2], [1/2, 1/2, 1/2]])), 3) \<and>
   (\<exists>k. k < 3 \<and> [[1/2::real, 1/2, 1/2], [1/2, 1/2, 1/2], [1/2, 1/2, 1/2]] ! k = [1/2, 1/2, 1/2] \<and>
      fst (np_uniform_n demo_rng 0 1 3 0) ! k * HawkesLam_upper_bound (pp_lam (demo_pp 10)) \<le> lam_mu (pp_lam (demo_pp 10)) \<and>
      list_all (\<lambda>D. lam_mu (pp_lam (demo_pp 10)) < D * HawkesLam_upper_bound (pp_lam (demo_pp 10)))
        (take k (fst (np_uniform_n demo_rng 0 1 3 0))))"
proof -
  have th: "inhomogeneous_poisson_thinning (demo_pp 10) demo_rng [[1/2::real, 1/2, 1/2], [1/2, 1/2, 1/2], [1/2, 1/2, 1/2]] False 0 =
     (Inr (Some ([1/2::real, 1/2, 1/2] # [[1/2, 1/2, 1/2], [1/2, 1/2, 1/2]])), 3)"
    using demo_thinning_all[of 0] by simp
  from inhomogeneous_poisson_thinning_first_event[OF th] th
  show ?thesis by (simp add: numeral_3_eq_3 del: np_uniform_n.simps)
qed

theorem inhomogeneous_poisson_thinning_None_iff_witness:
  "fst (inhomogeneous_poisson_thinning (demo_pp 11) demo_rng [[1/2::real, 1/2, 1/2], [1/2, 1/2, 1/2], [1/2, 1/2, 1/2]] False 0) = Inr None \<and>
   (\<exists>pre p post r v. [[1/2::real, 1/2, 1/2], [1/2, 1/2, 1/2], [1/2, 1/2, 1/2]] = pre @ p # post \<and>
      thin_run (pp_lam (demo_pp 11)) pre (fst (np_uniform_n demo_rng 0 1 (length pre) 0)) [] r \<and>
      HawkesLam_value (pp_lam (demo_pp 11)) (hd p) (map hd r) (tl p) (map tl r) = Inr v \<and>
      HawkesLam_upper_bound (pp_lam (demo_pp 11)) < v)"
proof -
  have h: "\<not> False \<or> 10 \<le> length [[1/2::real, 1/2, 1/2], [1/2, 1/2, 1/2], [1/2, 1/2, 1/2]]" by simp
  have b: "HawkesLam_upper_bound (pp_lam (demo_pp 11)) < lam_mu (pp_lam (demo_pp 11))"
    by (simp add: demo_pp_def HawkesLam_upper_bound_def HawkesLam_init_def)
  have n: "fst (inhomogeneous_poisson_thinning (demo_pp 11) demo_rng [[1/2::real, 1/2, 1/2], [1/2, 1/2, 1/2], [1/2, 1/2, 1/2]] False 0) = Inr None"
    using thinning_loop_first_violation[OF b] by (simp add: inhomogeneous_poisson_thinning_def)
  from inhomogeneous_poisson_thinning_None_iff[OF h, of "demo_pp 11" demo_rng 0] n
  show ?thesis by blast
qed

theorem inhomogeneous_poisson_thinning_exceptions_witness:
  "fst (inhomogeneous_poisson_thinning (demo_pp 1) demo_rng [[1/2::real, 1/2, 1/2], [1/2, 1/2, 1/2], [1/2, 1/2, 1/2]] True 0) = Inl ZeroDivisionError \<and>
   length [[1/2::real, 1/2, 1/2], [1/2, 1/2, 1/2], [1/2, 1/2, 1/2]] < 10"
proof -
  have b: "bounded_intensity (pp_lam (demo_pp 1))" by (rule demo_pp_bounded) simp
  have w: "rows_xy [[1/2::real, 1/2, 1/2], [1/2, 1/2, 1/2], [1/2, 1/2, 1/2]]" by (simp add: rows_xy_def)
  have z: "fst (inhomogeneous_poisson_thinning (demo_pp 1) demo_rng [[1/2::real, 1/2, 1/2], [1/2, 1/2, 1/2], [1/2, 1/2, 1/2]] True 0) = Inl ZeroDivisionError"
    using thinning_loop_zero_division_start[OF b w, of "length [[1/2::real, 1/2, 1/2], [1/2, 1/2, 1/2], [1/2, 1/2, 1/2]]" demo_rng 0]
    by (simp add: inhomogeneous_poisson_thinning_def)
  from inhomogeneous_poisson_thinning_exceptions[OF z] z show ?thesis by simp
qed

theorem inhomogeneous_poisson_thinning_bound_violated_witness:
  "lam_kernel (pp_lam demo_pp_excite) = GaussianDiffusion (GaussianDiffusionKernel_init 0 0 1 1 0 1 1) \<and>
   gauss_ok (GaussianDiffusionKernel_init 0 0 1 1 0 1 1) \<and> 0 < gd_C (GaussianDiffusionKernel_init 0 0 1 1 0 1 1) \<and>
   2 \<le> length [1/2::real, 1/2] \<and>
   fst (np_uniform demo_rng 0 1 0) * HawkesLam_upper_bound (pp_lam demo_pp_excite) \<le> lam_mu (pp_lam demo_pp_excite) \<and>
   (\<exists>t0 s0. t0 < 1 \<and> length s0 = length [1/2::real, 1/2] \<and>
      fst (inhomogeneous_poisson_thinning demo_pp_excite demo_rng [t0 # s0, 1 # [1/2, 1/2]] False 0) = Inr None)"
proof -
  have g: "gauss_ok (GaussianDiffusionKernel_init 0 0 1 1 0 1 1)" by (rule gd_unit_ok)
  have h: "lam_kernel (pp_lam demo_pp_excite) = GaussianDiffusion (GaussianDiffusionKernel_init 0 0 1 1 0 1 1)"
    "0 < gd_C (GaussianDiffusionKernel_init 0 0 1 1 0 1 1)"
    "2 \<le> length [1/2::real, 1/2]"
    "fst (np_uniform demo_rng 0 1 0) * HawkesLam_upper_bound (pp_lam demo_pp_excite) \<le> lam_mu (pp_lam demo_pp_excite)"
    by (simp_all add: demo_pp_excite_def HawkesLam_init_def gd_unit_ok GaussianDiffusionKernel_init_def
        HawkesLam_upper_bound_def np_uniform_def demo_rng_def)
  from inhomogeneous_poisson_thinning_bound_violated[OF h(1) g h(2-4), of 1 False] h g show ?thesis by blast
qed

end
