(* ===== verification/Generate.thy ===== *)
theory Generate
  imports Ogata
begin

text \<open>
  \<open>SpatialTemporalPointProcess.generate\<close> (\<^verbatim>\<open>src/stppg.py\<close>, lines 277--300): the retry
  loop that collects \<open>batch_size\<close> accepted sequences, and the packing of the sequences
  into a zero-padded array. The loop state is the record \<open>gen_state\<close>
  (\<open>points_list\<close>, \<open>sizes\<close>, \<open>max_len\<close>, \<open>b\<close>); one attempt draws proposals, thins them,
  and either discards the result (\<open>None\<close> or fewer than \<open>min_n_points\<close> rows:
  \<open>continue\<close>) or records it (\<open>gen_record\<close>). An exception of either stage ends the
  call. The loop has no retry limit, so it is a \<open>partial_function (option)\<close>: \<open>None\<close> is
  a call that never returns. The packing writes each sequence into
  \<open>np.zeros((batch_size, max_len, 3))\<close>; the width 3 is hard-coded, so a row of another
  width raises numpy's \<open>ValueError\<close> unless it has width 1, which numpy broadcasts.
  The progress message printed per sequence is not modelled.
\<close>

section \<open>Definitions\<close>

record gen_state =
  gs_points_list :: "points list"
  gs_sizes :: "nat list"
  gs_max_len :: nat
  gs_b :: nat

definition gen_init :: gen_state where
  "gen_init = \<lparr>gs_points_list = [], gs_sizes = [], gs_max_len = 0, gs_b = 0\<rparr>"

definition gen_record :: "gen_state \<Rightarrow> points \<Rightarrow> gen_state" where
  "gen_record st points =
     \<lparr>gs_points_list = gs_points_list st @ [points],
      gs_sizes = gs_sizes st @ [length points],
      gs_max_len = (if gs_max_len st < length points then length points else gs_max_len st),
      gs_b = Suc (gs_b st)\<rparr>"

partial_function (option) generate_loop ::
  "'g rng \<Rightarrow> SpatialTemporalPointProcess \<Rightarrow> interval \<Rightarrow> interval list \<Rightarrow> nat \<Rightarrow> nat \<Rightarrow> bool \<Rightarrow>
   gen_state \<Rightarrow> 'g \<Rightarrow> ((py_error + gen_state) \<times> 'g) option" where
  "generate_loop rng pp T S batch_size min_n_points verbose st g =
     (if gs_b st < batch_size then
        (case homogeneous_poisson_sampling rng pp T S g of
           (Inl e, g1) \<Rightarrow> Some (Inl e, g1)
         | (Inr homo_points, g1) \<Rightarrow>
             (case inhomogeneous_poisson_thinning pp rng homo_points verbose g1 of
                (Inl e, g2) \<Rightarrow> Some (Inl e, g2)
              | (Inr None, g2) \<Rightarrow> generate_loop rng pp T S batch_size min_n_points verbose st g2
              | (Inr (Some points), g2) \<Rightarrow>
                  (if length points < min_n_points
                   then generate_loop rng pp T S batch_size min_n_points verbose st g2
                   else generate_loop rng pp T S batch_size min_n_points verbose (gen_record st points) g2)))
      else Some (Inr st, g))"

text \<open>
  \<open>data[b, :len(points)] = points_list[b]\<close> into a zero array of row width 3: one
  sequence's slab of \<open>max_len\<close> rows. \<open>w\<close> is the width of the sequence's rows
  (\<open>1 + len(S)\<close>, also for an empty sequence).
\<close>

definition pack_sequence :: "nat \<Rightarrow> nat \<Rightarrow> points \<Rightarrow> py_error + points" where
  "pack_sequence w max_len points =
     (if w = 3 then Inr (points @ replicate (max_len - length points) [0, 0, 0])
      else if w = 1 then Inr (map (\<lambda>r. replicate 3 (hd r)) points @ replicate (max_len - length points) [0, 0, 0])
      else Inl ValueError)"

fun pack_loop :: "nat \<Rightarrow> nat \<Rightarrow> points list \<Rightarrow> py_error + points list" where
  "pack_loop w max_len [] = Inr []"
| "pack_loop w max_len (points # pl) =
     (case pack_sequence w max_len points of
        Inl e \<Rightarrow> Inl e
      | Inr slab \<Rightarrow> (case pack_loop w max_len pl of Inl e \<Rightarrow> Inl e | Inr rest \<Rightarrow> Inr (slab # rest)))"

definition generate ::
  "'g rng \<Rightarrow> SpatialTemporalPointProcess \<Rightarrow> interval \<Rightarrow> interval list \<Rightarrow> nat \<Rightarrow> nat \<Rightarrow> bool \<Rightarrow> 'g \<Rightarrow>
   ((py_error + points list \<times> nat list) \<times> 'g) option" where
  "generate rng pp T S batch_size min_n_points verbose g =
     (case generate_loop rng pp T S batch_size min_n_points verbose gen_init g of
        None \<Rightarrow> None
      | Some (Inl e, g') \<Rightarrow> Some (Inl e, g')
      | Some (Inr st, g') \<Rightarrow>
          (case pack_loop (Suc (length S)) (gs_max_len st) (gs_points_list st) of
             Inl e \<Rightarrow> Some (Inl e, g')
           | Inr data \<Rightarrow> Some (Inr (data, gs_sizes st), g')))"

text \<open>The loop's invariant: the bookkeeping fields agree with the recorded sequences.\<close>

definition gen_inv :: "nat \<Rightarrow> gen_state \<Rightarrow> bool" where
  "gen_inv min_n_points st \<longleftrightarrow>
     gs_b st = length (gs_points_list st) \<and>
     gs_sizes st = map length (gs_points_list st) \<and>
     gs_max_len st = foldr max (map length (gs_points_list st)) 0 \<and>
     list_all (\<lambda>points. min_n_points \<le> length points) (gs_points_list st)"

text \<open>A recorded sequence: time-sorted rows of width \<open>1 + len(S)\<close>.\<close>

definition seq_ok :: "interval list \<Rightarrow> points \<Rightarrow> bool" where
  "seq_ok S points \<longleftrightarrow> sorted (map hd points) \<and> list_all (\<lambda>r. length r = Suc (length S)) points"

text \<open>
  The interface between one attempt and the retry loop: \<open>attempts_ok ... Q\<close> says that
  every sequence an attempt can accept (proposals, then thinning) satisfies \<open>Q\<close>; the loop
  then records only sequences satisfying \<open>Q\<close>.
\<close>

definition attempts_ok ::
  "'g rng \<Rightarrow> SpatialTemporalPointProcess \<Rightarrow> interval \<Rightarrow> interval list \<Rightarrow> bool \<Rightarrow> (points \<Rightarrow> bool) \<Rightarrow> bool" where
  "attempts_ok rng pp T S verbose Q \<longleftrightarrow>
     (\<forall>g homo_points g1 points g2.
        homogeneous_poisson_sampling rng pp T S g = (Inr homo_points, g1) \<longrightarrow>
        inhomogeneous_poisson_thinning pp rng homo_points verbose g1 = (Inr (Some points), g2) \<longrightarrow>
        Q points)"

text \<open>
  One attempt, from generator state \<open>g\<close>, that ends in \<open>continue\<close>: the proposals and
  the thinning succeed, and thinning either discards the sequence or keeps fewer than
  \<open>min_n_points\<close> rows.
\<close>

definition attempt_rejected ::
  "'g rng \<Rightarrow> SpatialTemporalPointProcess \<Rightarrow> interval \<Rightarrow> interval list \<Rightarrow> nat \<Rightarrow> bool \<Rightarrow> 'g \<Rightarrow> bool" where
  "attempt_rejected rng pp T S min_n_points verbose g \<longleftrightarrow>
     (case homogeneous_poisson_sampling rng pp T S g of
        (Inl e, g1) \<Rightarrow> False
      | (Inr homo_points, g1) \<Rightarrow>
          (case fst (inhomogeneous_poisson_thinning pp rng homo_points verbose g1) of
             Inl e \<Rightarrow> False
           | Inr None \<Rightarrow> True
           | Inr (Some points) \<Rightarrow> length points < min_n_points))"

text \<open>
  The exceptions a call of \<open>generate\<close>'s retry loop may end in, each with its cause.
\<close>

definition gen_error_ok ::
  "SpatialTemporalPointProcess \<Rightarrow> interval \<Rightarrow> interval list \<Rightarrow> bool \<Rightarrow> py_error \<Rightarrow> bool" where
  "gen_error_ok pp T S verbose e \<longleftrightarrow>
     (e = ZeroDivisionError \<and> verbose) \<or>
     (e = ValueError \<and> \<not> poisson_mean_ok (HawkesLam_upper_bound (pp_lam pp) * lebesgue_measure (T # S))) \<or>
     (e = IndexError \<and> (\<not> kernel_valid (lam_kernel (pp_lam pp)) \<or> length S < 2))"

section \<open>Properties\<close>

lemma foldr_max_init: "foldr max xs (y::nat) = max (foldr max xs 0) y"
  by (induction xs) (auto simp: max.assoc max.commute max.left_commute)

lemma gen_record_inv:
  "gen_inv min_n_points st \<Longrightarrow> min_n_points \<le> length points \<Longrightarrow> gen_inv min_n_points (gen_record st points)"
  using foldr_max_init[of "map length (gs_points_list st)" "length points"]
  by (auto simp: gen_inv_def gen_record_def max_def)

lemma attempt_seq_ok:
  assumes "homogeneous_poisson_sampling rng pp T S g = (Inr homo_points, g1)"
    and "inhomogeneous_poisson_thinning pp rng homo_points verbose g1 = (Inr (Some points), g2)"
  shows "seq_ok S points"
proof -
  from homogeneous_poisson_sampling_sorted[OF assms(1)]
  have s: "sorted (map hd homo_points)" and w: "\<forall>r\<in>set homo_points. length r = Suc (length S)" by blast+
  from inhomogeneous_poisson_thinning_sorted[OF assms(2) s]
  have "subseq points homo_points" and "sorted (map hd points)" by blast+
  moreover from \<open>subseq points homo_points\<close> have "set points \<subseteq> set homo_points"
    by (auto dest: list_emb_set)
  ultimately show ?thesis using w by (auto simp: seq_ok_def list_all_iff)
qed

lemma pack_loop_3:
  "pack_loop 3 max_len pl = Inr (map (\<lambda>p. p @ replicate (max_len - length p) [0, 0, 0]) pl)"
  by (induction pl) (simp_all add: pack_sequence_def)

lemma foldr_max_ge: "x \<in> set xs \<Longrightarrow> x \<le> foldr max xs (0::nat)"
  by (induction xs) auto

lemma generate_loop_correct:
  assumes ret: "generate_loop rng pp T S batch_size min_n_points verbose st g = Some y"
  shows "attempts_ok rng pp T S verbose Q \<longrightarrow>
         (\<forall>st' g'. y = (Inr st', g') \<longrightarrow> gen_inv min_n_points st \<longrightarrow> list_all Q (gs_points_list st) \<longrightarrow>
           gs_b st \<le> batch_size \<longrightarrow>
           gen_inv min_n_points st' \<and> list_all Q (gs_points_list st') \<and> gs_b st' = batch_size)"
  apply (rule generate_loop.raw_induct[OF _ ret])
  subgoal premises prems for f rng pp T S batch_size min_n_points verbose st g y
  proof (intro impI allI)
    fix st' g'
    assume att: "attempts_ok rng pp T S verbose Q" and y: "y = (Inr st', g')"
      and inv: "gen_inv min_n_points st" and ok: "list_all Q (gs_points_list st)"
      and b: "gs_b st \<le> batch_size"
    note IH = prems(1)[rule_format, OF _ att]
    show "gen_inv min_n_points st' \<and> list_all Q (gs_points_list st') \<and> gs_b st' = batch_size"
    proof (cases "gs_b st < batch_size")
      case False
      with prems(2) y b inv ok show ?thesis by simp
    next
      case True
      obtain hr g1 where h: "homogeneous_poisson_sampling rng pp T S g = (hr, g1)" by fastforce
      show ?thesis
      proof (cases hr)
        case (Inl e)
        with prems(2) True h y show ?thesis by simp
      next
        case (Inr homo_points)
        obtain tr g2 where th: "inhomogeneous_poisson_thinning pp rng homo_points verbose g1 = (tr, g2)" by fastforce
        show ?thesis
        proof (cases tr)
          case (Inl e)
          with prems(2) True h Inr th y show ?thesis by simp
        next
          case (Inr r)
          show ?thesis
          proof (cases r)
            case None
            with prems(2) True h \<open>hr = Inr homo_points\<close> th Inr
            have "f rng pp T S batch_size min_n_points verbose st g2 = Some y" by simp
            from IH[OF this] y inv ok b show ?thesis by blast
          next
            case (Some points)
            have q: "Q points"
              using att h th \<open>hr = Inr homo_points\<close> Inr Some unfolding attempts_ok_def by blast
            show ?thesis
            proof (cases "length points < min_n_points")
              case True
              with prems(2) \<open>gs_b st < batch_size\<close> h \<open>hr = Inr homo_points\<close> th Inr Some
              have "f rng pp T S batch_size min_n_points verbose st g2 = Some y" by simp
              from IH[OF this] y inv ok b show ?thesis by blast
            next
              case False
              with prems(2) \<open>gs_b st < batch_size\<close> h \<open>hr = Inr homo_points\<close> th Inr Some
              have "f rng pp T S batch_size min_n_points verbose (gen_record st points) g2 = Some y" by simp
              moreover have "gen_inv min_n_points (gen_record st points)"
                using gen_record_inv[OF inv] False by simp
              moreover have "list_all Q (gs_points_list (gen_record st points))"
                using ok q by (simp add: gen_record_def)
              moreover have "gs_b (gen_record st points) \<le> batch_size"
                using \<open>gs_b st < batch_size\<close> by (simp add: gen_record_def)
              ultimately show ?thesis using IH y by blast
            qed
          qed
        qed
      qed
    qed
  qed
  done

lemma attempts_ok_seq_ok: "attempts_ok rng pp T S verbose (seq_ok S)"
  unfolding attempts_ok_def by (intro allI impI) (rule attempt_seq_ok)

text \<open>
  A returned batch is the packing of the loop's final state, which records
  \<open>batch_size\<close> sequences satisfying the loop invariant and the attempts' property.
\<close>

lemma generate_loop_final:
  assumes "generate_loop rng pp T S batch_size min_n_points verbose gen_init g = Some (Inr st, g')"
    and "attempts_ok rng pp T S verbose Q"
  shows "length (gs_points_list st) = batch_size \<and> gs_sizes st = map length (gs_points_list st) \<and>
    gs_max_len st = foldr max (gs_sizes st) 0 \<and> list_all Q (gs_points_list st) \<and>
    list_all (\<lambda>p. min_n_points \<le> length p) (gs_points_list st)"
proof -
  have init: "gen_inv min_n_points gen_init" "list_all Q (gs_points_list gen_init)" "gs_b gen_init \<le> batch_size"
    by (simp_all add: gen_inv_def gen_init_def)
  from generate_loop_correct[OF assms(1)] assms(2) init
  have "gen_inv min_n_points st" and "list_all Q (gs_points_list st)" and "gs_b st = batch_size" by blast+
  then show ?thesis by (simp add: gen_inv_def)
qed

lemma generate_Inr_state:
  assumes "generate rng pp T S batch_size min_n_points verbose g = Some (Inr (data, sizes), g')"
  obtains st where "generate_loop rng pp T S batch_size min_n_points verbose gen_init g = Some (Inr st, g')"
    and "pack_loop (Suc (length S)) (gs_max_len st) (gs_points_list st) = Inr data" and "sizes = gs_sizes st"
  using assms by (auto simp: generate_def split: option.splits sum.splits prod.splits)

lemma generate_batch:
  assumes "generate rng pp T S batch_size min_n_points verbose g = Some (Inr (data, sizes), g')"
    and "length S = 2" and "attempts_ok rng pp T S verbose Q"
  shows "\<exists>pl. length pl = batch_size \<and> sizes = map length pl \<and> list_all Q pl \<and>
           list_all (\<lambda>p. min_n_points \<le> length p) pl \<and>
           data = map (\<lambda>p. p @ replicate (foldr max sizes 0 - length p) [0, 0, 0]) pl"
proof -
  obtain st where loop: "generate_loop rng pp T S batch_size min_n_points verbose gen_init g = Some (Inr st, g')"
    and pack: "pack_loop (Suc (length S)) (gs_max_len st) (gs_points_list st) = Inr data"
    and sz: "sizes = gs_sizes st"
    using generate_Inr_state[OF assms(1)] by blast
  let ?pl = "gs_points_list st"
  note fin = generate_loop_final[OF loop assms(3)]
  from assms(2) have "Suc (length S) = 3" by simp
  with pack fin sz have data: "data = map (\<lambda>p. p @ replicate (foldr max sizes 0 - length p) [0, 0, 0]) ?pl"
    by (simp only: pack_loop_3) simp
  show ?thesis
    using fin sz data by (intro exI[of _ ?pl]) simp
qed

text \<open>
  C4: shape of \<open>generate\<close>'s result (two spatial dimensions): exactly
  \<open>batch_size\<close> recorded sequences, each time-sorted with rows \<open>[t, x, y]\<close> and at least
  \<open>min_n_points\<close> rows; \<open>sizes\<close> holds their true lengths and \<open>data\<close> pads each with
  zero rows up to the longest, so every slab has \<open>max(sizes)\<close> rows of width 3.
\<close>

theorem generate_shape:
  assumes "generate rng pp T S batch_size min_n_points verbose g = Some (Inr (data, sizes), g')"
    and "length S = 2"
  shows "\<exists>pl. length pl = batch_size \<and> sizes = map length pl \<and> list_all (seq_ok S) pl \<and>
           list_all (\<lambda>p. min_n_points \<le> length p) pl \<and>
           data = map (\<lambda>p. p @ replicate (foldr max sizes 0 - length p) [0, 0, 0]) pl \<and>
           list_all (\<lambda>slab. length slab = foldr max sizes 0 \<and> list_all (\<lambda>r. length r = 3) slab) data"
proof -
  from generate_batch[OF assms attempts_ok_seq_ok] obtain pl where
    pl: "length pl = batch_size" "sizes = map length pl" "list_all (seq_ok S) pl"
      "list_all (\<lambda>p. min_n_points \<le> length p) pl"
      and data: "data = map (\<lambda>p. p @ replicate (foldr max sizes 0 - length p) [0, 0, 0]) pl"
    by blast
  have "list_all (\<lambda>slab. length slab = foldr max sizes 0 \<and> list_all (\<lambda>r. length r = 3) slab) data"
    using pl(2,3) assms(2) foldr_max_ge[of _ sizes] unfolding data
    by (auto simp: list_all_iff seq_ok_def)
  with pl data show ?thesis by blast
qed

lemma generate_loop_stuck:
  assumes ret: "generate_loop rng pp T S batch_size min_n_points verbose st g = Some y"
  shows "(\<forall>g. attempt_rejected rng pp T S min_n_points verbose g) \<longrightarrow> batch_size \<le> gs_b st"
  apply (rule generate_loop.raw_induct[OF _ ret])
  subgoal premises prems for f rng pp T S batch_size min_n_points verbose st g y
  proof (intro impI)
    assume rej: "\<forall>g. attempt_rejected rng pp T S min_n_points verbose g"
    show "batch_size \<le> gs_b st"
    proof (rule ccontr)
      assume "\<not> batch_size \<le> gs_b st"
      then have lt: "gs_b st < batch_size" by simp
      obtain hr g1 where h: "homogeneous_poisson_sampling rng pp T S g = (hr, g1)" by fastforce
      with rej obtain homo_points where hr: "hr = Inr homo_points"
        by (cases hr) (auto simp: attempt_rejected_def dest: spec[of _ g])
      obtain tr g2 where th: "inhomogeneous_poisson_thinning pp rng homo_points verbose g1 = (tr, g2)" by fastforce
      from rej have "attempt_rejected rng pp T S min_n_points verbose g" ..
      with h hr th have "case tr of Inl e \<Rightarrow> False | Inr None \<Rightarrow> True
          | Inr (Some points) \<Rightarrow> length points < min_n_points"
        by (simp add: attempt_rejected_def)
      then have "tr = Inr None \<or> (\<exists>points. tr = Inr (Some points) \<and> length points < min_n_points)"
        by (auto split: sum.splits option.splits)
      with prems(2) lt h hr th have retry: "f rng pp T S batch_size min_n_points verbose st g2 = Some y" by auto
      from prems(1)[OF retry] rej lt show False by simp
    qed
  qed
  done

lemma generate_None_if_rejected:
  assumes "\<forall>g. attempt_rejected rng pp T S min_n_points verbose g" and "0 < batch_size"
  shows "generate rng pp T S batch_size min_n_points verbose g = None"
proof (cases "generate_loop rng pp T S batch_size min_n_points verbose gen_init g")
  case None
  then show ?thesis by (simp add: generate_def)
next
  case (Some y)
  from generate_loop_stuck[OF Some] assms have "batch_size \<le> gs_b gen_init" by blast
  with assms(2) show ?thesis by (simp add: gen_init_def)
qed

text \<open>
  The exceptions that escape the retry loop: the proposal stage's \<open>ValueError\<close> for a
  Poisson mean numpy rejects, and the thinning stage's \<open>ZeroDivisionError\<close> (verbose
  progress test) and \<open>IndexError\<close> (an invalid kernel, or a region of fewer than two
  spatial dimensions, whose proposals lack the coordinate \<open>y\<close>).
\<close>

lemma attempt_thinning_Inl:
  assumes "homogeneous_poisson_sampling rng pp T S g = (Inr homo_points, g1)"
    and "inhomogeneous_poisson_thinning pp rng homo_points verbose g1 = (Inl e, g2)"
  shows "gen_error_ok pp T S verbose e"
proof -
  from assms(2) thinning_loop_Inl[of pp rng verbose "length homo_points" 0 homo_points "[]" g1 e]
  have "(e = ZeroDivisionError \<and> verbose) \<or>
        (e = IndexError \<and> \<not> (kernel_valid (lam_kernel (pp_lam pp)) \<and> rows_xy homo_points))"
    by (auto simp: inhomogeneous_poisson_thinning_def)
  moreover have "2 \<le> length S \<Longrightarrow> rows_xy homo_points"
    by (rule homogeneous_poisson_sampling_rows_xy[OF assms(1)])
  ultimately show ?thesis unfolding gen_error_ok_def by (auto simp: not_le)
qed

lemma generate_loop_Inl:
  assumes ret: "generate_loop rng pp T S batch_size min_n_points verbose st g = Some y"
  shows "\<forall>e g'. y = (Inl e, g') \<longrightarrow> gen_error_ok pp T S verbose e"
  apply (rule generate_loop.raw_induct[OF _ ret])
  subgoal premises prems for f rng pp T S batch_size min_n_points verbose st g y
  proof (intro allI impI)
    fix e g' assume y: "y = (Inl e, g')"
    obtain hr g1 where h: "homogeneous_poisson_sampling rng pp T S g = (hr, g1)" by fastforce
    show "gen_error_ok pp T S verbose e"
    proof (cases "gs_b st < batch_size")
      case False
      with prems(2) y show ?thesis by simp
    next
      case True
      show ?thesis
      proof (cases hr)
        case (Inl e')
        with prems(2) True h y have "e = e'" by simp
        with Inl h homogeneous_poisson_sampling_Inl[of rng pp T S g e'] show ?thesis
          by (simp add: gen_error_ok_def)
      next
        case (Inr homo_points)
        obtain tr g2 where th: "inhomogeneous_poisson_thinning pp rng homo_points verbose g1 = (tr, g2)" by fastforce
        show ?thesis
        proof (cases tr)
          case (Inl e')
          with prems(2) True h Inr th y have "e = e'" by simp
          with attempt_thinning_Inl[of rng pp T S g homo_points g1 verbose e' g2] h Inr th Inl show ?thesis by simp
        next
          case (Inr r)
          with prems(2) True h \<open>hr = Inr homo_points\<close> th
          have "\<exists>st'. f rng pp T S batch_size min_n_points verbose st' g2 = Some y"
            by (auto split: option.splits if_splits)
          with prems(1) y show ?thesis by blast
        qed
      qed
    qed
  qed
  done

lemma attempt_rejected_violation:
  assumes "HawkesLam_upper_bound (pp_lam pp) < lam_mu (pp_lam pp)"
    and "poisson_mean_ok (HawkesLam_upper_bound (pp_lam pp) * lebesgue_measure (T # S))" and "0 < min_n_points"
  shows "attempt_rejected rng pp T S min_n_points verbose g"
proof -
  obtain homo_points g1 where h: "homogeneous_poisson_sampling rng pp T S g = (Inr homo_points, g1)"
    using homogeneous_poisson_sampling_Inr_exists[OF assms(2), where rng = rng and g = g] by blast
  show ?thesis
  proof (cases homo_points)
    case Nil
    with h assms(3) show ?thesis
      by (simp add: attempt_rejected_def inhomogeneous_poisson_thinning_def)
  next
    case (Cons p ps)
    from thinning_loop_first_violation[OF assms(1), of rng verbose "length homo_points" 0 p ps g1] h Cons
    show ?thesis by (simp add: attempt_rejected_def inhomogeneous_poisson_thinning_def)
  qed
qed

lemma attempt_rejected_zero_background:
  assumes "lam_mu (pp_lam pp) = 0" and "0 < HawkesLam_upper_bound (pp_lam pp)" and "rng_pos rng"
    and "poisson_mean_ok (HawkesLam_upper_bound (pp_lam pp) * lebesgue_measure (T # S))" and "0 < min_n_points"
  shows "attempt_rejected rng pp T S min_n_points False g"
proof -
  from homogeneous_poisson_sampling_Inr_exists[OF assms(4), where rng = rng and g = g]
  obtain homo_points g1 where h: "homogeneous_poisson_sampling rng pp T S g = (Inr homo_points, g1)" by blast
  from inhomogeneous_poisson_thinning_zero_background[OF assms(1-3), of homo_points g1] h assms(5)
  show ?thesis by (simp add: attempt_rejected_def)
qed

text \<open>
  C8: \<open>generate\<close> has no retry limit. When the background rate exceeds the declared
  bound, every attempt is discarded (the first candidate violates the bound, or there is
  no candidate and too few points), and \<open>generate\<close> never returns: the model's value is
  \<open>None\<close> for every random source.
\<close>

theorem generate_hangs:
  assumes "HawkesLam_upper_bound (pp_lam pp) < lam_mu (pp_lam pp)"
    and "poisson_mean_ok (HawkesLam_upper_bound (pp_lam pp) * lebesgue_measure (T # S))"
    and "0 < min_n_points" and "0 < batch_size"
  shows "generate rng pp T S batch_size min_n_points verbose g = None"
  using generate_None_if_rejected[OF allI[OF attempt_rejected_violation[OF assms(1-3)]] assms(4)] .

text \<open>
  C17: the concrete scenario of spec property 7 (background rate 0, a positive bound,
  \<open>min_n_points = 1\<close>) never produces an event: with the history empty the intensity is
  \<open>mu = 0\<close>, so a candidate is kept only for a uniform draw of exactly 0. With a random
  source whose draws are positive and progress printing off, \<open>generate\<close> never returns.
\<close>

theorem generate_zero_background_hangs:
  assumes "lam_mu (pp_lam pp) = 0" and "0 < HawkesLam_upper_bound (pp_lam pp)" and "rng_pos rng"
    and "poisson_mean_ok (HawkesLam_upper_bound (pp_lam pp) * lebesgue_measure (T # S))" and "0 < min_n_points" and "0 < batch_size"
  shows "generate rng pp T S batch_size min_n_points False g = None"
  using generate_None_if_rejected[OF allI[OF attempt_rejected_zero_background[OF assms(1-5)]] assms(6)] .

text \<open>
  C14: with the default \<open>verbose=True\<close>, \<open>generate\<close> raises \<open>ZeroDivisionError\<close> as soon as
  an attempt draws between 2 and 9 proposals. It is stated for an intensity that respects
  its bound everywhere (\<open>bounded_intensity\<close>, which only kernels that do not excite
  satisfy); C12 shows the same crash for any kernel at the level of thinning.
\<close>

theorem generate_verbose_zero_division:
  assumes "bounded_intensity (pp_lam pp)"
    and "poisson_mean_ok (HawkesLam_upper_bound (pp_lam pp) * lebesgue_measure (T # S))" and "0 < batch_size"
    and "2 \<le> length S"
    and "2 \<le> fst (rng_poisson rng g (HawkesLam_upper_bound (pp_lam pp) * lebesgue_measure (T # S)))"
    and "fst (rng_poisson rng g (HawkesLam_upper_bound (pp_lam pp) * lebesgue_measure (T # S))) < 10"
  shows "\<exists>g'. generate rng pp T S batch_size min_n_points True g = Some (Inl ZeroDivisionError, g')"
proof -
  obtain homo_points g1 where h: "homogeneous_poisson_sampling rng pp T S g = (Inr homo_points, g1)"
    using homogeneous_poisson_sampling_Inr_exists[OF assms(2), where rng = rng and g = g] by blast
  from homogeneous_poisson_sampling_length[OF h] assms(2)
  have len: "length homo_points = fst (rng_poisson rng g (HawkesLam_upper_bound (pp_lam pp) * lebesgue_measure (T # S)))"
    by (auto simp: np_poisson_def poisson_mean_ok_def split: prod.splits if_splits)
  with assms(5) obtain p0 p1 ps where homo: "homo_points = p0 # p1 # ps"
    by (cases homo_points; cases "tl homo_points") auto
  from len assms(6) have "length homo_points div 10 = 0" by simp
  from thinning_loop_zero_division_start[OF assms(1) _ this, of p0 p1 ps rng g1] homo
    homogeneous_poisson_sampling_rows_xy[OF h assms(4)]
  obtain g2 where "inhomogeneous_poisson_thinning pp rng homo_points True g1 = (Inl ZeroDivisionError, g2)"
    by (cases "inhomogeneous_poisson_thinning pp rng homo_points True g1") (simp add: inhomogeneous_poisson_thinning_def)
  with h assms(3) show ?thesis
    by (simp add: generate_def generate_loop.simps gen_init_def)
qed

subsection \<open>Witnesses\<close>

lemma demo_homogeneous_value_10:
  "homogeneous_poisson_sampling demo_rng (demo_pp 10) (0, 1) [(0, 1), (0, 1)] 0 = (Inr [[1/2::real, 1/2, 1/2], [1/2, 1/2, 1/2], [1/2, 1/2, 1/2]], 10)"
  by (simp add: homogeneous_poisson_sampling_def np_poisson_def lebesgue_measure_def demo_pp_def
      HawkesLam_upper_bound_def HawkesLam_init_def demo_rng_def np_uniform_def numeral_3_eq_3 Let_def)

lemma demo_generate_loop_value:
  "generate_loop demo_rng (demo_pp 10) (0, 1) [(0, 1), (0, 1)] 1 1 False gen_init 0 =
     Some (Inr (gen_record gen_init [[1/2::real, 1/2, 1/2], [1/2, 1/2, 1/2], [1/2, 1/2, 1/2]]), 13)"
  by (subst generate_loop.simps)
     (simp add: gen_init_def demo_homogeneous_value_10 demo_thinning_all gen_record_def generate_loop.simps)

lemma demo_generate_value:
  "generate demo_rng (demo_pp 10) (0, 1) [(0, 1), (0, 1)] 1 1 False 0 = Some (Inr ([[[1/2::real, 1/2, 1/2], [1/2, 1/2, 1/2], [1/2, 1/2, 1/2]]], [3]), 13)"
  using demo_generate_loop_value by (simp add: generate_def gen_record_def gen_init_def pack_sequence_def)

theorem generate_shape_witness:
  "generate demo_rng (demo_pp 10) (0, 1) [(0, 1), (0, 1)] 1 1 False 0 = Some (Inr ([[[1/2::real, 1/2, 1/2], [1/2, 1/2, 1/2], [1/2, 1/2, 1/2]]], [3]), 13) \<and>
   length [(0::real, 1::real), (0, 1)] = 2 \<and>
   (\<exists>pl. length pl = 1 \<and> [3] = map length pl \<and> list_all (seq_ok [(0, 1), (0, 1)]) pl \<and>
      list_all (\<lambda>p. 1 \<le> length p) pl \<and>
      [[[1/2::real, 1/2, 1/2], [1/2, 1/2, 1/2], [1/2, 1/2, 1/2]]] = map (\<lambda>p. p @ replicate (foldr max [3] 0 - length p) [0, 0, 0]) pl \<and>
      list_all (\<lambda>slab. length slab = foldr max [3::nat] 0 \<and> list_all (\<lambda>r. length r = 3) slab) [[[1/2::real, 1/2, 1/2], [1/2, 1/2, 1/2], [1/2, 1/2, 1/2]]])"
proof -
  have l: "length [(0::real, 1::real), (0, 1)] = 2" by simp
  from generate_shape[OF demo_generate_value l] demo_generate_value l show ?thesis by simp
qed

theorem generate_hangs_witness:
  "HawkesLam_upper_bound (pp_lam (demo_pp 11)) < lam_mu (pp_lam (demo_pp 11)) \<and>
   poisson_mean_ok (HawkesLam_upper_bound (pp_lam (demo_pp 11)) * lebesgue_measure [(0, 1), (0, 1), (0, 1)]) \<and>
   0 < (1::nat) \<and> 0 < (1::nat) \<and>
   generate demo_rng (demo_pp 11) (0, 1) [(0, 1), (0, 1)] 1 1 True 0 = None"
proof -
  have h1: "HawkesLam_upper_bound (pp_lam (demo_pp 11)) < lam_mu (pp_lam (demo_pp 11))"
    by (simp add: demo_pp_def HawkesLam_upper_bound_def HawkesLam_init_def)
  have h2: "poisson_mean_ok (HawkesLam_upper_bound (pp_lam (demo_pp 11)) * lebesgue_measure [(0, 1), (0, 1), (0, 1)])"
    by (intro poisson_mean_ok_small) (simp_all add: demo_pp_def HawkesLam_upper_bound_def HawkesLam_init_def lebesgue_measure_def)
  have h3: "0 < (1::nat)" by simp
  from generate_hangs[OF h1 h2 h3 h3, of demo_rng True 0] h1 h2 show ?thesis by simp
qed

theorem generate_verbose_zero_division_witness:
  "bounded_intensity (pp_lam (demo_pp 1)) \<and>
   poisson_mean_ok (HawkesLam_upper_bound (pp_lam (demo_pp 1)) * lebesgue_measure [(0, 1), (0, 1), (0, 1)]) \<and>
   0 < (1::nat) \<and> 2 \<le> length [(0::real, 1::real), (0, 1)] \<and>
   2 \<le> fst (rng_poisson demo_rng 0 (HawkesLam_upper_bound (pp_lam (demo_pp 1)) * lebesgue_measure [(0, 1), (0, 1), (0, 1)])) \<and>
   fst (rng_poisson demo_rng 0 (HawkesLam_upper_bound (pp_lam (demo_pp 1)) * lebesgue_measure [(0, 1), (0, 1), (0, 1)])) < 10 \<and>
   (\<exists>g'. generate demo_rng (demo_pp 1) (0, 1) [(0, 1), (0, 1)] 1 5 True 0 = Some (Inl ZeroDivisionError, g'))"
proof -
  have b: "bounded_intensity (pp_lam (demo_pp 1))" by (rule demo_pp_bounded) simp
  have m: "poisson_mean_ok (HawkesLam_upper_bound (pp_lam (demo_pp 1)) * lebesgue_measure [(0, 1), (0, 1), (0, 1)])"
    by (intro poisson_mean_ok_small) (simp_all add: demo_pp_def HawkesLam_upper_bound_def HawkesLam_init_def lebesgue_measure_def)
  have bs: "0 < (1::nat)" by simp
  have l2: "2 \<le> length [(0::real, 1::real), (0, 1)]" by simp
  have n: "2 \<le> fst (rng_poisson demo_rng 0 (HawkesLam_upper_bound (pp_lam (demo_pp 1)) * lebesgue_measure [(0, 1), (0, 1), (0, 1)]))"
    "fst (rng_poisson demo_rng 0 (HawkesLam_upper_bound (pp_lam (demo_pp 1)) * lebesgue_measure [(0, 1), (0, 1), (0, 1)])) < 10"
    by (simp_all add: demo_rng_def)
  from generate_verbose_zero_division[OF b m bs l2 n, of 5] b m n show ?thesis by simp
qed

theorem generate_zero_background_hangs_witness:
  "lam_mu (pp_lam (demo_pp 0)) = 0 \<and> 0 < HawkesLam_upper_bound (pp_lam (demo_pp 0)) \<and> rng_pos demo_rng \<and>
   poisson_mean_ok (HawkesLam_upper_bound (pp_lam (demo_pp 0)) * lebesgue_measure [(0, 1), (0, 1), (0, 1)]) \<and> 0 < (1::nat) \<and>
   generate demo_rng (demo_pp 0) (0, 1) [(0, 1), (0, 1)] 1 1 False 0 = None"
proof -
  have h: "lam_mu (pp_lam (demo_pp 0)) = 0" "0 < HawkesLam_upper_bound (pp_lam (demo_pp 0))"
    by (simp_all add: demo_pp_def HawkesLam_upper_bound_def HawkesLam_init_def)
  have m: "poisson_mean_ok (HawkesLam_upper_bound (pp_lam (demo_pp 0)) * lebesgue_measure [(0::real, 1::real), (0, 1), (0, 1)])"
    by (intro poisson_mean_ok_small) (simp_all add: demo_pp_def HawkesLam_upper_bound_def HawkesLam_init_def lebesgue_measure_def)
  have one: "0 < (1::nat)" by simp
  from generate_zero_background_hangs[OF h demo_rng_pos m one one, of 0] h m demo_rng_pos
  show ?thesis by simp
qed

end
