(* ===== verification/Plot.thy ===== *)
theory Plot
  imports Generate
begin

text \<open>
  The numerical part of \<open>plot_3d_pointprocess_lam_f\<close> (\<^verbatim>\<open>src/stppg.py\<close>, lines
  303--341): the values that the function draws as two heat maps. It evaluates the
  intensity \<open>lam\<close> at time \<open>plot_ts\<close> on a grid of the spatial region, with the events of
  \<open>points\<close> strictly between 0 and \<open>plot_ts\<close> as history, and the conditional density
  \<open>f = lam * exp(- integral)\<close>, where \<open>integral\<close> approximates the integral of the
  intensity over \<open>(last_t, plot_ts] \<times> S\<close> by a Riemann sum on the same grid. The matplotlib
  calls are not modelled; \<open>evals.reshape(ngrid, ngrid)\<close>, which raises \<open>ValueError\<close>
  unless there are \<open>ngrid\<^sup>2\<close> grid points, is. \<open>ngrid\<close> is a natural number
  (numpy rejects a negative one); \<open>(ngrid - 1) ** 3\<close> is Python integer arithmetic.
  The companion \<open>plot_3d_pointprocess_avg_lam\<close> (lines 360--380) is modelled up to its
  plots too: it builds the time and space grids, and then raises \<open>NameError\<close>, because
  \<open>tqdm\<close> is not imported; its helper \<open>lamval_at_t\<close> would raise \<open>NameError\<close> as well,
  at the first grid point, since it reads \<open>plot_ts\<close>, which is not defined in it.
\<close>

section \<open>Definitions\<close>

text \<open>\<open>np.linspace(start, stop, num)\<close>: \<open>num\<close> evenly spaced points, both ends included.\<close>

definition np_linspace :: "real \<Rightarrow> real \<Rightarrow> nat \<Rightarrow> real list" where
  "np_linspace start stop num =
     (if num = 0 then [] else if num = 1 then [start]
      else map (\<lambda>k. start + real k * ((stop - start) / real (num - 1))) [0..<num])"

text \<open>
  \<open>ss = np.array(list(product(*[np.linspace(S_k[0], S_k[1], ngrid) for S_k in S])))\<close>:
  the grid points in \<open>itertools.product\<close> order (\<open>product_lists\<close> of the library).
\<close>

definition plot_grid :: "interval list \<Rightarrow> nat \<Rightarrow> real list list" where
  "plot_grid S ngrid = product_lists (map (\<lambda>(lo, hi). np_linspace lo hi ngrid) S)"

text \<open>\<open>his_p = points[(points[:, 0] < plot_ts) * (points[:, 0] > 0)]\<close>.\<close>

definition plot_history :: "points \<Rightarrow> real \<Rightarrow> points" where
  "plot_history points plot_ts = filter (\<lambda>r. hd r < plot_ts \<and> 0 < hd r) points"

text \<open>\<open>last_t = his_t[-1] if len(his_t) > 0 else 0.\<close>\<close>

definition plot_last_t :: "real list \<Rightarrow> real" where
  "plot_last_t his_t = (if 0 < length his_t then last his_t else 0)"

text \<open>
  The function up to the plots: the pair \<open>(evals, fvals)\<close> of intensity and density
  values on the grid, or the exception it raises.
\<close>

definition plot_lam_f ::
  "points \<Rightarrow> HawkesLam \<Rightarrow> real \<Rightarrow> interval list \<Rightarrow> nat \<Rightarrow> py_error + real list \<times> real list" where
  "plot_lam_f points lam plot_ts S ngrid =
     (let ss = plot_grid S ngrid;
          his_p = plot_history points plot_ts;
          his_t = map hd his_p;
          his_s = map tl his_p
      in (case map_sum (\<lambda>s. HawkesLam_value lam plot_ts his_t s his_s) ss of
            Inl e \<Rightarrow> Inl e
          | Inr evals \<Rightarrow>
              (let last_t = plot_last_t his_t;
                   ts = np_linspace last_t plot_ts ngrid;
                   unit_vol = prod_list ((plot_ts - last_t) # map (\<lambda>(lo, hi). hi - lo) S) /
                              real_of_int ((int ngrid - 1) ^ 3)
               in (case map_sum (\<lambda>(t, s). HawkesLam_value lam t his_t s his_s) [(t, s). t \<leftarrow> tl ts, s \<leftarrow> ss] of
                     Inl e \<Rightarrow> Inl e
                   | Inr lamvals \<Rightarrow>
                       (let integral = sum_list lamvals * unit_vol;
                            fvals = map (\<lambda>e. e * exp (- integral)) evals
                        in if length evals \<noteq> ngrid * ngrid then Inl ValueError
                           else Inr (evals, fvals))))))"

text \<open>
  The nested \<open>lamval_at_t(t)\<close> of \<open>plot_3d_pointprocess_avg_lam\<close>: the history before
  \<open>t\<close>, then \<open>[lam.value(plot_ts, his_t, s, his_s) for s in ss]\<close>, where looking up the
  argument \<open>plot_ts\<close> raises \<open>NameError\<close> for every \<open>s\<close>.
\<close>

definition avg_lam_lamval_at_t :: "points \<Rightarrow> HawkesLam \<Rightarrow> real list list \<Rightarrow> real \<Rightarrow> py_error + real list" where
  "avg_lam_lamval_at_t points lam ss t =
     (let his_p = plot_history points t;
          his_t = map hd his_p;
          his_s = map tl his_p
      in map_sum (\<lambda>s. Inl NameError) ss)"

text \<open>
  \<open>plot_3d_pointprocess_avg_lam\<close> up to its plots: \<open>ts\<close> and the grid \<open>ss\<close>, then
  \<open>[np.mean(lamval_at_t(t)) for t in tqdm(ts)]\<close>, where evaluating \<open>tqdm(ts)\<close> raises
  \<open>NameError\<close> before \<open>lamval_at_t\<close> is called.
\<close>

definition plot_avg_lam :: "points \<Rightarrow> HawkesLam \<Rightarrow> interval \<Rightarrow> interval list \<Rightarrow> nat \<Rightarrow> py_error + real list" where
  "plot_avg_lam points lam T S ngrid =
     (let ts = np_linspace (fst T) (snd T) ngrid;
          ss = plot_grid S ngrid
      in Inl NameError)"

text \<open>
  The intensity at which the theorems below are instantiated: background rate 1 and the
  Gaussian kernel with unit parameters and amplitude 0.
\<close>

definition demo_lam :: HawkesLam where
  "demo_lam = HawkesLam_init 1 (GaussianDiffusion (GaussianDiffusionKernel_init 0 0 1 1 0 1 1)) 10"

section \<open>Properties\<close>

lemma length_np_linspace [simp]: "length (np_linspace a b n) = n"
  by (simp add: np_linspace_def)

lemma np_linspace_tl:
  "2 \<le> n \<Longrightarrow> tl (np_linspace a b n) = map (\<lambda>k. a + real k * ((b - a) / real (n - 1))) [1..<n]"
  by (simp add: np_linspace_def upt_rec)

lemma np_linspace_tl_gt:
  assumes "a < b" and "t \<in> set (tl (np_linspace a b n))"
  shows "a < t"
proof (cases "2 \<le> n")
  case True
  with assms(2) obtain k where k: "1 \<le> k" "k < n" and t: "t = a + real k * ((b - a) / real (n - 1))"
    by (auto simp: np_linspace_tl)
  from True assms(1) have "0 < (b - a) / real (n - 1)" by simp
  moreover from k have "0 < real k" by simp
  ultimately have "0 < real k * ((b - a) / real (n - 1))" by (rule mult_pos_pos[rotated])
  with t show ?thesis by simp
next
  case False
  then have "n = 0 \<or> n = 1" by auto
  with assms(2) show ?thesis by (auto simp: np_linspace_def)
qed

lemma length_plot_grid: "length S = 2 \<Longrightarrow> length (plot_grid S ngrid) = ngrid * ngrid"
  by (auto simp: plot_grid_def length_product_lists length_Suc_conv numeral_2_eq_2 split: prod.splits)

lemma plot_history_append_zero_rows:
  "\<forall>r\<in>set pad. hd r = 0 \<Longrightarrow> plot_history (p @ pad) t = plot_history p t"
  by (induction pad) (auto simp: plot_history_def filter_empty_conv)

lemma plot_history_sorted:
  assumes "sorted (map hd p)" and "list_all (\<lambda>r. 0 < hd r) p"
  shows "plot_history p t = takeWhile (\<lambda>r. hd r < t) p"
proof -
  from assms(2) have "plot_history p t = filter (\<lambda>r. hd r < t) p"
    unfolding plot_history_def list_all_iff by (intro filter_cong) auto
  with filter_less_sorted[OF assms(1)] show ?thesis by simp
qed

lemma plot_history_hd_sorted: "sorted (map hd points) \<Longrightarrow> sorted (map hd (plot_history points t))"
  using sorted_filter by (simp add: plot_history_def)

lemma plot_history_before:
  assumes "sorted (map hd (plot_history points plot_ts))" and "0 \<le> plot_ts"
  shows "plot_last_t (map hd (plot_history points plot_ts)) \<le> plot_ts \<and>
         (\<forall>t\<in>set (tl (np_linspace (plot_last_t (map hd (plot_history points plot_ts))) plot_ts ngrid)).
            \<forall>ht\<in>set (map hd (plot_history points plot_ts)). ht < t)"
proof (cases "plot_history points plot_ts = []")
  case True
  with assms(2) show ?thesis by (simp add: plot_last_t_def)
next
  case False
  let ?his_t = "map hd (plot_history points plot_ts)"
  have sorted: "sorted ?his_t" by (rule assms(1))
  have before: "\<forall>ht\<in>set ?his_t. ht < plot_ts" by (auto simp: plot_history_def)
  from False have last: "plot_last_t ?his_t = last ?his_t" by (simp add: plot_last_t_def)
  with False before have lt: "plot_last_t ?his_t < plot_ts" by (simp add: last_map)
  have "\<forall>ht\<in>set ?his_t. ht \<le> plot_last_t ?his_t" using sorted_le_last[OF sorted] last by simp
  with lt np_linspace_tl_gt[OF lt] show ?thesis by fastforce
qed

text \<open>
  With a valid kernel, a non-negative background rate and a time-sorted history,
  every evaluation of the function succeeds: the intensity on the grid is at least
  \<open>mu\<close>, and every value summed into the integral is non-negative.
\<close>

lemma plot_grid_width: "s \<in> set (plot_grid S ngrid) \<Longrightarrow> length s = length S"
  by (auto simp: plot_grid_def dest: in_set_product_lists_length)

lemma plot_lam_f_evaluates:
  assumes "kernel_valid (lam_kernel lam)" and "sorted (map hd (plot_history points plot_ts))"
    and "0 \<le> plot_ts" and "2 \<le> length S"
  shows "\<exists>evals lamvals.
    map_sum (\<lambda>s. HawkesLam_value lam plot_ts (map hd (plot_history points plot_ts)) s (map tl (plot_history points plot_ts)))
      (plot_grid S ngrid) = Inr evals \<and>
    map_sum (\<lambda>(t, s). HawkesLam_value lam t (map hd (plot_history points plot_ts)) s (map tl (plot_history points plot_ts)))
      [(t, s). t \<leftarrow> tl (np_linspace (plot_last_t (map hd (plot_history points plot_ts))) plot_ts ngrid), s \<leftarrow> plot_grid S ngrid] = Inr lamvals \<and>
    list_all (\<lambda>e. lam_mu lam \<le> e) evals \<and> list_all (\<lambda>v. lam_mu lam \<le> v) lamvals"
proof -
  let ?his_t = "map hd (plot_history points plot_ts)" and ?his_s = "map tl (plot_history points plot_ts)"
  have val: "\<forall>ht\<in>set ?his_t. ht < t \<Longrightarrow> s \<in> set (plot_grid S ngrid) \<Longrightarrow>
      \<exists>v. HawkesLam_value lam t ?his_t s ?his_s = Inr v \<and> lam_mu lam \<le> v" for t s
    using HawkesLam_value_valid[OF assms(1), of ?his_t t s ?his_s] plot_grid_width[of s S ngrid] assms(4)
    by (auto intro: sum_list_nonneg_ball)
  have now: "\<forall>ht\<in>set ?his_t. ht < plot_ts" by (auto simp: plot_history_def)
  have later: "\<forall>t\<in>set (tl (np_linspace (plot_last_t ?his_t) plot_ts ngrid)). \<forall>ht\<in>set ?his_t. ht < t"
    by (rule conjunct2[OF plot_history_before[OF assms(2,3)]])
  have "\<exists>evals. map_sum (\<lambda>s. HawkesLam_value lam plot_ts ?his_t s ?his_s) (plot_grid S ngrid) = Inr evals \<and>
      list_all (\<lambda>e. lam_mu lam \<le> e) evals"
    by (rule map_sum_values_ge) (rule val[OF now])
  then obtain evals where ev: "map_sum (\<lambda>s. HawkesLam_value lam plot_ts ?his_t s ?his_s) (plot_grid S ngrid) = Inr evals"
    and ev_ge: "list_all (\<lambda>e. lam_mu lam \<le> e) evals" by blast
  have pair_val: "\<exists>v. (\<lambda>(t, s). HawkesLam_value lam t ?his_t s ?his_s) x = Inr v \<and> lam_mu lam \<le> v"
    if "x \<in> set [(t, s). t \<leftarrow> tl (np_linspace (plot_last_t ?his_t) plot_ts ngrid), s \<leftarrow> plot_grid S ngrid]" for x
  proof -
    from that obtain t s where x: "x = (t, s)" and t: "t \<in> set (tl (np_linspace (plot_last_t ?his_t) plot_ts ngrid))"
      and s: "s \<in> set (plot_grid S ngrid)" by auto
    from later t have "\<forall>ht\<in>set ?his_t. ht < t" by blast
    from val[OF this s] x show ?thesis by simp
  qed
  have "\<exists>lamvals. map_sum (\<lambda>(t, s). HawkesLam_value lam t ?his_t s ?his_s)
      [(t, s). t \<leftarrow> tl (np_linspace (plot_last_t ?his_t) plot_ts ngrid), s \<leftarrow> plot_grid S ngrid] = Inr lamvals \<and>
     list_all (\<lambda>v. lam_mu lam \<le> v) lamvals"
    by (rule map_sum_values_ge) (rule pair_val)
  then obtain lamvals where "map_sum (\<lambda>(t, s). HawkesLam_value lam t ?his_t s ?his_s)
      [(t, s). t \<leftarrow> tl (np_linspace (plot_last_t ?his_t) plot_ts ngrid), s \<leftarrow> plot_grid S ngrid] = Inr lamvals"
    "list_all (\<lambda>v. lam_mu lam \<le> v) lamvals" by blast
  with ev ev_ge show ?thesis by blast
qed

lemma length_plot_grid_pow: "length (plot_grid S ngrid) = ngrid ^ length S"
proof -
  have "map (length \<circ> (\<lambda>(lo, hi). np_linspace lo hi ngrid)) S = replicate (length S) ngrid"
    by (induction S) auto
  then show ?thesis by (simp add: plot_grid_def length_product_lists prod_list_replicate)
qed

lemma riemann_factor:
  fixes m n u X :: real
  assumes "m \<noteq> 0"
  shows "(m * n * n * u) * (X / m ^ 3) = u * X * (n / m)\<^sup>2"
  using assms by (simp add: power2_eq_square power3_eq_cube field_simps)

text \<open>
  The Riemann sum of a constant intensity \<open>mu\<close> over \<open>(0, plot_ts] \<times> S\<close>: \<open>(ngrid - 1) * ngrid\<^sup>2\<close>
  values times the cell volume \<open>plot_ts * |S| / (ngrid - 1)\<^sup>3\<close>.
\<close>

lemma plot_integral_const:
  assumes "2 \<le> ngrid" and "length S = 2"
  shows "sum_list (replicate ((ngrid - 1) * (ngrid * ngrid)) (mu::real)) *
      (prod_list ((plot_ts - plot_last_t []) # map (\<lambda>(lo, hi). hi - lo) S) / real_of_int ((int ngrid - 1) ^ 3)) =
      mu * plot_ts * lebesgue_measure S * (real ngrid / (real ngrid - 1))\<^sup>2"
proof -
  have m: "real ngrid - 1 \<noteq> 0" using assms(1) by simp
  have k: "real ((ngrid - 1) * (ngrid * ngrid)) = (real ngrid - 1) * real ngrid * real ngrid"
    using assms(1) by (simp add: of_nat_diff)
  have d: "real_of_int ((int ngrid - 1) ^ 3) = (real ngrid - 1) ^ 3" by simp
  have p: "prod_list ((plot_ts - plot_last_t []) # map (\<lambda>(lo, hi). hi - lo) S) = plot_ts * lebesgue_measure S"
    by (simp add: plot_last_t_def lebesgue_measure_def)
  show ?thesis
    unfolding sum_list_replicate d p k
    using riemann_factor[OF m, of "real ngrid" mu "plot_ts * lebesgue_measure S"]
    by (simp add: mult.assoc)
qed

lemma plot_lam_f_Inr:
  assumes "map_sum (\<lambda>s. HawkesLam_value lam plot_ts (map hd (plot_history points plot_ts)) s (map tl (plot_history points plot_ts)))
      (plot_grid S ngrid) = Inr evals"
    and "map_sum (\<lambda>(t, s). HawkesLam_value lam t (map hd (plot_history points plot_ts)) s (map tl (plot_history points plot_ts)))
      [(t, s). t \<leftarrow> tl (np_linspace (plot_last_t (map hd (plot_history points plot_ts))) plot_ts ngrid), s \<leftarrow> plot_grid S ngrid] = Inr lamvals"
  shows "plot_lam_f points lam plot_ts S ngrid =
    (if length evals \<noteq> ngrid * ngrid then Inl ValueError
     else Inr (evals, map (\<lambda>e. e * exp (- (sum_list lamvals *
       (prod_list ((plot_ts - plot_last_t (map hd (plot_history points plot_ts))) # map (\<lambda>(lo, hi). hi - lo) S) /
        real_of_int ((int ngrid - 1) ^ 3))))) evals))"
  using assms by (simp add: plot_lam_f_def Let_def)

text \<open>
  C32: on a window with no event in the history (e.g. before the first event, or an
  array of padding rows) the intensity is the constant \<open>mu\<close>, and the integral in
  \<open>f = lam * exp(- integral)\<close> evaluates to \<open>mu * plot_ts * |S| * (ngrid / (ngrid - 1))\<^sup>2\<close>,
  not to the integral \<open>mu * plot_ts * |S|\<close> it approximates: the Riemann sum takes
  \<open>ngrid\<close> points per spatial axis but a cell volume with \<open>ngrid - 1\<close> per axis.
\<close>

theorem plot_lam_f_empty_history:
  assumes "plot_history points plot_ts = []" and "length S = 2" and "2 \<le> ngrid"
  shows "plot_lam_f points lam plot_ts S ngrid =
    Inr (replicate (ngrid * ngrid) (lam_mu lam),
         replicate (ngrid * ngrid)
           (lam_mu lam * exp (- (lam_mu lam * plot_ts * lebesgue_measure S * (real ngrid / (real ngrid - 1))\<^sup>2))))"
proof -
  have ev: "map_sum (\<lambda>s. HawkesLam_value lam plot_ts [] s []) (plot_grid S ngrid) = Inr (replicate (ngrid * ngrid) (lam_mu lam))"
    using map_sum_const[of "plot_grid S ngrid" "\<lambda>s. HawkesLam_value lam plot_ts [] s []" "lam_mu lam"]
    by (simp add: length_plot_grid[OF assms(2)])
  have lv: "map_sum (\<lambda>(t, s). HawkesLam_value lam t [] s [])
      [(t, s). t \<leftarrow> tl (np_linspace (plot_last_t []) plot_ts ngrid), s \<leftarrow> plot_grid S ngrid] =
      Inr (replicate ((ngrid - 1) * (ngrid * ngrid)) (lam_mu lam))"
    using map_sum_const[of "[(t, s). t \<leftarrow> tl (np_linspace (plot_last_t []) plot_ts ngrid), s \<leftarrow> plot_grid S ngrid]"
        "\<lambda>(t, s). HawkesLam_value lam t [] s []" "lam_mu lam"]
    by (simp add: length_pairs length_plot_grid[OF assms(2)] split: prod.splits)
  from plot_lam_f_Inr[of lam plot_ts points S ngrid] ev lv plot_integral_const[OF assms(3,2)] assms(1)
  show ?thesis by (simp add: length_plot_grid[OF assms(2)])
qed

text \<open>
  The bounds of the plotted values need only the history to be time-sorted: they hold
  for a padded slab of \<open>generate\<close>'s array as well, whose rows are not sorted.
\<close>

lemma plot_density_bounds_hist:
  assumes "kernel_valid (lam_kernel lam)" and "0 \<le> lam_mu lam" and "sorted (map hd (plot_history points plot_ts))"
    and "0 \<le> plot_ts" and "region_ok S" and "length S = 2" and "2 \<le> ngrid"
  shows "\<exists>evals fvals. plot_lam_f points lam plot_ts S ngrid = Inr (evals, fvals) \<and>
           length evals = ngrid * ngrid \<and> list_all (\<lambda>e. lam_mu lam \<le> e) evals \<and>
           list_all2 (\<lambda>e f. 0 \<le> f \<and> f \<le> e) evals fvals"
proof -
  let ?his_t = "map hd (plot_history points plot_ts)"
  obtain evals lamvals where
    ev: "map_sum (\<lambda>s. HawkesLam_value lam plot_ts ?his_t s (map tl (plot_history points plot_ts))) (plot_grid S ngrid) = Inr evals"
    and lv: "map_sum (\<lambda>(t, s). HawkesLam_value lam t ?his_t s (map tl (plot_history points plot_ts)))
      [(t, s). t \<leftarrow> tl (np_linspace (plot_last_t ?his_t) plot_ts ngrid), s \<leftarrow> plot_grid S ngrid] = Inr lamvals"
    and ev_ge: "list_all (\<lambda>e. lam_mu lam \<le> e) evals" and lv_ge: "list_all (\<lambda>v. lam_mu lam \<le> v) lamvals"
    using plot_lam_f_evaluates[OF assms(1,3,4), of S ngrid] assms(6) by auto
  have len: "length evals = ngrid * ngrid"
    using map_sum_length[OF ev] length_plot_grid[OF assms(6)] by simp
  let ?I = "sum_list lamvals * (prod_list ((plot_ts - plot_last_t ?his_t) # map (\<lambda>(lo, hi). hi - lo) S) /
        real_of_int ((int ngrid - 1) ^ 3))"
  have "0 \<le> sum_list lamvals"
    using lv_ge assms(2) by (intro sum_list_nonneg_ball) (auto simp: list_all_iff)
  moreover have "0 \<le> prod_list ((plot_ts - plot_last_t ?his_t) # map (\<lambda>(lo, hi). hi - lo) S)"
    using conjunct1[OF plot_history_before[OF assms(3,4)]] assms(5)
    by (intro prod_list_nonneg_ball) (auto simp: region_ok_def list_all_iff)
  moreover have "0 < real_of_int ((int ngrid - 1) ^ 3)" using assms(7) by simp
  ultimately have I: "0 \<le> ?I" by simp
  have f: "list_all2 (\<lambda>e f. 0 \<le> f \<and> f \<le> e) evals (map (\<lambda>e. e * exp (- ?I)) evals)"
  proof (rule list_all2_map_self, rule ballI)
    fix e assume "e \<in> set evals"
    with ev_ge assms(2) have e: "0 \<le> e" by (auto simp: list_all_iff)
    from I have "exp (- ?I) \<le> 1" by simp
    with e show "0 \<le> e * exp (- ?I) \<and> e * exp (- ?I) \<le> e" by (simp add: mult_left_le)
  qed
  from plot_lam_f_Inr[OF ev lv] len ev_ge f show ?thesis by simp
qed

text \<open>
  C31: for a valid kernel, a non-negative background rate, a time-sorted points array,
  a non-negative \<open>plot_ts\<close>, a two-dimensional region and at least two grid points per axis, the function computes \<open>ngrid\<^sup>2\<close> intensity values,
  each at least \<open>mu\<close>, and density values \<open>f\<close> with \<open>0 \<le> f \<le> lam\<close> at every grid point.
\<close>

theorem plot_lam_f_density_bounds:
  assumes "kernel_valid (lam_kernel lam)" and "0 \<le> lam_mu lam" and "sorted (map hd points)"
    and "0 \<le> plot_ts" and "region_ok S" and "length S = 2" and "2 \<le> ngrid"
  shows "\<exists>evals fvals. plot_lam_f points lam plot_ts S ngrid = Inr (evals, fvals) \<and>
           length evals = ngrid * ngrid \<and> list_all (\<lambda>e. lam_mu lam \<le> e) evals \<and>
           list_all2 (\<lambda>e f. 0 \<le> f \<and> f \<le> e) evals fvals"
  using plot_density_bounds_hist[OF assms(1,2) plot_history_hd_sorted[OF assms(3)] assms(4-7)] .

text \<open>
  C33: the plot is hard-wired to a two-dimensional region: for a region of more than
  two spatial dimensions (and at least two grid points), \<open>evals.reshape(ngrid, ngrid)\<close>
  raises \<open>ValueError\<close>, after every intensity value has been computed.
\<close>

theorem plot_lam_f_reshape_error:
  assumes "kernel_valid (lam_kernel lam)" and "sorted (map hd points)" and "0 \<le> plot_ts"
    and "2 < length S" and "2 \<le> ngrid"
  shows "plot_lam_f points lam plot_ts S ngrid = Inl ValueError"
proof -
  obtain evals lamvals where
    ev: "map_sum (\<lambda>s. HawkesLam_value lam plot_ts (map hd (plot_history points plot_ts)) s (map tl (plot_history points plot_ts)))
      (plot_grid S ngrid) = Inr evals"
    and lv: "map_sum (\<lambda>(t, s). HawkesLam_value lam t (map hd (plot_history points plot_ts)) s (map tl (plot_history points plot_ts)))
      [(t, s). t \<leftarrow> tl (np_linspace (plot_last_t (map hd (plot_history points plot_ts))) plot_ts ngrid), s \<leftarrow> plot_grid S ngrid] = Inr lamvals"
    using plot_lam_f_evaluates[OF assms(1) plot_history_hd_sorted[OF assms(2)] assms(3), of S ngrid] assms(4) by auto
  have "ngrid ^ length S \<noteq> ngrid ^ 2"
    using assms(4,5) by (simp add: power_inject_exp)
  then have "length evals \<noteq> ngrid * ngrid"
    using map_sum_length[OF ev] length_plot_grid_pow[of S ngrid] by (simp add: power2_eq_square)
  with plot_lam_f_Inr[OF ev lv] show ?thesis by simp
qed

text \<open>
  \<open>plot_3d_pointprocess_avg_lam\<close> never computes anything: every call raises
  \<open>NameError\<close>, and so would its helper at every time, unless the grid is empty.
\<close>

lemma plot_avg_lam_NameError: "plot_avg_lam points lam T S ngrid = Inl NameError"
  by (simp add: plot_avg_lam_def)

lemma avg_lam_lamval_at_t_NameError:
  "avg_lam_lamval_at_t points lam ss t = (if ss = [] then Inr [] else Inl NameError)"
  by (cases ss) (simp_all add: avg_lam_lamval_at_t_def)

subsection \<open>Witnesses\<close>

lemma demo_lam_simps: "lam_mu demo_lam = 1" "kernel_valid (lam_kernel demo_lam)"
  by (simp_all add: demo_lam_def HawkesLam_init_def gd_unit_ok)

theorem plot_lam_f_empty_history_witness:
  "plot_history [[0, 0, 0], [2, 1/2, 1/2]] 1 = [] \<and> length [(0::real, 1::real), (0, 1)] = 2 \<and> 2 \<le> (2::nat) \<and>
   plot_lam_f [[0, 0, 0], [2, 1/2, 1/2]] demo_lam 1 [(0, 1), (0, 1)] 2 = Inr (replicate 4 1, replicate 4 (exp (- 4)))"
proof -
  have h: "plot_history [[0, 0, 0], [2, 1/2, 1/2]] 1 = []" by (simp add: plot_history_def)
  have l: "length [(0::real, 1::real), (0, 1)] = 2" and n: "2 \<le> (2::nat)" by simp_all
  from plot_lam_f_empty_history[OF h l n, of demo_lam] h
  show ?thesis by (simp add: demo_lam_simps lebesgue_measure_def)
qed

theorem plot_lam_f_density_bounds_witness:
  "kernel_valid (lam_kernel demo_lam) \<and> 0 \<le> lam_mu demo_lam \<and> sorted (map hd [[1/4::real, 1/2, 1/2], [1/2, 1/2, 1/2]]) \<and>
   0 \<le> (1::real) \<and> region_ok [(0, 1), (0, 1)] \<and> length [(0::real, 1::real), (0, 1)] = 2 \<and> 2 \<le> (2::nat) \<and>
   (\<exists>evals fvals. plot_lam_f [[1/4, 1/2, 1/2], [1/2, 1/2, 1/2]] demo_lam 1 [(0, 1), (0, 1)] 2 = Inr (evals, fvals) \<and>
      length evals = 2 * 2 \<and> list_all (\<lambda>e. lam_mu demo_lam \<le> e) evals \<and> list_all2 (\<lambda>e f. 0 \<le> f \<and> f \<le> e) evals fvals)"
proof -
  have h: "kernel_valid (lam_kernel demo_lam)" "0 \<le> lam_mu demo_lam" by (simp_all add: demo_lam_simps)
  have s: "sorted (map hd [[1/4::real, 1/2, 1/2], [1/2, 1/2, 1/2]])" "0 \<le> (1::real)"
    "region_ok [(0::real, 1::real), (0, 1)]" "length [(0::real, 1::real), (0, 1)] = 2" "2 \<le> (2::nat)"
    by (simp_all add: region_ok_def)
  from plot_lam_f_density_bounds[OF h s] h s show ?thesis by blast
qed

theorem plot_lam_f_reshape_error_witness:
  "kernel_valid (lam_kernel demo_lam) \<and> sorted (map hd [[1/4::real, 1/2, 1/2, 1/2]]) \<and> 0 \<le> (1::real) \<and>
   2 < length [(0::real, 1::real), (0, 1), (0, 1)] \<and> 2 \<le> (2::nat) \<and>
   plot_lam_f [[1/4, 1/2, 1/2, 1/2]] demo_lam 1 [(0, 1), (0, 1), (0, 1)] 2 = Inl ValueError"
proof -
  have h: "kernel_valid (lam_kernel demo_lam)" by (simp add: demo_lam_simps)
  have s: "sorted (map hd [[1/4::real, 1/2, 1/2, 1/2]])" "0 \<le> (1::real)"
    "2 < length [(0::real, 1::real), (0, 1), (0, 1)]" "2 \<le> (2::nat)" by simp_all
  from plot_lam_f_reshape_error[OF h s] h s show ?thesis by blast
qed

end
