(* ===== verification/Packing.thy ===== *)
theory Packing
  imports Generate
begin

text \<open>
  The array \<open>generate\<close> returns (\<^verbatim>\<open>src/stppg.py\<close>, lines 296--300):
  \<open>data = np.zeros((batch_size, max_len, 3))\<close> filled slab by slab with
  \<open>data[b, :points_list[b].shape[0]] = points_list[b]\<close>. The shape of a numpy array is
  its type; \<open>array3_shape\<close> states it for the nested lists of the model. The lemmas show
  that every array \<open>generate\<close> returns has that type, for every region, and that the
  hard-coded width 3 makes a region of any dimension other than 0 (broadcast) or 2 end
  in \<open>ValueError\<close> once the retry loop has collected its sequences.
\<close>

section \<open>Definitions\<close>

text \<open>The type of \<open>np.zeros((n, m, 3))\<close>: \<open>n\<close> slabs of \<open>m\<close> rows of width 3.\<close>

definition array3_shape :: "nat \<Rightarrow> nat \<Rightarrow> points list \<Rightarrow> bool" where
  "array3_shape n m data \<longleftrightarrow>
     length data = n \<and> list_all (\<lambda>slab. length slab = m \<and> list_all (\<lambda>r. length r = 3) slab) data"

section \<open>Properties\<close>

lemma pack_sequence_shape:
  assumes "pack_sequence w m p = Inr slab" and "length p \<le> m" and "\<forall>r\<in>set p. length r = w"
  shows "length slab = m \<and> list_all (\<lambda>r. length r = 3) slab"
  using assms by (auto simp: pack_sequence_def list_all_iff split: if_splits)

lemma pack_loop_shape:
  "pack_loop w m pl = Inr data \<Longrightarrow> \<forall>p\<in>set pl. length p \<le> m \<and> (\<forall>r\<in>set p. length r = w) \<Longrightarrow>
   array3_shape (length pl) m data"
proof (induction pl arbitrary: data)
  case Nil
  then show ?case by (simp add: array3_shape_def)
next
  case (Cons p pl)
  from Cons.prems(1) obtain slab rest where
    slab: "pack_sequence w m p = Inr slab" and rest: "pack_loop w m pl = Inr rest" and data: "data = slab # rest"
    by (auto split: sum.splits)
  from pack_sequence_shape[OF slab] Cons.prems(2) have "length slab = m \<and> list_all (\<lambda>r. length r = 3) slab"
    by simp
  with Cons.IH[OF rest] Cons.prems(2) data show ?case by (simp add: array3_shape_def)
qed

lemma pack_loop_ValueError: "w \<noteq> 1 \<Longrightarrow> w \<noteq> 3 \<Longrightarrow> pl \<noteq> [] \<Longrightarrow> pack_loop w m pl = Inl ValueError"
  by (cases pl) (simp_all add: pack_sequence_def)

lemma pack_loop_Inl: "pack_loop w m pl = Inl e \<Longrightarrow> e = ValueError \<and> w \<noteq> 1 \<and> w \<noteq> 3"
  by (induction pl) (auto simp: pack_sequence_def split: if_splits sum.splits)

text \<open>
  The recorded sequences of a final loop state fit the array: rows of width
  \<open>1 + len(S)\<close>, at most \<open>max_len\<close> of them.
\<close>

lemma generate_loop_final_fits:
  assumes "generate_loop rng pp T S batch_size min_n_points verbose gen_init g = Some (Inr st, g')"
  shows "\<forall>p\<in>set (gs_points_list st). length p \<le> gs_max_len st \<and> (\<forall>r\<in>set p. length r = Suc (length S))"
  using generate_loop_final[OF assms attempts_ok_seq_ok] foldr_max_ge
  by (auto simp: seq_ok_def list_all_iff)

text \<open>
  C5: the type of \<open>generate\<close>'s result: whenever it returns \<open>(data, sizes)\<close>, \<open>data\<close>
  has the shape \<open>(batch_size, max(sizes), 3)\<close> and \<open>sizes\<close> one entry per sequence,
  whatever the region; and a region of a dimension other than 0 or 2 returns nothing
  unless the batch is empty.
\<close>

theorem generate_data_type:
  assumes "generate rng pp T S batch_size min_n_points verbose g = Some (Inr (data, sizes), g')"
  shows "array3_shape batch_size (foldr max sizes 0) data \<and> length sizes = batch_size \<and>
         (batch_size = 0 \<or> length S = 0 \<or> length S = 2)"
proof -
  obtain st where loop: "generate_loop rng pp T S batch_size min_n_points verbose gen_init g = Some (Inr st, g')"
    and pack: "pack_loop (Suc (length S)) (gs_max_len st) (gs_points_list st) = Inr data" and sz: "sizes = gs_sizes st"
    using generate_Inr_state[OF assms] by blast
  note fin = generate_loop_final[OF loop attempts_ok_seq_ok]
  have shape: "array3_shape batch_size (foldr max sizes 0) data"
    using pack_loop_shape[OF pack generate_loop_final_fits[OF loop]] fin sz by simp
  have "batch_size = 0 \<or> length S = 0 \<or> length S = 2"
  proof (rule ccontr)
    assume "\<not> (batch_size = 0 \<or> length S = 0 \<or> length S = 2)"
    then have "Suc (length S) \<noteq> 1" "Suc (length S) \<noteq> 3" "gs_points_list st \<noteq> []" using fin by auto
    from pack_loop_ValueError[OF this] pack show False by simp
  qed
  with shape fin sz show ?thesis by simp
qed

text \<open>
  C15: the width 3 of the array is hard-coded: for a region of dimension 1, or of more
  than 2, the rows \<open>[t, x_1, ..., x_d]\<close> cannot be written into a slab, and a \<open>generate\<close>
  whose retry loop has collected a non-empty batch raises \<open>ValueError\<close> instead of
  returning it.
\<close>

theorem generate_pack_ValueError:
  assumes "generate_loop rng pp T S batch_size min_n_points verbose gen_init g = Some (Inr st, g')"
    and "0 < batch_size" and "length S \<noteq> 0" and "length S \<noteq> 2"
  shows "generate rng pp T S batch_size min_n_points verbose g = Some (Inl ValueError, g')"
proof -
  from generate_loop_final[OF assms(1) attempts_ok_seq_ok] assms(2)
  have "gs_points_list st \<noteq> []" by auto
  with assms(3,4) have "pack_loop (Suc (length S)) (gs_max_len st) (gs_points_list st) = Inl ValueError"
    by (intro pack_loop_ValueError) simp_all
  with assms(1) show ?thesis by (simp add: generate_def)
qed

text \<open>
  C11: the exceptions \<open>generate\<close> can raise, each with its cause: \<open>ZeroDivisionError\<close>
  only with \<open>verbose\<close> set (the progress test of thinning); \<open>ValueError\<close> only for a
  Poisson mean \<open>upper_bound() * |T \<times> S|\<close> that numpy rejects or for a region whose rows do
  not fit the width-3 array; \<open>IndexError\<close> only for an invalid kernel or a region of
  fewer than two spatial dimensions. So a valid kernel on a region \<open>T \<times> S\<close> of two
  spatial dimensions, with an accepted Poisson mean and \<open>verbose=False\<close>, never makes
  \<open>generate\<close> raise: it returns a batch or runs forever.
\<close>

theorem generate_exceptions:
  assumes "generate rng pp T S batch_size min_n_points verbose g = Some (Inl e, g')"
  shows "gen_error_ok pp T S verbose e \<or> (e = ValueError \<and> length S \<noteq> 0 \<and> length S \<noteq> 2)"
proof (cases "generate_loop rng pp T S batch_size min_n_points verbose gen_init g")
  case None
  with assms show ?thesis by (simp add: generate_def)
next
  case (Some y)
  show ?thesis
  proof (cases y)
    case (Pair r g1)
    show ?thesis
    proof (cases r)
      case (Inl e')
      with assms Some Pair have "e = e'" by (simp add: generate_def)
      with generate_loop_Inl[OF Some] Pair Inl show ?thesis by simp
    next
      case (Inr st)
      with assms Some Pair have "pack_loop (Suc (length S)) (gs_max_len st) (gs_points_list st) = Inl e"
        by (simp add: generate_def split: sum.splits)
      from pack_loop_Inl[OF this] show ?thesis by auto
    qed
  qed
qed

text \<open>
  The boundary \<open>batch_size = 0\<close>: the \<open>while\<close> loop never runs, nothing is drawn from
  the random source (its state is returned unchanged), and \<open>generate\<close> returns
  \<open>np.zeros((0, 0, 3))\<close> and \<open>[]\<close>, whatever the intensity and the region.
\<close>

lemma generate_empty_batch:
  "generate rng pp T S 0 min_n_points verbose g = Some (Inr ([], []), g)"
  by (simp add: generate_def generate_loop.simps gen_init_def)

subsection \<open>Witnesses\<close>

theorem generate_data_type_witness:
  "generate demo_rng (demo_pp 10) (0, 1) [(0, 1), (0, 1)] 1 1 False 0 =
     Some (Inr ([[[1/2::real, 1/2, 1/2], [1/2, 1/2, 1/2], [1/2, 1/2, 1/2]]], [3]), 13) \<and>
   array3_shape 1 (foldr max [3] 0) [[[1/2::real, 1/2, 1/2], [1/2, 1/2, 1/2], [1/2, 1/2, 1/2]]] \<and>
   length [3::nat] = 1 \<and> (1 = (0::nat) \<or> length [(0::real, 1::real), (0, 1)] = 0 \<or> length [(0::real, 1::real), (0, 1)] = 2)"
  using generate_data_type[OF demo_generate_value] demo_generate_value by simp

theorem generate_pack_ValueError_witness:
  "generate_loop demo_rng (demo_pp 10) (0, 1) [(0, 1), (0, 1), (0, 1)] 1 0 False gen_init 0 =
     Some (Inr (gen_record gen_init ([[1/2::real, 1/2, 1/2, 1/2], [1/2, 1/2, 1/2, 1/2], [1/2, 1/2, 1/2, 1/2]])), 16) \<and>
   0 < (1::nat) \<and> length [(0::real, 1::real), (0, 1), (0, 1)] \<noteq> 0 \<and> length [(0::real, 1::real), (0, 1), (0, 1)] \<noteq> 2 \<and>
   generate demo_rng (demo_pp 10) (0, 1) [(0, 1), (0, 1), (0, 1)] 1 0 False 0 = Some (Inl ValueError, 16)"
proof -
  have h: "homogeneous_poisson_sampling demo_rng (demo_pp 10) (0, 1) [(0, 1), (0, 1), (0, 1)] 0 =
      (Inr ([[1/2::real, 1/2, 1/2, 1/2], [1/2, 1/2, 1/2, 1/2], [1/2, 1/2, 1/2, 1/2]]), 13)"
    by (simp add: homogeneous_poisson_sampling_def np_poisson_def lebesgue_measure_def demo_pp_def
        HawkesLam_upper_bound_def HawkesLam_init_def demo_rng_def np_uniform_def numeral_3_eq_3 Let_def)
  have th: "inhomogeneous_poisson_thinning (demo_pp 10) demo_rng ([[1/2::real, 1/2, 1/2, 1/2], [1/2, 1/2, 1/2, 1/2], [1/2, 1/2, 1/2, 1/2]]) False 13 =
      (Inr (Some ([[1/2::real, 1/2, 1/2, 1/2], [1/2, 1/2, 1/2, 1/2], [1/2, 1/2, 1/2, 1/2]])), 16)"
    using demo_thinning_loop_keep[where n = "length [[1/2::real, 1/2, 1/2, 1/2], [1/2, 1/2, 1/2, 1/2], [1/2, 1/2, 1/2, 1/2]]" and i = 0 and ps = "[[1/2::real, 1/2, 1/2, 1/2], [1/2, 1/2, 1/2, 1/2], [1/2, 1/2, 1/2, 1/2]]"
        and retained = "[]" and g = 13 and verbose = False]
    by (simp add: inhomogeneous_poisson_thinning_def rows_xy_def)
  have loop: "generate_loop demo_rng (demo_pp 10) (0, 1) [(0, 1), (0, 1), (0, 1)] 1 0 False gen_init 0 =
     Some (Inr (gen_record gen_init ([[1/2::real, 1/2, 1/2, 1/2], [1/2, 1/2, 1/2, 1/2], [1/2, 1/2, 1/2, 1/2]])), 16)"
    by (subst generate_loop.simps) (simp add: gen_init_def h th gen_record_def generate_loop.simps)
  have hyp: "0 < (1::nat)" "length [(0::real, 1::real), (0, 1), (0, 1)] \<noteq> 0" "length [(0::real, 1::real), (0, 1), (0, 1)] \<noteq> 2"
    by simp_all
  from generate_pack_ValueError[OF loop hyp] loop hyp show ?thesis by simp
qed

theorem generate_exceptions_witness:
  "generate demo_rng \<lparr>pp_lam = HawkesLam_init 1 (StdDiffusion (StdDiffusionKernel_init 0 1 1 1)) (- 1)\<rparr> (0, 1) [(0, 1), (0, 1)] 1 1 False 0 = Some (Inl ValueError, 0) \<and>
   HawkesLam_upper_bound (pp_lam \<lparr>pp_lam = HawkesLam_init 1 (StdDiffusion (StdDiffusionKernel_init 0 1 1 1)) (- 1)\<rparr>) * lebesgue_measure [(0, 1), (0, 1), (0, 1)] < 0"
proof -
  have v: "generate demo_rng \<lparr>pp_lam = HawkesLam_init 1 (StdDiffusion (StdDiffusionKernel_init 0 1 1 1)) (- 1)\<rparr> (0, 1) [(0, 1), (0, 1)] 1 1 False 0 = Some (Inl ValueError, 0)"
    by (simp add: generate_def generate_loop.simps gen_init_def homogeneous_poisson_sampling_def np_poisson_def
        lebesgue_measure_def HawkesLam_upper_bound_def HawkesLam_init_def)
  from generate_exceptions[OF v] v show ?thesis
    by (simp add: gen_error_ok_def poisson_mean_ok_def lebesgue_measure_def HawkesLam_upper_bound_def HawkesLam_init_def)
qed

end
