(* ===== verification/Generate_Steps.thy ===== *)
theory Generate_Steps
  imports Generate
begin

text \<open>
  The retry loop of \<open>generate\<close> (\<^verbatim>\<open>src/stppg.py\<close>, lines 286--295) as a state
  machine: one attempt (proposals, then thinning) is \<open>gen_attempt\<close>, and \<open>gen_step\<close> is
  the inductive step relation on pairs of a loop state and a generator state, one rule per
  way an iteration without exception ends (discarded, too short, recorded). The lemmas
  show that the states reachable from \<open>gen_init\<close> satisfy the loop invariant (by rule
  induction), and that \<open>generate_loop\<close> returns a state exactly when that state is
  reachable and the loop test fails there.
\<close>

section \<open>Definitions\<close>

text \<open>
  \<open>homo_points = self._homogeneous_poisson_sampling(T, S)\<close> followed by
  \<open>points = self._inhomogeneous_poisson_thinning(homo_points, verbose)\<close>.
\<close>

definition gen_attempt ::
  "'g rng \<Rightarrow> SpatialTemporalPointProcess \<Rightarrow> interval \<Rightarrow> interval list \<Rightarrow> bool \<Rightarrow> 'g \<Rightarrow>
   (py_error + points option) \<times> 'g" where
  "gen_attempt rng pp T S verbose g =
     (case homogeneous_poisson_sampling rng pp T S g of
        (Inl e, g1) \<Rightarrow> (Inl e, g1)
      | (Inr homo_points, g1) \<Rightarrow> inhomogeneous_poisson_thinning pp rng homo_points verbose g1)"

inductive gen_step ::
  "'g rng \<Rightarrow> SpatialTemporalPointProcess \<Rightarrow> interval \<Rightarrow> interval list \<Rightarrow> nat \<Rightarrow> nat \<Rightarrow> bool \<Rightarrow>
   gen_state \<times> 'g \<Rightarrow> gen_state \<times> 'g \<Rightarrow> bool"
  for rng pp T S batch_size min_n_points verbose where
  discard: "gs_b st < batch_size \<Longrightarrow> gen_attempt rng pp T S verbose g = (Inr None, g2) \<Longrightarrow>
    gen_step rng pp T S batch_size min_n_points verbose (st, g) (st, g2)"
| too_short: "gs_b st < batch_size \<Longrightarrow> gen_attempt rng pp T S verbose g = (Inr (Some points), g2) \<Longrightarrow>
    length points < min_n_points \<Longrightarrow> gen_step rng pp T S batch_size min_n_points verbose (st, g) (st, g2)"
| accept: "gs_b st < batch_size \<Longrightarrow> gen_attempt rng pp T S verbose g = (Inr (Some points), g2) \<Longrightarrow>
    min_n_points \<le> length points \<Longrightarrow>
    gen_step rng pp T S batch_size min_n_points verbose (st, g) (gen_record st points, g2)"

inductive_cases gen_step_elim: "gen_step rng pp T S batch_size min_n_points verbose c c'"

section \<open>Properties\<close>

text \<open>The body of the loop, stated over one attempt.\<close>

lemma generate_loop_body_attempt:
  "(if gs_b st < batch_size then
      (case homogeneous_poisson_sampling rng pp T S g of
         (Inl e, g1) \<Rightarrow> Some (Inl e, g1)
       | (Inr homo_points, g1) \<Rightarrow>
           (case inhomogeneous_poisson_thinning pp rng homo_points verbose g1 of
              (Inl e, g2) \<Rightarrow> Some (Inl e, g2)
            | (Inr None, g2) \<Rightarrow> f rng pp T S batch_size min_n_points verbose st g2
            | (Inr (Some points), g2) \<Rightarrow>
                (if length points < min_n_points then f rng pp T S batch_size min_n_points verbose st g2 else f rng pp T S batch_size min_n_points verbose (gen_record st points) g2)))
    else Some (Inr st, g)) =
   (if gs_b st < batch_size then
      (case gen_attempt rng pp T S verbose g of
         (Inl e, g2) \<Rightarrow> Some (Inl e, g2)
       | (Inr None, g2) \<Rightarrow> f rng pp T S batch_size min_n_points verbose st g2
       | (Inr (Some points), g2) \<Rightarrow>
           (if length points < min_n_points then f rng pp T S batch_size min_n_points verbose st g2 else f rng pp T S batch_size min_n_points verbose (gen_record st points) g2))
    else Some (Inr st, g))"
  by (simp add: gen_attempt_def split: prod.split sum.split)

lemmas generate_loop_attempt = generate_loop.simps[unfolded generate_loop_body_attempt]

text \<open>A step is one iteration of the loop that does not leave it.\<close>

lemma gen_step_loop:
  assumes "gen_step rng pp T S batch_size min_n_points verbose (st, g) (st1, g1)"
  shows "generate_loop rng pp T S batch_size min_n_points verbose st g =
         generate_loop rng pp T S batch_size min_n_points verbose st1 g1"
  using assms by (cases rule: gen_step.cases) (subst generate_loop_attempt; simp)+

lemma steps_loop:
  assumes "(gen_step rng pp T S batch_size min_n_points verbose)\<^sup>*\<^sup>* (st, g) (st', g')"
    and "\<not> gs_b st' < batch_size"
  shows "generate_loop rng pp T S batch_size min_n_points verbose st g = Some (Inr st', g')"
  using assms(1)
proof (induction rule: converse_rtranclp_induct2)
  case refl
  from assms(2) show ?case by (subst generate_loop_attempt) simp
next
  case (step st g st1 g1)
  from gen_step_loop[OF step(1)] step(3) show ?case by simp
qed

lemma loop_steps:
  assumes "generate_loop rng pp T S batch_size min_n_points verbose st g = Some y"
  shows "\<forall>st' g'. y = (Inr st', g') \<longrightarrow>
           (gen_step rng pp T S batch_size min_n_points verbose)\<^sup>*\<^sup>* (st, g) (st', g') \<and> \<not> gs_b st' < batch_size"
  apply (rule generate_loop.raw_induct[OF _ assms])
  subgoal premises prems for f rng pp T S batch_size min_n_points verbose st g y
  proof (intro allI impI)
    fix st' g' assume y: "y = (Inr st', g')"
    let ?R = "gen_step rng pp T S batch_size min_n_points verbose"
    have IH: "?R\<^sup>*\<^sup>* (st1, g1) (st', g') \<and> \<not> gs_b st' < batch_size"
      if "f rng pp T S batch_size min_n_points verbose st1 g1 = Some y" for st1 g1
      using prems(1) that y by blast
    have pre: "?R\<^sup>*\<^sup>* (st, g) (st', g') \<and> \<not> gs_b st' < batch_size"
      if "?R (st, g) (st1, g1)" and "f rng pp T S batch_size min_n_points verbose st1 g1 = Some y" for st1 g1
      using converse_rtranclp_into_rtranclp[OF that(1) conjunct1[OF IH[OF that(2)]]] IH[OF that(2)] by simp
    note body = prems(2)[unfolded generate_loop_body_attempt]
    show "?R\<^sup>*\<^sup>* (st, g) (st', g') \<and> \<not> gs_b st' < batch_size"
    proof (cases "gs_b st < batch_size")
      case False
      with body y have "st' = st" "g' = g" by simp_all
      with False show ?thesis by simp
    next
      case b: True
      obtain a g2 where A: "gen_attempt rng pp T S verbose g = (a, g2)" by fastforce
      consider e where "a = Inl e" | "a = Inr None" | points where "a = Inr (Some points)"
        by (metis option.exhaust sum.exhaust)
      then show ?thesis
      proof cases
        case 1
        with body b A y show ?thesis by simp
      next
        case 2
        with body b A have "f rng pp T S batch_size min_n_points verbose st g2 = Some y" by simp
        with discard[OF b A[unfolded 2]] show ?thesis by (rule pre)
      next
        case (3 points)
        show ?thesis
        proof (cases "length points < min_n_points")
          case True
          with body b A 3 have "f rng pp T S batch_size min_n_points verbose st g2 = Some y" by simp
          with too_short[OF b A[unfolded 3] True] show ?thesis by (rule pre)
        next
          case False
          with body b A 3 have "f rng pp T S batch_size min_n_points verbose (gen_record st points) g2 = Some y"
            by simp
          with accept[OF b A[unfolded 3]] False show ?thesis by (intro pre) simp_all
        qed
      qed
    qed
  qed
  done

text \<open>Every step keeps the loop invariant and the sequences' shape, and the count bounded.\<close>

lemma gen_step_inv:
  assumes "gen_step rng pp T S batch_size min_n_points verbose (st, g) (st1, g1)"
    and "gen_inv min_n_points st" and "list_all (seq_ok S) (gs_points_list st)"
  shows "gen_inv min_n_points st1 \<and> list_all (seq_ok S) (gs_points_list st1) \<and> gs_b st1 \<le> batch_size"
  using assms
proof (cases rule: gen_step.cases)
  case (discard)
  with assms(2,3) show ?thesis by (simp add: gen_inv_def)
next
  case (too_short points)
  with assms(2,3) show ?thesis by (simp add: gen_inv_def)
next
  case (accept points)
  from accept have "gen_attempt rng pp T S verbose g = (Inr (Some points), g1)" by simp
  then obtain homo_points g' where
    h: "homogeneous_poisson_sampling rng pp T S g = (Inr homo_points, g')"
    and th: "inhomogeneous_poisson_thinning pp rng homo_points verbose g' = (Inr (Some points), g1)"
    by (auto simp: gen_attempt_def split: prod.splits sum.splits)
  from attempt_seq_ok[OF h th] have "seq_ok S points" .
  with accept gen_record_inv[OF assms(2)] assms(3) show ?thesis
    by (simp add: gen_record_def)
qed


text \<open>
  C6: the loop invariant, by rule induction over the steps: every state reachable from
  the initial one records at most \<open>batch_size\<close> time-sorted sequences of rows of width
  \<open>1 + len(S)\<close>, each of at least \<open>min_n_points\<close> rows, with \<open>b\<close>, \<open>sizes\<close> and
  \<open>max_len\<close> in agreement with them.
\<close>

theorem gen_reachable_inv:
  assumes "(gen_step rng pp T S batch_size min_n_points verbose)\<^sup>*\<^sup>* (gen_init, g) (st, g')"
  shows "gen_inv min_n_points st \<and> list_all (seq_ok S) (gs_points_list st) \<and> gs_b st \<le> batch_size"
  using assms
proof (induction rule: rtranclp_induct2)
  case refl
  then show ?case by (simp add: gen_inv_def gen_init_def)
next
  case (step st1 g1 st2 g2)
  from gen_step_inv[OF step(2)] step(3) show ?case by blast
qed

text \<open>
  The partial function and the state machine agree: the retry loop returns a state
  exactly when that state is reachable by steps and the loop test \<open>b < batch_size\<close>
  fails there. Not returning (the value \<open>None\<close>) is then an infinite run of steps or an
  exception.
\<close>

lemma generate_loop_iff_steps:
  "generate_loop rng pp T S batch_size min_n_points verbose st g = Some (Inr st', g') \<longleftrightarrow>
   (gen_step rng pp T S batch_size min_n_points verbose)\<^sup>*\<^sup>* (st, g) (st', g') \<and> \<not> gs_b st' < batch_size"
proof
  assume "generate_loop rng pp T S batch_size min_n_points verbose st g = Some (Inr st', g')"
  from loop_steps[OF this] show "(gen_step rng pp T S batch_size min_n_points verbose)\<^sup>*\<^sup>* (st, g) (st', g') \<and>
      \<not> gs_b st' < batch_size" by simp
next
  assume "(gen_step rng pp T S batch_size min_n_points verbose)\<^sup>*\<^sup>* (st, g) (st', g') \<and> \<not> gs_b st' < batch_size"
  then show "generate_loop rng pp T S batch_size min_n_points verbose st g = Some (Inr st', g')"
    by (elim conjE) (rule steps_loop)
qed

subsection \<open>Witnesses\<close>

lemma demo_gen_attempt:
  "gen_attempt demo_rng (demo_pp 10) (0, 1) [(0, 1), (0, 1)] False 0 =
     (Inr (Some [[1/2::real, 1/2, 1/2], [1/2, 1/2, 1/2], [1/2, 1/2, 1/2]]), 13)"
  by (simp add: gen_attempt_def demo_homogeneous_value_10 demo_thinning_all)

theorem gen_reachable_inv_witness:
  "(gen_step demo_rng (demo_pp 10) (0, 1) [(0, 1), (0, 1)] 1 1 False)\<^sup>*\<^sup>* (gen_init, 0)
     (gen_record gen_init [[1/2::real, 1/2, 1/2], [1/2, 1/2, 1/2], [1/2, 1/2, 1/2]], 13) \<and>
   gen_inv 1 (gen_record gen_init [[1/2::real, 1/2, 1/2], [1/2, 1/2, 1/2], [1/2, 1/2, 1/2]]) \<and>
   list_all (seq_ok [(0, 1), (0, 1)]) (gs_points_list (gen_record gen_init [[1/2::real, 1/2, 1/2], [1/2, 1/2, 1/2], [1/2, 1/2, 1/2]])) \<and>
   gs_b (gen_record gen_init [[1/2::real, 1/2, 1/2], [1/2, 1/2, 1/2], [1/2, 1/2, 1/2]]) \<le> 1"
proof -
  have "gen_step demo_rng (demo_pp 10) (0, 1) [(0, 1), (0, 1)] 1 1 False (gen_init, 0)
     (gen_record gen_init [[1/2::real, 1/2, 1/2], [1/2, 1/2, 1/2], [1/2, 1/2, 1/2]], 13)"
    by (rule accept[OF _ demo_gen_attempt]) (simp_all add: gen_init_def)
  then have r: "(gen_step demo_rng (demo_pp 10) (0, 1) [(0, 1), (0, 1)] 1 1 False)\<^sup>*\<^sup>* (gen_init, 0)
     (gen_record gen_init [[1/2::real, 1/2, 1/2], [1/2, 1/2, 1/2], [1/2, 1/2, 1/2]], 13)" by (rule r_into_rtranclp)
  from r gen_reachable_inv[OF r] show ?thesis by blast
qed

end
