(* ===== verification/Logging.thy ===== *)
theory Logging
  imports Generate
begin

text \<open>
  The diagnostics \<open>stppg.py\<close> prints to \<open>sys.stderr\<close>, as a list of messages returned
  beside the result. The thinning loop prints the number of proposals (lines 244--245,
  when \<open>verbose\<close>), the violated bound (line 260, always), the progress of every tenth
  candidate (lines 268--269, when \<open>verbose\<close>) and the number of retained points
  (lines 271--273, when \<open>verbose\<close>); \<open>generate\<close> prints a line per recorded sequence
  (line 294, always). A message keeps the numbers and the label the code prints; the
  timestamps \<open>arrow.now()\<close> and the array shapes' widths are not modelled;
  \<open>str(self.lam)\<close> is \<open>HawkesLam_str\<close>. The logging functions follow the control flow of
  \<open>thinning_loop\<close> and
  \<open>generate_loop\<close> statement by statement; the lemmas show that dropping their messages
  gives those functions back, and which messages a quiet run (\<open>verbose=False\<close>) prints.
\<close>

section \<open>Definitions\<close>

datatype log_msg =
    HomoSamples nat
  | AboveBound real real
  | Checked nat nat
  | ThinningDone nat string
  | SequenceGenerated nat

fun thinning_loop_log ::
  "SpatialTemporalPointProcess \<Rightarrow> 'g rng \<Rightarrow> bool \<Rightarrow> nat \<Rightarrow> nat \<Rightarrow> points \<Rightarrow> points \<Rightarrow> 'g \<Rightarrow>
   ((py_error + points option) \<times> 'g) \<times> log_msg list" where
  "thinning_loop_log pp rng verbose n i [] retained g =
     ((Inr (Some retained), g), if verbose then [ThinningDone (length retained) (HawkesLam_str (pp_lam pp))] else [])"
| "thinning_loop_log pp rng verbose n i (p # ps) retained g =
     (let t = hd p; s = tl p; his_t = map hd retained; his_s = map tl retained
      in (case HawkesLam_value (pp_lam pp) t his_t s his_s of
            Inl e \<Rightarrow> ((Inl e, g), [])
          | Inr lam_value \<Rightarrow>
              (let lam_bar = HawkesLam_upper_bound (pp_lam pp);
                   (D, g1) = np_uniform rng 0 1 g
               in if lam_bar < lam_value then ((Inr None, g1), [AboveBound lam_value lam_bar])
                  else
                    (let retained' = (if D * lam_bar \<le> lam_value then retained @ [p] else retained)
                     in if verbose \<and> i \<noteq> 0 \<and> n div 10 = 0 then ((Inl ZeroDivisionError, g1), [])
                        else
                          (let msg = (if verbose \<and> i \<noteq> 0 \<and> i mod (n div 10) = 0
                                      then [Checked i (length retained')] else []);
                               (r, log) = thinning_loop_log pp rng verbose n (Suc i) ps retained' g1
                           in (r, msg @ log))))))"

definition inhomogeneous_poisson_thinning_log ::
  "SpatialTemporalPointProcess \<Rightarrow> 'g rng \<Rightarrow> points \<Rightarrow> bool \<Rightarrow> 'g \<Rightarrow>
   ((py_error + points option) \<times> 'g) \<times> log_msg list" where
  "inhomogeneous_poisson_thinning_log pp rng homo_points verbose g =
     (let (r, log) = thinning_loop_log pp rng verbose (length homo_points) 0 homo_points [] g
      in (r, (if verbose then [HomoSamples (length homo_points)] else []) @ log))"

partial_function (option) generate_loop_log ::
  "'g rng \<Rightarrow> SpatialTemporalPointProcess \<Rightarrow> interval \<Rightarrow> interval list \<Rightarrow> nat \<Rightarrow> nat \<Rightarrow> bool \<Rightarrow>
   gen_state \<Rightarrow> 'g \<Rightarrow> ((py_error + gen_state) \<times> 'g \<times> log_msg list) option" where
  "generate_loop_log rng pp T S batch_size min_n_points verbose st g =
     (if gs_b st < batch_size then
        (case homogeneous_poisson_sampling rng pp T S g of
           (Inl e, g1) \<Rightarrow> Some (Inl e, g1, [])
         | (Inr homo_points, g1) \<Rightarrow>
             (case inhomogeneous_poisson_thinning_log pp rng homo_points verbose g1 of
                ((Inl e, g2), l) \<Rightarrow> Some (Inl e, g2, l)
              | ((Inr None, g2), l) \<Rightarrow>
                  Option.bind (generate_loop_log rng pp T S batch_size min_n_points verbose st g2)
                    (\<lambda>(r, g', l'). Some (r, g', l @ l'))
              | ((Inr (Some points), g2), l) \<Rightarrow>
                  (if length points < min_n_points
                   then Option.bind (generate_loop_log rng pp T S batch_size min_n_points verbose st g2)
                          (\<lambda>(r, g', l'). Some (r, g', l @ l'))
                   else Option.bind (generate_loop_log rng pp T S batch_size min_n_points verbose
                                       (gen_record st points) g2)
                          (\<lambda>(r, g', l'). Some (r, g', l @ [SequenceGenerated (Suc (gs_b st))] @ l')))))
      else Some (Inr st, g, []))"

definition generate_log ::
  "'g rng \<Rightarrow> SpatialTemporalPointProcess \<Rightarrow> interval \<Rightarrow> interval list \<Rightarrow> nat \<Rightarrow> nat \<Rightarrow> bool \<Rightarrow> 'g \<Rightarrow>
   ((py_error + points list \<times> nat list) \<times> 'g \<times> log_msg list) option" where
  "generate_log rng pp T S batch_size min_n_points verbose g =
     (case generate_loop_log rng pp T S batch_size min_n_points verbose gen_init g of
        None \<Rightarrow> None
      | Some (Inl e, g', l) \<Rightarrow> Some (Inl e, g', l)
      | Some (Inr st, g', l) \<Rightarrow>
          (case pack_loop (Suc (length S)) (gs_max_len st) (gs_points_list st) of
             Inl e \<Rightarrow> Some (Inl e, g', l)
           | Inr data \<Rightarrow> Some (Inr (data, gs_sizes st), g', l)))"

text \<open>The message printed whatever \<open>verbose\<close> says about the bound.\<close>

fun bound_msg :: "log_msg \<Rightarrow> bool" where
  "bound_msg (AboveBound v b) = True"
| "bound_msg m = False"

text \<open>The candidate index of a progress line.\<close>

fun checked_at :: "log_msg \<Rightarrow> nat option" where
  "checked_at (Checked i k) = Some i"
| "checked_at m = None"

section \<open>Properties\<close>

lemma thinning_loop_log_result:
  "fst (thinning_loop_log pp rng verbose n i ps retained g) = thinning_loop pp rng verbose n i ps retained g"
proof (induction ps arbitrary: i retained g)
  case Nil
  then show ?case by simp
next
  case (Cons p ps)
  show ?case
  proof (cases "HawkesLam_value (pp_lam pp) (hd p) (map hd retained) (tl p) (map tl retained)")
    case (Inl e)
    then show ?thesis by simp
  next
    case (Inr v)
    obtain D g1 where D: "np_uniform rng 0 1 g = (D, g1)" by fastforce
    from Inr D show ?thesis
      by (simp add: Let_def split_def Cons.IH)
  qed
qed

lemma thinning_loop_log_quiet:
  "list_all bound_msg (snd (thinning_loop_log pp rng False n i ps retained g)) \<and>
   length (snd (thinning_loop_log pp rng False n i ps retained g)) \<le> 1 \<and>
   (snd (thinning_loop_log pp rng False n i ps retained g) \<noteq> [] \<longleftrightarrow>
    fst (fst (thinning_loop_log pp rng False n i ps retained g)) = Inr None)"
proof (induction ps arbitrary: i retained g)
  case Nil
  then show ?case by simp
next
  case (Cons p ps)
  show ?case
  proof (cases "HawkesLam_value (pp_lam pp) (hd p) (map hd retained) (tl p) (map tl retained)")
    case (Inl e)
    then show ?thesis by simp
  next
    case (Inr v)
    obtain D g1 where D: "np_uniform rng 0 1 g = (D, g1)" by fastforce
    let ?r' = "if D * HawkesLam_upper_bound (pp_lam pp) \<le> v then retained @ [p] else retained"
    from Cons.IH[of "Suc i" ?r' g1] Inr D show ?thesis
      by (simp add: Let_def split_def)
  qed
qed


lemma thinning_log_result:
  "fst (inhomogeneous_poisson_thinning_log pp rng homo_points verbose g) =
   inhomogeneous_poisson_thinning pp rng homo_points verbose g"
  by (simp add: inhomogeneous_poisson_thinning_log_def inhomogeneous_poisson_thinning_def split_def
      thinning_loop_log_result)

lemma thinning_log_quiet_bound:
  "list_all bound_msg (snd (inhomogeneous_poisson_thinning_log pp rng homo_points False g))"
  using thinning_loop_log_quiet[of pp rng "length homo_points" 0 homo_points "[]" g]
  by (simp add: inhomogeneous_poisson_thinning_log_def split_def)

text \<open>A recursive call of the logging loop, seen through the bind that appends its messages.\<close>

lemma bind_log_Some:
  "Option.bind X (\<lambda>(r, g', l'). Some (r, g', h l')) = Some y \<Longrightarrow>
   \<exists>r g' l'. X = Some (r, g', l') \<and> y = (r, g', h l')"
  by (cases X) auto

lemma loop_log_result:
  assumes "generate_loop_log rng pp T S batch_size min_n_points verbose st g = Some y"
  shows "generate_loop rng pp T S batch_size min_n_points verbose st g = Some (fst y, fst (snd y))"
  apply (rule generate_loop_log.raw_induct[OF _ assms])
  subgoal premises prems for f rng pp T S batch_size min_n_points verbose st g y
  proof (cases "gs_b st < batch_size")
    case False
    with prems(2) show ?thesis by (auto simp: generate_loop.simps)
  next
    case b: True
    obtain hr g1 where h: "homogeneous_poisson_sampling rng pp T S g = (hr, g1)" by fastforce
    show ?thesis
    proof (cases hr)
      case (Inl e)
      with prems(2) b h show ?thesis by (auto simp: generate_loop.simps)
    next
      case (Inr homo_points)
      obtain tr g2 l where th: "inhomogeneous_poisson_thinning_log pp rng homo_points verbose g1 = ((tr, g2), l)"
        by (metis prod.collapse)
      have th': "inhomogeneous_poisson_thinning pp rng homo_points verbose g1 = (tr, g2)"
        using thinning_log_result[of pp rng homo_points verbose g1] th by simp
      have loop: "generate_loop rng pp T S batch_size min_n_points verbose st g =
          (case tr of Inl e \<Rightarrow> Some (Inl e, g2)
           | Inr None \<Rightarrow> generate_loop rng pp T S batch_size min_n_points verbose st g2
           | Inr (Some points) \<Rightarrow> (if length points < min_n_points
               then generate_loop rng pp T S batch_size min_n_points verbose st g2
               else generate_loop rng pp T S batch_size min_n_points verbose (gen_record st points) g2))"
        by (subst generate_loop.simps) (simp add: b h Inr th' split: sum.split option.split)
      from prems(2) b h Inr th have body: "(case tr of Inl e \<Rightarrow> Some (Inl e, g2, l)
           | Inr None \<Rightarrow> Option.bind (f rng pp T S batch_size min_n_points verbose st g2) (\<lambda>(r, g', l'). Some (r, g', l @ l'))
           | Inr (Some points) \<Rightarrow> (if length points < min_n_points
               then Option.bind (f rng pp T S batch_size min_n_points verbose st g2) (\<lambda>(r, g', l'). Some (r, g', l @ l'))
               else Option.bind (f rng pp T S batch_size min_n_points verbose (gen_record st points) g2)
                      (\<lambda>(r, g', l'). Some (r, g', l @ [SequenceGenerated (Suc (gs_b st))] @ l')))) = Some y"
        by (simp split: sum.split_asm option.split_asm)
      show ?thesis
      proof (cases tr)
        case (Inl e)
        with body loop show ?thesis by auto
      next
        case tr: (Inr r)
        show ?thesis
        proof (cases r)
          case None
          with body tr obtain r' g' l' where
            "f rng pp T S batch_size min_n_points verbose st g2 = Some (r', g', l')" and "y = (r', g', l @ l')"
            by (auto dest!: bind_log_Some)
          with prems(1) loop tr None show ?thesis by fastforce
        next
          case (Some points)
          show ?thesis
          proof (cases "length points < min_n_points")
            case True
            with body tr Some obtain r' g' l' where
              "f rng pp T S batch_size min_n_points verbose st g2 = Some (r', g', l')" and "y = (r', g', l @ l')"
              by (auto dest!: bind_log_Some)
            with prems(1) loop tr Some True show ?thesis by fastforce
          next
            case False
            with body tr Some obtain r' g' l' where
              "f rng pp T S batch_size min_n_points verbose (gen_record st points) g2 = Some (r', g', l')"
              and "y = (r', g', l @ [SequenceGenerated (Suc (gs_b st))] @ l')"
              by (auto dest!: bind_log_Some)
            with prems(1) loop tr Some False show ?thesis by fastforce
          qed
        qed
      qed
    qed
  qed
  done


text \<open>One iteration of the logging loop, once the attempt's outcome is known.\<close>

lemma generate_loop_log_step:
  assumes "gs_b st < batch_size" and "homogeneous_poisson_sampling rng pp T S g = (Inr homo_points, g1)"
    and "inhomogeneous_poisson_thinning_log pp rng homo_points verbose g1 = ((tr, g2), l)"
  shows "generate_loop_log rng pp T S batch_size min_n_points verbose st g =
    (case tr of Inl e \<Rightarrow> Some (Inl e, g2, l)
     | Inr None \<Rightarrow> Option.bind (generate_loop_log rng pp T S batch_size min_n_points verbose st g2)
                    (\<lambda>(r, g', l'). Some (r, g', l @ l'))
     | Inr (Some points) \<Rightarrow> (if length points < min_n_points
         then Option.bind (generate_loop_log rng pp T S batch_size min_n_points verbose st g2)
                (\<lambda>(r, g', l'). Some (r, g', l @ l'))
         else Option.bind (generate_loop_log rng pp T S batch_size min_n_points verbose (gen_record st points) g2)
                (\<lambda>(r, g', l'). Some (r, g', l @ [SequenceGenerated (Suc (gs_b st))] @ l'))))"
  by (subst generate_loop_log.simps) (simp add: assms split: sum.split option.split)

lemma loop_result_log:
  assumes "generate_loop rng pp T S batch_size min_n_points verbose st g = Some y"
  shows "\<exists>l. generate_loop_log rng pp T S batch_size min_n_points verbose st g = Some (fst y, snd y, l)"
  apply (rule generate_loop.raw_induct[OF _ assms])
  subgoal premises prems for f rng pp T S batch_size min_n_points verbose st g y
  proof (cases "gs_b st < batch_size")
    case False
    with prems(2) show ?thesis by (auto simp: generate_loop_log.simps)
  next
    case b: True
    obtain hr g1 where h: "homogeneous_poisson_sampling rng pp T S g = (hr, g1)" by fastforce
    show ?thesis
    proof (cases hr)
      case (Inl e)
      with prems(2) b h show ?thesis by (auto simp: generate_loop_log.simps)
    next
      case (Inr homo_points)
      obtain tr g2 l where th: "inhomogeneous_poisson_thinning_log pp rng homo_points verbose g1 = ((tr, g2), l)"
        by (metis prod.collapse)
      have th': "inhomogeneous_poisson_thinning pp rng homo_points verbose g1 = (tr, g2)"
        using thinning_log_result[of pp rng homo_points verbose g1] th by simp
      note step = generate_loop_log_step[OF b h[unfolded Inr] th]
      from prems(2) b h Inr th' have body: "(case tr of Inl e \<Rightarrow> Some (Inl e, g2)
           | Inr None \<Rightarrow> f rng pp T S batch_size min_n_points verbose st g2
           | Inr (Some points) \<Rightarrow> (if length points < min_n_points
               then f rng pp T S batch_size min_n_points verbose st g2
               else f rng pp T S batch_size min_n_points verbose (gen_record st points) g2)) = Some y"
        by (simp split: sum.split_asm option.split_asm)
      show ?thesis
      proof (cases tr)
        case (Inl e)
        with body step show ?thesis by auto
      next
        case tr: (Inr r)
        show ?thesis
        proof (cases r)
          case None
          with body tr have "f rng pp T S batch_size min_n_points verbose st g2 = Some y" by simp
          with prems(1) obtain l' where
            "generate_loop_log rng pp T S batch_size min_n_points verbose st g2 = Some (fst y, snd y, l')" by blast
          with step tr None show ?thesis by simp
        next
          case (Some points)
          show ?thesis
          proof (cases "length points < min_n_points")
            case True
            with body tr Some have "f rng pp T S batch_size min_n_points verbose st g2 = Some y" by simp
            with prems(1) obtain l' where
              "generate_loop_log rng pp T S batch_size min_n_points verbose st g2 = Some (fst y, snd y, l')" by blast
            with step tr Some True show ?thesis by simp
          next
            case False
            with body tr Some have "f rng pp T S batch_size min_n_points verbose (gen_record st points) g2 = Some y"
              by simp
            with prems(1) obtain l' where "generate_loop_log rng pp T S batch_size min_n_points verbose
                (gen_record st points) g2 = Some (fst y, snd y, l')" by blast
            with step tr Some False show ?thesis by simp
          qed
        qed
      qed
    qed
  qed
  done


lemma loop_log_quiet:
  assumes "generate_loop_log rng pp T S batch_size min_n_points verbose st g = Some y"
  shows "\<forall>st' g' l. y = (Inr st', g', l) \<longrightarrow> \<not> verbose \<longrightarrow> gs_b st \<le> batch_size \<longrightarrow>
           [m\<leftarrow>l. \<not> bound_msg m] = map SequenceGenerated [Suc (gs_b st)..<Suc batch_size]"
  apply (rule generate_loop_log.raw_induct[OF _ assms])
  subgoal premises prems for f rng pp T S batch_size min_n_points verbose st g y
  proof (intro allI impI)
    fix st' g' l assume y: "y = (Inr st', g', l)" and q: "\<not> verbose" and le: "gs_b st \<le> batch_size"
    note IH = prems(1)[rule_format]
    show "[m\<leftarrow>l. \<not> bound_msg m] = map SequenceGenerated [Suc (gs_b st)..<Suc batch_size]"
    proof (cases "gs_b st < batch_size")
      case False
      with prems(2) y le show ?thesis by auto
    next
      case b: True
      obtain hr g1 where h: "homogeneous_poisson_sampling rng pp T S g = (hr, g1)" by fastforce
      show ?thesis
      proof (cases hr)
        case (Inl e)
        with prems(2) b h y show ?thesis by simp
      next
        case (Inr homo_points)
        obtain tr g2 l0 where th: "inhomogeneous_poisson_thinning_log pp rng homo_points verbose g1 = ((tr, g2), l0)"
          by (metis prod.collapse)
        have quiet: "[m\<leftarrow>l0. \<not> bound_msg m] = []"
          using thinning_log_quiet_bound[of pp rng homo_points g1] th q
          by (simp add: filter_empty_conv list_all_iff)
        from prems(2) b h Inr th have body: "(case tr of Inl e \<Rightarrow> Some (Inl e, g2, l0)
             | Inr None \<Rightarrow> Option.bind (f rng pp T S batch_size min_n_points verbose st g2) (\<lambda>(r, g', l'). Some (r, g', l0 @ l'))
             | Inr (Some points) \<Rightarrow> (if length points < min_n_points
                 then Option.bind (f rng pp T S batch_size min_n_points verbose st g2) (\<lambda>(r, g', l'). Some (r, g', l0 @ l'))
                 else Option.bind (f rng pp T S batch_size min_n_points verbose (gen_record st points) g2)
                        (\<lambda>(r, g', l'). Some (r, g', l0 @ [SequenceGenerated (Suc (gs_b st))] @ l')))) = Some y"
          by (simp split: sum.split_asm option.split_asm)
        show ?thesis
        proof (cases tr)
          case (Inl e)
          with body y show ?thesis by simp
        next
          case tr: (Inr r)
          show ?thesis
          proof (cases r)
            case None
            with body tr obtain r' g'' l' where
              f: "f rng pp T S batch_size min_n_points verbose st g2 = Some (r', g'', l')" and "y = (r', g'', l0 @ l')"
              by (auto dest!: bind_log_Some)
            with y have "r' = Inr st'" and "l = l0 @ l'" by simp_all
            with IH[OF f] q le quiet show ?thesis by simp
          next
            case (Some points)
            show ?thesis
            proof (cases "length points < min_n_points")
              case True
              with body tr Some obtain r' g'' l' where
                f: "f rng pp T S batch_size min_n_points verbose st g2 = Some (r', g'', l')" and "y = (r', g'', l0 @ l')"
                by (auto dest!: bind_log_Some)
              with y have "r' = Inr st'" and "l = l0 @ l'" by simp_all
              with IH[OF f] q le quiet show ?thesis by simp
            next
              case False
              with body tr Some obtain r' g'' l' where
                f: "f rng pp T S batch_size min_n_points verbose (gen_record st points) g2 = Some (r', g'', l')"
                and "y = (r', g'', l0 @ [SequenceGenerated (Suc (gs_b st))] @ l')"
                by (auto dest!: bind_log_Some)
              with y have "r' = Inr st'" and l: "l = l0 @ [SequenceGenerated (Suc (gs_b st))] @ l'" by simp_all
              have "gs_b (gen_record st points) \<le> batch_size" using b by (simp add: gen_record_def)
              with IH[OF f] \<open>r' = Inr st'\<close> q
              have "[m\<leftarrow>l'. \<not> bound_msg m] = map SequenceGenerated [Suc (Suc (gs_b st))..<Suc batch_size]"
                by (simp add: gen_record_def)
              with l quiet b show ?thesis by (simp add: upt_conv_Cons)
            qed
          qed
        qed
      qed
    qed
  qed
  done

text \<open>
  The logging model is the same computation: dropping the messages of the logging model of
  \<open>generate\<close> gives \<open>generate\<close> back, for every input, including the calls that never
  return (\<open>None\<close> on both sides) and the calls that raise.
\<close>

lemma generate_log_result:
  "map_option (\<lambda>(r, g', l). (r, g')) (generate_log rng pp T S batch_size min_n_points verbose g) =
   generate rng pp T S batch_size min_n_points verbose g"
proof (cases "generate_loop_log rng pp T S batch_size min_n_points verbose gen_init g")
  case None
  have "generate_loop rng pp T S batch_size min_n_points verbose gen_init g = None"
  proof (rule ccontr)
    assume "generate_loop rng pp T S batch_size min_n_points verbose gen_init g \<noteq> None"
    then obtain y where "generate_loop rng pp T S batch_size min_n_points verbose gen_init g = Some y" by blast
    from loop_result_log[OF this] None show False by simp
  qed
  with None show ?thesis by (simp add: generate_log_def generate_def)
next
  case (Some y)
  obtain r g' l where y: "y = (r, g', l)" by (metis prod.collapse)
  from loop_log_result[OF Some[unfolded y]]
  have "generate_loop rng pp T S batch_size min_n_points verbose gen_init g = Some (r, g')" by simp
  with Some y show ?thesis
    by (simp add: generate_log_def generate_def split: sum.split)
qed

text \<open>
  C34: with \<open>verbose=False\<close>, \<open>generate\<close> still writes to \<open>stderr\<close>: a call that returns
  a batch has printed exactly the lines \<open>1-th\<close>, ..., \<open>batch_size-th sequence is
  generated\<close>, in this order, and besides them only the bound violations of discarded
  attempts.
\<close>

theorem generate_log_quiet:
  assumes "generate_log rng pp T S batch_size min_n_points False g = Some (Inr (data, sizes), g', l)"
  shows "[m\<leftarrow>l. \<not> bound_msg m] = map SequenceGenerated [1..<Suc batch_size]"
proof -
  from assms obtain st where
    "generate_loop_log rng pp T S batch_size min_n_points False gen_init g = Some (Inr st, g', l)"
    by (auto simp: generate_log_def split: option.splits sum.splits prod.splits)
  from loop_log_quiet[OF this] show ?thesis by (simp add: gen_init_def)
qed

text \<open>
  C35: with \<open>verbose=False\<close>, thinning prints at most one line, the violated bound, and
  prints it exactly when it discards the sequence.
\<close>

theorem thinning_log_quiet:
  "list_all bound_msg (snd (inhomogeneous_poisson_thinning_log pp rng homo_points False g)) \<and>
   length (snd (inhomogeneous_poisson_thinning_log pp rng homo_points False g)) \<le> 1 \<and>
   (snd (inhomogeneous_poisson_thinning_log pp rng homo_points False g) \<noteq> [] \<longleftrightarrow>
    fst (inhomogeneous_poisson_thinning pp rng homo_points False g) = Inr None)"
  using thinning_loop_log_quiet[of pp rng "length homo_points" 0 homo_points "[]" g]
  by (simp add: inhomogeneous_poisson_thinning_log_def inhomogeneous_poisson_thinning_def split_def
      thinning_loop_log_result)

lemma thinning_loop_log_verbose:
  "fst (fst (thinning_loop_log pp rng True n i ps retained g)) = Inr (Some r) \<Longrightarrow> 0 < n div 10 \<Longrightarrow>
   List.map_filter checked_at (snd (thinning_loop_log pp rng True n i ps retained g)) =
     [j\<leftarrow>[i..<i + length ps]. j \<noteq> 0 \<and> j mod (n div 10) = 0] \<and>
   snd (thinning_loop_log pp rng True n i ps retained g) \<noteq> [] \<and>
   last (snd (thinning_loop_log pp rng True n i ps retained g)) = ThinningDone (length r) (HawkesLam_str (pp_lam pp))"
proof (induction ps arbitrary: i retained g)
  case Nil
  then show ?case by (auto simp: map_filter_simps)
next
  case (Cons p ps)
  show ?case
  proof (cases "HawkesLam_value (pp_lam pp) (hd p) (map hd retained) (tl p) (map tl retained)")
    case (Inl e)
    with Cons.prems(1) show ?thesis by simp
  next
    case (Inr v)
    obtain D g1 where D: "np_uniform rng 0 1 g = (D, g1)" by fastforce
    let ?r' = "if D * HawkesLam_upper_bound (pp_lam pp) \<le> v then retained @ [p] else retained"
    let ?rest = "thinning_loop_log pp rng True n (Suc i) ps ?r' g1"
    let ?msg = "if i \<noteq> 0 \<and> i mod (n div 10) = 0 then [Checked i (length ?r')] else []"
    from Cons.prems(1) Inr D have le: "\<not> HawkesLam_upper_bound (pp_lam pp) < v"
      by (auto simp: Let_def split: if_splits)
    with Inr D Cons.prems(2) have log: "thinning_loop_log pp rng True n i (p # ps) retained g = (fst ?rest, ?msg @ snd ?rest)"
      by (simp add: Let_def split_def)
    with Cons.prems(1) have "fst (fst ?rest) = Inr (Some r)" by simp
    note IH = Cons.IH[OF this Cons.prems(2)]
    let ?P = "\<lambda>j. j \<noteq> 0 \<and> j mod (n div 10) = 0"
    have msg: "List.map_filter checked_at ?msg = (if ?P i then [i] else [])"
      by (simp add: map_filter_simps)
    have "List.map_filter checked_at (snd (thinning_loop_log pp rng True n i (p # ps) retained g)) =
        (if ?P i then [i] else []) @ [j\<leftarrow>[Suc i..<Suc i + length ps]. ?P j]"
      using IH by (simp only: log snd_conv map_filter_append msg)
    also have "\<dots> = [j\<leftarrow>[i..<i + length (p # ps)]. ?P j]"
      by (simp only: length_Cons add_Suc_right filter_upt_step)
    finally have f: "List.map_filter checked_at (snd (thinning_loop_log pp rng True n i (p # ps) retained g)) =
        [j\<leftarrow>[i..<i + length (p # ps)]. ?P j]" .
    from IH have ne: "snd ?rest \<noteq> []" by blast
    have "snd (thinning_loop_log pp rng True n i (p # ps) retained g) \<noteq> []"
      by (simp only: log snd_conv) (simp add: ne)
    moreover have "last (snd (thinning_loop_log pp rng True n i (p # ps) retained g)) = ThinningDone (length r) (HawkesLam_str (pp_lam pp))"
      by (simp only: log snd_conv last_append) (simp add: ne IH)
    ultimately show ?thesis using f by blast
  qed
qed

text \<open>
  C36: with \<open>verbose=True\<close> and at least ten candidates, a thinning run that returns a
  sequence prints the number of proposals first, the retained count last, and a progress
  line exactly at the candidates \<open>i > 0\<close> with \<open>i % int(n / 10) == 0\<close>, in order.
\<close>

theorem thinning_log_verbose:
  assumes "inhomogeneous_poisson_thinning_log pp rng homo_points True g = ((Inr (Some r), g'), l)"
    and "10 \<le> length homo_points"
  shows "hd l = HomoSamples (length homo_points) \<and> last l = ThinningDone (length r) (HawkesLam_str (pp_lam pp)) \<and>
         List.map_filter checked_at l = [j\<leftarrow>[1..<length homo_points]. j mod (length homo_points div 10) = 0]"
proof -
  let ?run = "thinning_loop_log pp rng True (length homo_points) 0 homo_points [] g"
  from assms(1) have l: "l = HomoSamples (length homo_points) # snd ?run" and r: "fst (fst ?run) = Inr (Some r)"
    by (simp_all add: inhomogeneous_poisson_thinning_log_def split_def Let_def prod_eq_iff)
  from assms(2) have "0 < length homo_points div 10" by simp
  note run = thinning_loop_log_verbose[OF r this]
  from run l show ?thesis by (simp only: filter_upt_nonzero) (simp add: map_filter_simps)
qed

subsection \<open>Witnesses\<close>

theorem generate_log_quiet_witness:
  "\<exists>data sizes g' l.
     generate_log demo_rng (demo_pp 10) (0, 1) [(0, 1), (0, 1)] 1 1 False 0 = Some (Inr (data, sizes), g', l) \<and>
     [m\<leftarrow>l. \<not> bound_msg m] = map SequenceGenerated [1..<Suc 1]"
proof -
  obtain l where l: "generate_loop_log demo_rng (demo_pp 10) (0, 1) [(0, 1), (0, 1)] 1 1 False gen_init 0 =
      Some (Inr (gen_record gen_init [[1/2::real, 1/2, 1/2], [1/2, 1/2, 1/2], [1/2, 1/2, 1/2]]), 13, l)"
    using loop_result_log[OF demo_generate_loop_value] by auto
  then have g: "generate_log demo_rng (demo_pp 10) (0, 1) [(0, 1), (0, 1)] 1 1 False 0 =
      Some (Inr ([[[1/2::real, 1/2, 1/2], [1/2, 1/2, 1/2], [1/2, 1/2, 1/2]]], [3]), 13, l)"
    by (simp add: generate_log_def gen_record_def gen_init_def pack_sequence_def)
  from g generate_log_quiet[OF g] show ?thesis by blast
qed


theorem thinning_log_verbose_witness:
  "\<exists>g' l. inhomogeneous_poisson_thinning_log (demo_pp 10) demo_rng (replicate 10 [1/2, 1/2, 1/2]) True 0 =
       ((Inr (Some (replicate 10 [1/2, 1/2, 1/2])), g'), l) \<and> 10 \<le> length (replicate 10 [1/2::real, 1/2, 1/2]) \<and>
     hd l = HomoSamples 10 \<and> last l = ThinningDone 10 ''Hawkes processes'' \<and> List.map_filter checked_at l = [1..<10]"
proof -
  have t: "inhomogeneous_poisson_thinning (demo_pp 10) demo_rng (replicate 10 [1/2, 1/2, 1/2]) True 0 =
      (Inr (Some (replicate 10 [1/2::real, 1/2, 1/2])), 10)"
  proof -
    have "rows_xy (replicate 10 [1/2::real, 1/2, 1/2])" by (simp add: rows_xy_def list_all_iff)
    from demo_thinning_loop_keep[OF this, where verbose = True and n = 10 and i = 0 and retained = "[]" and g = 0]
    show ?thesis by (simp add: inhomogeneous_poisson_thinning_def)
  qed
  obtain l where l: "inhomogeneous_poisson_thinning_log (demo_pp 10) demo_rng (replicate 10 [1/2, 1/2, 1/2]) True 0 =
      ((Inr (Some (replicate 10 [1/2::real, 1/2, 1/2])), 10), l)"
    using thinning_log_result[of "demo_pp 10" demo_rng "replicate 10 [1/2::real, 1/2, 1/2]" True 0] t
    by (metis prod.collapse)
  have n: "10 \<le> length (replicate 10 [1/2::real, 1/2, 1/2])" by simp
  have "[j\<leftarrow>[1..<10]. j mod (10 div 10) = 0] = [1..<(10::nat)]" by simp
  with thinning_log_verbose[OF l n] l n show ?thesis by (auto simp: HawkesLam_str_def)
qed

end
