(* ===== verification/Spec2Isabelle.thy ===== *)
theory Spec2Isabelle
  imports Plot Packing Generate_Steps Logging
begin

text \<open>
  \<^bold>\<open>A verified model of STPPG, the spatio-temporal Hawkes point process generator\<close>
  (\<^verbatim>\<open>src/stppg.py\<close>).

  \<^bold>\<open>The program.\<close> Five excitation kernels (\<open>StdDiffusionKernel\<close>,
  \<open>GaussianDiffusionKernel\<close>, \<open>GaussianMixtureDiffusionKernel\<close>,
  \<open>SpatialVariantGaussianDiffusionKernel\<close>, \<open>SpatialVariantGaussianMixtureDiffusionKernel\<close>,
  lines 24--157) share one method \<open>nu(t, s, his_t, his_s)\<close>, the contribution of each
  history event to the rate at \<open>(t, s)\<close>. \<open>HawkesLam\<close> (lines 161--186) adds a background
  rate \<open>mu\<close> to the sum of these contributions (\<open>value\<close>) and declares an upper bound
  (\<open>upper_bound\<close>). \<open>SpatialTemporalPointProcess\<close> (lines 188--300) samples with it:
  \<open>_homogeneous_poisson_sampling\<close> draws a Poisson number of uniform proposals in
  \<open>T \<times> S\<close> and sorts them by time, \<open>_inhomogeneous_poisson_thinning\<close> keeps each proposal
  when \<open>value >= D * upper_bound\<close> for a fresh uniform draw \<open>D\<close>, with the points kept
  before it as history, and \<open>generate\<close> repeats both until it has \<open>batch_size\<close>
  sequences of at least \<open>min_n_points\<close> points, which it zero-pads into one array.
  \<open>plot_3d_pointprocess_lam_f\<close> (lines 303--359) evaluates the intensity and the
  conditional density on a grid for a points array such as one slab of that array.

  \<^bold>\<open>The library\<close>, one theory per part: \<open>Prelude\<close>, \<open>Kernels\<close>, \<open>Intensity\<close>,
  \<open>Sampler\<close>, \<open>Ogata\<close> and \<open>Generate\<close> each import the one before; \<open>Packing\<close>,
  \<open>Generate_Steps\<close>, \<open>Logging\<close> and \<open>Plot\<close> import \<open>Generate\<close>; this theory imports
  the last four.
  \<^item> \<open>Prelude\<close>: the exceptions as \<open>py_error\<close> (\<open>IndexError\<close>, \<open>ZeroDivisionError\<close>,
    \<open>ValueError\<close>, \<open>NameError\<close>), numpy arrays as lists of rows of reals, elementwise
    vector operations, the loop \<open>map_sum\<close> (append one result per element, the first
    exception ends it) and the list lemmas the components share.
  \<^item> \<open>Kernels\<close>: one record per kernel class with its constructor \<open><Class>_init\<close>, the
    scalar formula \<open><Class>_val\<close> and the method \<open><Class>_nu\<close>, which raises
    \<open>IndexError\<close> at \<open>delta_s[:, 1]\<close> for a location with fewer than two coordinates;
    \<open>pairwise_nu\<close> maps a formula over the history as the vectorised numpy code does;
    \<open>mixture_loop\<close> is the accumulation loop of both mixtures; the datatype \<open>kernel\<close>
    with \<open>kernel_nu\<close> is the duck-typed \<open>kernel.nu\<close> interface, and \<open>kernel_valid\<close> the
    parameter invariant. Theorems: non-negativity of every valid kernel (C22), the
    standard kernel as a Gaussian one (C24), additivity of the mixture (C25; the
    lemma \<open>GaussianMixture_single\<close> shows a one-component mixture is its component), the
    degeneracy of the spatially varying kernel (C26), the invariant the mixture
    constructor establishes (C27), and the weight list it fails to check (C28; the lemma
    \<open>GaussianMixture_init_unchecked\<close> shows a correlation 2 accepted). The lemma
    \<open>GaussianDiffusionKernel_val_unbounded\<close>: with \<open>C > 0\<close> the kernel exceeds every
    bound as \<open>dt \<rightarrow> 0\<^sup>+\<close>.
  \<^item> \<open>Intensity\<close>: \<open>HawkesLam\<close> and its methods. Theorems: the empty-history branch
    is only a shortcut (C19), \<open>value \<ge> mu\<close> (C20), a bound of \<open>value\<close> by the kernel's
    peaks (C21), and the \<open>IndexError\<close> of a short location once a history exists (C23).
    The lemma \<open>HawkesLam_value_unbounded\<close>: one earlier event lifts the intensity of an
    exciting Gaussian kernel above any given value.
  \<^item> \<open>Sampler\<close>: numpy's global random state as an explicit generator \<open>'g\<close> inside the
    record \<open>'g rng\<close> (a standard-uniform draw and a Poisson draw, each returning the next
    state), threaded through \<open>homogeneous_poisson_sampling\<close> and the thinning loop
    \<open>thinning_loop\<close> / \<open>inhomogeneous_poisson_thinning\<close>; \<open>np_poisson\<close> raises
    \<open>ValueError\<close> for a negative mean and for one above numpy's \<open>poisson_lam_max\<close>. The
    contract of thinning is the inductive relation \<open>thin_run lam ps ds retained r\<close>:
    Ogata's thinning of the candidates \<open>ps\<close> on the uniform draws \<open>ds\<close>. Theorems: a
    returned sequence is the contract's run on the draws the code consumed (C2), a
    background rate above the bound discards the sequence (C7), the
    \<open>ZeroDivisionError\<close> of the verbose progress test (C12), the \<open>IndexError\<close> of a region
    of dimension 0 or 1 (C13), and the transpose round trip of the proposals (C18: the
    sort moves whole rows); helper lemmas show that proposals are time-sorted rows of
    width \<open>1 + len(S)\<close> inside the region. The predicate \<open>bounded_intensity\<close> (the
    spec's "the bound dominates the intensity everywhere") holds only for kernels that do
    not excite (lemma \<open>bounded_intensity_Gaussian_amplitude\<close>); the one theorem that
    assumes it (C14) is scoped accordingly.
  \<^item> \<open>Ogata\<close>: every outcome of thinning against the contract, with no hypothesis on the
    bound: \<open>None\<close> exactly when the contract's run reaches a candidate above the bound
    (C3, a refinement of the discard path, through \<open>thinning_loop_prefix\<close>, which shows
    the loop follows the contract on a prefix); the only exceptions are the progress
    test's and the kernels' (C10); for every exciting Gaussian kernel, whatever the
    declared bound, two close candidates make thinning discard the sequence (C9); the
    first retained event is the first candidate whose acceptance test against the
    background rate passed (C16, spec property 7).
  \<^item> \<open>Generate\<close>: the loop state \<open>gen_state\<close>, the retry loop \<open>generate_loop\<close> as a
    \<^theory_text>\<open>partial_function (option)\<close> (\<open>None\<close>: the call never returns), the packing
    \<open>pack_sequence\<close> / \<open>pack_loop\<close> and \<open>generate\<close>. The loop is proved partially
    correct by fixpoint induction over an interface predicate \<open>attempts_ok\<close> on single
    attempts, with the invariant \<open>gen_inv\<close> on its bookkeeping; a second fixpoint
    induction shows that it never returns when every attempt ends in \<open>continue\<close>
    (\<open>attempt_rejected\<close>), a third collects the exceptions that escape it
    (\<open>gen_error_ok\<close>). Theorems: the shape of the result (C4), non-termination when
    \<open>mu\<close> exceeds the bound (C8) and when \<open>mu = 0\<close> (C17), and the
    \<open>ZeroDivisionError\<close> of \<open>generate\<close>'s default \<open>verbose=True\<close> (C14).
  \<^item> \<open>Generate_Steps\<close>: the same loop as a state machine: \<open>gen_attempt\<close> is one attempt
    and the inductive relation \<open>gen_step\<close> one iteration that stays in the loop; the lemma
    \<open>generate_loop_iff_steps\<close> ties it to the partial function. Theorem: the reachable
    states satisfy the loop invariant, by rule induction (C6).
  \<^item> \<open>Packing\<close>: the type \<open>array3_shape\<close> of \<open>np.zeros((batch_size, max_len, 3))\<close>.
    Theorems: every array \<open>generate\<close> returns has it, for every region (C5); the
    exceptions of \<open>generate\<close>, each with its cause (C11); a region of dimension 1 or more
    than 2 ends in \<open>ValueError\<close> at the packing (C15); the lemma
    \<open>generate_empty_batch\<close> covers the boundary \<open>batch_size = 0\<close> (no draw, an empty array).
  \<^item> \<open>Logging\<close>: the lines printed to \<open>stderr\<close> as a list of \<open>log_msg\<close> returned beside
    the result by \<open>thinning_loop_log\<close> / \<open>inhomogeneous_poisson_thinning_log\<close> and
    \<open>generate_loop_log\<close> / \<open>generate_log\<close>, which follow the control flow of the
    non-logging functions with the prints added (the lemma \<open>generate_log_result\<close> checks
    that dropping the messages gives \<open>generate\<close> back). Theorems: with \<open>verbose=False\<close>
    \<open>generate\<close> still prints one line per sequence (C34) and thinning the violated bound
    (C35); with \<open>verbose=True\<close> thinning prints its progress exactly at the multiples of
    \<open>int(n / 10)\<close> (C36).
  \<^item> \<open>Plot\<close>: the numbers \<open>plot_3d_pointprocess_lam_f\<close> computes (\<open>plot_lam_f\<close>, from
    \<open>np_linspace\<close>, \<open>plot_grid\<close>, \<open>plot_history\<close>, \<open>plot_last_t\<close>), and
    \<open>plot_3d_pointprocess_avg_lam\<close> (\<open>plot_avg_lam\<close>, \<open>avg_lam_lamval_at_t\<close>). Theorems: the
    density lies between 0 and the intensity (C31), the Riemann sum over-weights the
    integral by \<open>(ngrid / (ngrid - 1))\<^sup>2\<close> (C32), and a region of more than two
    dimensions raises \<open>ValueError\<close> (C33); the lemma \<open>plot_avg_lam_NameError\<close> shows that
    the second plot raises \<open>NameError\<close> on every input.
  \<^item> This theory: the end-to-end theorem (C1): every sequence \<open>generate\<close> returns is
    Ogata's thinning of time-sorted proposals inside \<open>T \<times> S\<close> on draws of the source;
    the plot's history of a padded slab is the slab's recorded events before \<open>t\<close>
    (C29); and the composition of \<open>generate\<close> with the plot (C30): every slab of the
    array it returns, zero padding included, plots with the bounds of C31, although the
    padding leaves the slab unsorted (the lemma \<open>generate_slabs\<close> gives the slabs'
    shape, and \<open>plot_density_bounds_hist\<close> the bounds under a sorted history only).

  \<^bold>\<open>Modelling choices.\<close> Python floats are exact reals (\<open>exp\<close>, \<open>pi\<close>, \<open>sqrt\<close> of
  \<open>Complex_Main\<close>); rounding, \<open>inf\<close> and \<open>nan\<close> are not modelled, and where numpy
  divides by zero (\<open>delta_t = 0\<close> for two proposals at the same time, \<open>rho = \<plusminus>1\<close>,
  \<open>ngrid = 1\<close> in the plot) HOL's division yields 0: the theorems assume
  \<open>delta_t > 0\<close>, \<open>|rho| < 1\<close> and \<open>ngrid \<ge> 2\<close>. In particular the demo source
  \<open>demo_rng\<close> draws equal times, so the witnesses that keep several events of a kernel
  with \<open>C = 0\<close> show the model's value, where numpy would compute \<open>0 * nan\<close>. The kernels
  read coordinates 0 and 1 of each location, as the source does, and raise
  \<open>IndexError\<close> where there are fewer; the history rows are taken to have the width of
  the location, as in every call of the sampler (numpy's broadcasting \<open>ValueError\<close> for
  rows of another width, reachable only from the plot with a points array that is not
  \<open>[t, x, y]\<close>, is not modelled). The theorems about successful evaluation assume rows
  \<open>[t, x, y, ...]\<close> (\<open>rows_xy\<close>). Randomness is not modelled as probability: the random
  source is a parameter, the theorems hold for every source (or every source whose
  uniform draws lie in \<open>[0, 1)\<close>, \<open>rng_ok\<close>, or in \<open>(0, 1)\<close>, \<open>rng_pos\<close>), and
  \<open>demo_rng\<close> (all uniform draws \<open>1/2\<close>, all Poisson draws 3) instantiates them. No
  fuel is used: thinning, packing and the plot's loops are structural recursions, and the
  unbounded retry loop of \<open>generate\<close> is a partial function. Its non-termination is
  proved (C8, C17); its termination is not a theorem here: for an exciting kernel no
  declared bound is safe (C9), so whether a batch is ever completed depends on the draws,
  i.e.\ on probability, which is not modelled. \<open>utils.lebesgue_measure\<close> is not among
  the sources and is modelled from the spec. The messages keep the numbers and the label
  (\<open>HawkesLam.__str__\<close>) the code prints, not the timestamps of \<open>arrow.now()\<close> or the
  widths of printed shapes.

  \<^bold>\<open>Not modelled.\<close> The matplotlib calls of both plotting functions only draw and
  are not modelled; the imports and the module docstring carry no behaviour. numpy's
  random generator is modelled as the explicit state \<open>'g rng\<close> with its two draws, but not
  their distributions: HOL-Probability is outside the libraries this development may use,
  so no theorem speaks of probabilities (termination of \<open>generate\<close> with probability 1
  among them), and the random-source component stays partly modelled. Floating-point
  rounding, \<open>inf\<close> and \<open>nan\<close> are not modelled (see above).
\<close>

section \<open>End to end: the batch returned by generate\<close>

lemma attempts_ok_thinned_proposals:
  assumes "rng_ok rng" and "region_ok (T # S)"
  shows "attempts_ok rng pp T S verbose
    (\<lambda>points. \<exists>homo_points g1. sorted (map hd homo_points) \<and>
       list_all (\<lambda>r. in_region r (T # S)) homo_points \<and> subseq points homo_points \<and>
       thin_run (pp_lam pp) homo_points (fst (np_uniform_n rng 0 1 (length homo_points) g1)) [] points)"
  unfolding attempts_ok_def
proof (intro allI impI)
  fix g homo_points g1 points g2
  assume h: "homogeneous_poisson_sampling rng pp T S g = (Inr homo_points, g1)"
    and th: "inhomogeneous_poisson_thinning pp rng homo_points verbose g1 = (Inr (Some points), g2)"
  have sorted: "sorted (map hd homo_points)"
    using homogeneous_poisson_sampling_sorted[OF h] by blast
  have region: "list_all (\<lambda>r. in_region r (T # S)) homo_points"
    using homogeneous_poisson_sampling_in_region[OF assms h] by (simp add: list_all_iff)
  have run: "thin_run (pp_lam pp) homo_points (fst (np_uniform_n rng 0 1 (length homo_points) g1)) [] points"
    using thinning_loop_sound[of pp rng verbose "length homo_points" 0 homo_points "[]" g1 points g2] th
    by (simp add: inhomogeneous_poisson_thinning_def)
  from thin_run_subseq[OF run] have "subseq points homo_points" by simp
  with sorted region run
  show "\<exists>homo_points g1. sorted (map hd homo_points) \<and> list_all (\<lambda>r. in_region r (T # S)) homo_points \<and>
          subseq points homo_points \<and>
          thin_run (pp_lam pp) homo_points (fst (np_uniform_n rng 0 1 (length homo_points) g1)) [] points" by blast
qed

text \<open>
  C1: every sequence of a batch that \<open>generate\<close> returns (two spatial dimensions, a
  random source with uniform draws in \<open>[0, 1)\<close>, a region of intervals \<open>[lo, hi]\<close>) is
  Ogata's thinning of a time-sorted proposal list inside \<open>T \<times> S\<close>: a subsequence of it,
  obtained by Ogata's thinning on uniform draws of the source, in which every evaluated
  intensity was within \<open>upper_bound()\<close> and a candidate was kept exactly when its
  acceptance test passed; the
  returned array holds each such sequence, zero-padded, and \<open>sizes\<close> their lengths.
\<close>

theorem generate_sequences_sound:
  assumes "generate rng pp T S batch_size min_n_points verbose g = Some (Inr (data, sizes), g')"
    and "rng_ok rng" and "region_ok (T # S)" and "length S = 2"
  shows "\<exists>pl. data = map (\<lambda>p. p @ replicate (foldr max sizes 0 - length p) [0, 0, 0]) pl \<and>
           sizes = map length pl \<and>
           list_all (\<lambda>points. \<exists>homo_points g1. sorted (map hd homo_points) \<and>
             list_all (\<lambda>r. in_region r (T # S)) homo_points \<and> subseq points homo_points \<and>
             thin_run (pp_lam pp) homo_points (fst (np_uniform_n rng 0 1 (length homo_points) g1)) [] points) pl"
  using generate_batch[OF assms(1,4) attempts_ok_thinned_proposals[OF assms(2,3)]] by blast

theorem generate_sequences_sound_witness:
  "generate demo_rng (demo_pp 10) (0, 1) [(0, 1), (0, 1)] 1 1 False 0 =
     Some (Inr ([[[1/2, 1/2, 1/2], [1/2, 1/2, 1/2], [1/2, 1/2, 1/2]]], [3]), 13) \<and>
   rng_ok demo_rng \<and> region_ok [(0, 1), (0, 1), (0, 1)] \<and> length [(0::real, 1::real), (0, 1)] = 2 \<and>
   (\<exists>pl. [[[1/2, 1/2, 1/2], [1/2, 1/2, 1/2], [1/2, 1/2, 1/2]]] =
          map (\<lambda>p. p @ replicate (foldr max [3] 0 - length p) [0, 0, 0]) pl \<and>
        [3] = map length pl \<and>
        list_all (\<lambda>points. \<exists>homo_points g1. sorted (map hd homo_points) \<and>
          list_all (\<lambda>r. in_region r [(0, 1), (0, 1), (0, 1)]) homo_points \<and> subseq points homo_points \<and>
          thin_run (pp_lam (demo_pp 10)) homo_points (fst (np_uniform_n demo_rng 0 1 (length homo_points) g1)) [] points) pl)"
proof -
  have r: "region_ok [(0::real, 1::real), (0, 1), (0, 1)]" by (simp add: region_ok_def)
  have l: "length [(0::real, 1::real), (0, 1)] = 2" by simp
  from generate_sequences_sound[OF demo_generate_value demo_rng_ok r l] demo_generate_value demo_rng_ok r l
  show ?thesis by simp
qed

section \<open>From the sampler to the plot\<close>

lemma in_region_hd: "in_region r ((lo, hi) # S) \<Longrightarrow> lo \<le> hd r"
  by (cases r) (auto simp: in_region_def)

lemma packed_history:
  assumes "sorted (map hd p)" and "list_all (\<lambda>r. 0 < hd r) p"
  shows "plot_history (p @ replicate k [0, 0, 0]) t = takeWhile (\<lambda>r. hd r < t) (take (length p) (p @ replicate k [0, 0, 0]))"
  using plot_history_append_zero_rows[of "replicate k [0, 0, 0]" p t] plot_history_sorted[OF assms, of t] by simp

lemma demo_generate_late_value:
  "generate demo_rng (demo_pp 10) (1/2, 1) [(0, 1), (0, 1)] 1 1 False 0 =
     Some (Inr ([[[3/4::real, 1/2, 1/2], [3/4, 1/2, 1/2], [3/4, 1/2, 1/2]]], [3]), 13)"
proof -
  have h: "homogeneous_poisson_sampling demo_rng (demo_pp 10) (1/2, 1) [(0, 1), (0, 1)] 0 =
      (Inr [[3/4::real, 1/2, 1/2], [3/4, 1/2, 1/2], [3/4, 1/2, 1/2]], 10)"
    by (simp add: homogeneous_poisson_sampling_def np_poisson_def lebesgue_measure_def demo_pp_def
        HawkesLam_upper_bound_def HawkesLam_init_def demo_rng_def np_uniform_def numeral_3_eq_3 Let_def)
  have th: "inhomogeneous_poisson_thinning (demo_pp 10) demo_rng [[3/4::real, 1/2, 1/2], [3/4, 1/2, 1/2], [3/4, 1/2, 1/2]] False 10 =
      (Inr (Some [[3/4::real, 1/2, 1/2], [3/4, 1/2, 1/2], [3/4, 1/2, 1/2]]), 13)"
    using demo_thinning_loop_keep[where n = "length [[3/4::real, 1/2, 1/2], [3/4, 1/2, 1/2], [3/4, 1/2, 1/2]]" and i = 0
        and ps = "[[3/4::real, 1/2, 1/2], [3/4, 1/2, 1/2], [3/4, 1/2, 1/2]]" and retained = "[]" and g = 10 and verbose = False]
    by (simp add: inhomogeneous_poisson_thinning_def rows_xy_def)
  have "generate_loop demo_rng (demo_pp 10) (1/2, 1) [(0, 1), (0, 1)] 1 1 False gen_init 0 =
        Some (Inr (gen_record gen_init [[3/4::real, 1/2, 1/2], [3/4, 1/2, 1/2], [3/4, 1/2, 1/2]]), 13)"
    by (subst generate_loop.simps) (simp add: gen_init_def h th gen_record_def generate_loop.simps)
  then show ?thesis
    by (simp add: generate_def gen_record_def gen_init_def pack_sequence_def)
qed

text \<open>
  The slabs of \<open>generate\<close>'s array, for a time window after 0: each is a recorded
  sequence, time-sorted and after 0, padded with zero rows to \<open>max(sizes)\<close>.
\<close>

lemma generate_slabs:
  assumes "generate rng pp T S batch_size min_n_points verbose g = Some (Inr (data, sizes), g')"
    and "rng_ok rng" and "region_ok (T # S)" and "length S = 2" and "0 < fst T"
  shows "\<exists>pl. data = map (\<lambda>p. p @ replicate (foldr max sizes 0 - length p) [0, 0, 0]) pl \<and>
           sizes = map length pl \<and> (\<forall>p\<in>set pl. sorted (map hd p) \<and> list_all (\<lambda>r. 0 < hd r) p)"
proof -
  obtain pl where data: "data = map (\<lambda>p. p @ replicate (foldr max sizes 0 - length p) [0, 0, 0]) pl"
    and sizes: "sizes = map length pl"
    and ok: "list_all (\<lambda>points. \<exists>homo_points g1. sorted (map hd homo_points) \<and>
       list_all (\<lambda>r. in_region r (T # S)) homo_points \<and> subseq points homo_points \<and>
       thin_run (pp_lam pp) homo_points (fst (np_uniform_n rng 0 1 (length homo_points) g1)) [] points) pl"
    using generate_batch[OF assms(1,4) attempts_ok_thinned_proposals[OF assms(2,3)]] by blast
  have seq: "sorted (map hd p) \<and> list_all (\<lambda>r. 0 < hd r) p" if "p \<in> set pl" for p
  proof -
    from ok that obtain homo_points where s: "sorted (map hd homo_points)"
      and r: "list_all (\<lambda>r. in_region r (T # S)) homo_points" and sub: "subseq p homo_points"
      by (auto simp: list_all_iff)
    from sub have "set p \<subseteq> set homo_points" by (auto dest: list_emb_set)
    with r assms(5) have "list_all (\<lambda>r. 0 < hd r) p"
      by (cases T) (fastforce simp: list_all_iff dest: in_region_hd)
    with sorted_subseq_map[OF sub s] show ?thesis by blast
  qed
  with data sizes show ?thesis by blast
qed

text \<open>
  C29: the plot reads the history of a sequence straight from \<open>generate\<close>'s padded array:
  when the time window starts after 0, the zero rows that pad each sequence never enter
  the plot's history (\<open>points[:, 0] > 0\<close> removes them), and the history of each slab at
  time \<open>t\<close> is exactly the prefix of its \<open>sizes[b]\<close> recorded events before \<open>t\<close>.
\<close>

theorem generate_plot_history:
  assumes "generate rng pp T S batch_size min_n_points verbose g = Some (Inr (data, sizes), g')"
    and "rng_ok rng" and "region_ok (T # S)" and "length S = 2" and "0 < fst T"
  shows "list_all2 (\<lambda>slab n. plot_history slab t = takeWhile (\<lambda>r. hd r < t) (take n slab)) data sizes"
proof -
  obtain pl where data: "data = map (\<lambda>p. p @ replicate (foldr max sizes 0 - length p) [0, 0, 0]) pl"
    and sizes: "sizes = map length pl" and seq: "\<forall>p\<in>set pl. sorted (map hd p) \<and> list_all (\<lambda>r. 0 < hd r) p"
    using generate_slabs[OF assms] by blast
  show ?thesis
    unfolding data sizes
    by (rule list_all2_map_same) (use seq packed_history in blast)
qed

text \<open>
  C30: \<open>generate\<close>'s array can be plotted as it is: for a time window after 0, every
  padded slab it returns, given to \<open>plot_3d_pointprocess_lam_f\<close> with a valid kernel,
  \<open>mu \<ge> 0\<close>, \<open>plot_ts \<ge> 0\<close> and at least two grid points per axis, yields
  \<open>ngrid\<^sup>2\<close> intensity values, each at least \<open>mu\<close>, and densities between 0 and the
  intensity; the trailing zero rows, which leave the slab unsorted, never reach the
  intensity.
\<close>

theorem generate_plot_density:
  assumes "generate rng pp T S batch_size min_n_points verbose g = Some (Inr (data, sizes), g')"
    and "rng_ok rng" and "region_ok (T # S)" and "length S = 2" and "0 < fst T"
    and "kernel_valid (lam_kernel lam)" and "0 \<le> lam_mu lam" and "0 \<le> plot_ts" and "2 \<le> ngrid"
  shows "list_all (\<lambda>slab. \<exists>evals fvals. plot_lam_f slab lam plot_ts S ngrid = Inr (evals, fvals) \<and>
           length evals = ngrid * ngrid \<and> list_all (\<lambda>e. lam_mu lam \<le> e) evals \<and>
           list_all2 (\<lambda>e f. 0 \<le> f \<and> f \<le> e) evals fvals) data"
proof -
  obtain pl where data: "data = map (\<lambda>p. p @ replicate (foldr max sizes 0 - length p) [0, 0, 0]) pl"
    and seq: "\<forall>p\<in>set pl. sorted (map hd p) \<and> list_all (\<lambda>r. 0 < hd r) p"
    using generate_slabs[OF assms(1-5)] by blast
  have S: "region_ok S" using assms(3) by (cases T) (simp add: region_ok_def)
  have sorted: "sorted (map hd (plot_history (p @ replicate k [0, 0, 0]) plot_ts))" if "p \<in> set pl" for p k
    using plot_history_append_zero_rows[of "replicate k [0, 0, 0]" p plot_ts] plot_history_hd_sorted[of p plot_ts]
      seq that by simp
  show ?thesis
    unfolding data
  proof (rule list_all_iff[THEN iffD2], rule ballI)
    fix slab assume "slab \<in> set (map (\<lambda>p. p @ replicate (foldr max sizes 0 - length p) [0, 0, 0]) pl)"
    then obtain p where p: "p \<in> set pl" and slab: "slab = p @ replicate (foldr max sizes 0 - length p) [0, 0, 0]"
      by auto
    show "\<exists>evals fvals. plot_lam_f slab lam plot_ts S ngrid = Inr (evals, fvals) \<and>
           length evals = ngrid * ngrid \<and> list_all (\<lambda>e. lam_mu lam \<le> e) evals \<and>
           list_all2 (\<lambda>e f. 0 \<le> f \<and> f \<le> e) evals fvals"
      unfolding slab by (rule plot_density_bounds_hist[OF assms(6,7) sorted[OF p] assms(8) S assms(4,9)])
  qed
qed

theorem generate_plot_history_witness:
  "generate demo_rng (demo_pp 10) (1/2, 1) [(0, 1), (0, 1)] 1 1 False 0 =
     Some (Inr ([[[3/4::real, 1/2, 1/2], [3/4, 1/2, 1/2], [3/4, 1/2, 1/2]]], [3]), 13) \<and>
   rng_ok demo_rng \<and> region_ok [(1/2, 1), (0, 1), (0, 1)] \<and> length [(0::real, 1::real), (0, 1)] = 2 \<and>
   0 < fst (1/2::real, 1::real) \<and>
   list_all2 (\<lambda>slab n. plot_history slab 1 = takeWhile (\<lambda>r. hd r < 1) (take n slab))
     [[[3/4::real, 1/2, 1/2], [3/4, 1/2, 1/2], [3/4, 1/2, 1/2]]] [3]"
proof -
  have r: "region_ok [(1/2::real, 1::real), (0, 1), (0, 1)]" by (simp add: region_ok_def)
  have l: "length [(0::real, 1::real), (0, 1)] = 2" and p: "0 < fst (1/2::real, 1::real)" by simp_all
  from generate_plot_history[OF demo_generate_late_value demo_rng_ok r l p, of 1] demo_generate_late_value
    demo_rng_ok r l p
  show ?thesis by simp
qed


theorem generate_plot_density_witness:
  "generate demo_rng (demo_pp 10) (1/2, 1) [(0, 1), (0, 1)] 1 1 False 0 =
     Some (Inr ([[[3/4::real, 1/2, 1/2], [3/4, 1/2, 1/2], [3/4, 1/2, 1/2]]], [3]), 13) \<and>
   rng_ok demo_rng \<and> region_ok [(1/2, 1), (0, 1), (0, 1)] \<and> length [(0::real, 1::real), (0, 1)] = 2 \<and>
   0 < fst (1/2::real, 1::real) \<and> kernel_valid (lam_kernel demo_lam) \<and> 0 \<le> lam_mu demo_lam \<and>
   0 \<le> (1::real) \<and> 2 \<le> (2::nat) \<and>
   (\<exists>evals fvals. plot_lam_f [[3/4, 1/2, 1/2], [3/4, 1/2, 1/2], [3/4, 1/2, 1/2]] demo_lam 1 [(0, 1), (0, 1)] 2 =
      Inr (evals, fvals) \<and> length evals = 2 * 2 \<and> list_all (\<lambda>e. lam_mu demo_lam \<le> e) evals \<and>
      list_all2 (\<lambda>e f. 0 \<le> f \<and> f \<le> e) evals fvals)"
proof -
  have r: "region_ok [(1/2::real, 1::real), (0, 1), (0, 1)]" by (simp add: region_ok_def)
  have l: "length [(0::real, 1::real), (0, 1)] = 2" and p: "0 < fst (1/2::real, 1::real)" by simp_all
  have h: "kernel_valid (lam_kernel demo_lam)" "0 \<le> lam_mu demo_lam" by (simp_all add: demo_lam_simps)
  have n: "0 \<le> (1::real)" "2 \<le> (2::nat)" by simp_all
  from generate_plot_density[OF demo_generate_late_value demo_rng_ok r l p h n] demo_generate_late_value
    demo_rng_ok r l p h n
  show ?thesis by simp
qed

end
